theory Spec2Isabelle
  imports Main
begin

section \<open>Python values and exceptions\<close>

text \<open>
  The scrapers receive parsed JSON and pass it around as dynamically typed Python values.
  \<open>PObject\<close> stands for any other Python object (a connection, a client, a function,
  a module), named by a label. Floats are outside the model. A dict is an association
  list read with \<open>map_of\<close>.
\<close>

datatype pyval =
    PNone
  | PBool bool
  | PInt int
  | PStr string
  | PList "pyval list"
  | PDict "(string \<times> pyval) list"
  | PObject string

type_synonym pydict = "(string \<times> pyval) list"

text \<open>
  The exceptions the modelled code can meet. The last three are the subclasses of
  \<open>sqlite3.Error\<close>; \<open>InterfaceError\<close> is the driver's refusal to bind a parameter of an
  unsupported type.
\<close>

datatype error =
    AttributeError
  | TypeError
  | ValueError
  | KeyError
  | IndexError
  | NameError
  | OverflowError
  | OperationalError
  | IntegrityError
  | InterfaceError

fun is_sqlite_error :: "error \<Rightarrow> bool" where
  "is_sqlite_error OperationalError = True"
| "is_sqlite_error IntegrityError = True"
| "is_sqlite_error InterfaceError = True"
| "is_sqlite_error _ = False"

definition ebind :: "error + 'a \<Rightarrow> ('a \<Rightarrow> error + 'b) \<Rightarrow> error + 'b" where
  "ebind m f = (case m of Inl e \<Rightarrow> Inl e | Inr x \<Rightarrow> f x)"

text \<open>\<open>d.get(k, dflt)\<close>\<close>

definition dict_get :: "pydict \<Rightarrow> string \<Rightarrow> pyval \<Rightarrow> pyval" where
  "dict_get d k dflt = (case map_of d k of Some v \<Rightarrow> v | None \<Rightarrow> dflt)"

text \<open>Truth value of an object, as \<open>if x\<close> and \<open>not x\<close> test it.\<close>

fun py_truthy :: "pyval \<Rightarrow> bool" where
  "py_truthy PNone = False"
| "py_truthy (PBool b) = b"
| "py_truthy (PInt n) = (n \<noteq> 0)"
| "py_truthy (PStr s) = (s \<noteq> [])"
| "py_truthy (PList xs) = (xs \<noteq> [])"
| "py_truthy (PDict d) = (d \<noteq> [])"
| "py_truthy (PObject _) = True"

subsection \<open>\<open>str.strip()\<close> and \<open>int(x)\<close>\<close>

text \<open>
  A string is a list of characters with code points up to U+00FF. The whitespace that
  \<open>str.strip()\<close> and \<open>int()\<close> remove is, in that range: tab, line feed, vertical tab, form
  feed, carriage return, the four separators U+001C to U+001F, space, next line (U+0085)
  and no-break space (U+00A0). The only decimal digits in the range are \<open>0\<close> to \<open>9\<close>.
\<close>

definition py_isspace :: "char \<Rightarrow> bool" where
  "py_isspace c = (c \<in> set [CHR 0x09, CHR 0x0A, CHR 0x0B, CHR 0x0C, CHR 0x0D,
                             CHR 0x1C, CHR 0x1D, CHR 0x1E, CHR 0x1F, CHR 0x20,
                             CHR 0x85, CHR 0xA0])"

definition py_strip :: "string \<Rightarrow> string" where
  "py_strip s = rev (dropWhile py_isspace (rev (dropWhile py_isspace s)))"

definition digit_of :: "char \<Rightarrow> int option" where
  "digit_of c = map_of [(CHR ''0'', 0), (CHR ''1'', 1), (CHR ''2'', 2), (CHR ''3'', 3),
                        (CHR ''4'', 4), (CHR ''5'', 5), (CHR ''6'', 6), (CHR ''7'', 7),
                        (CHR ''8'', 8), (CHR ''9'', 9)] c"

text \<open>Decimal digits, where a single underscore may stand between two digits.\<close>

fun digits_value :: "string \<Rightarrow> int \<Rightarrow> int option" where
  "digits_value [] acc = Some acc"
| "digits_value (c # cs) acc =
     (case digit_of c of
        Some d \<Rightarrow> digits_value cs (10 * acc + d)
      | None \<Rightarrow>
          (if c = CHR ''_'' then
             (case cs of
                [] \<Rightarrow> None
              | c' # _ \<Rightarrow> (if digit_of c' = None then None else digits_value cs acc))
           else None))"

definition int_of_str :: "string \<Rightarrow> int option" where
  "int_of_str s =
     (let t = py_strip s;
          neg = (case t of [] \<Rightarrow> False | c # _ \<Rightarrow> c = CHR ''-'');
          body = (case t of [] \<Rightarrow> []
                  | c # r \<Rightarrow> (if c = CHR ''-'' \<or> c = CHR ''+'' then r else t))
      in case body of
           [] \<Rightarrow> None
         | c # _ \<Rightarrow>
             (if digit_of c = None then None
              else map_option (\<lambda>n. if neg then - n else n) (digits_value body 0)))"

fun py_int :: "pyval \<Rightarrow> error + int" where
  "py_int PNone = Inl TypeError"
| "py_int (PBool b) = Inr (if b then 1 else 0)"
| "py_int (PInt n) = Inr n"
| "py_int (PStr s) = (case int_of_str s of None \<Rightarrow> Inl ValueError | Some n \<Rightarrow> Inr n)"
| "py_int (PList _) = Inl TypeError"
| "py_int (PDict _) = Inl TypeError"
| "py_int (PObject _) = Inl TypeError"

section \<open>The SQLite store\<close>

text \<open>
  The schema module of the package is not among the sources, so the tables are taken
  from the statements the scrapers issue: each table has the columns those statements
  name, \<open>id\<close> is its integer primary key, and a value is stored as it was bound.
\<close>

datatype sqlval = SNull | SInt int | SText string

text \<open>Binding a Python value to a \<open>?\<close> placeholder.\<close>

fun bind_param :: "pyval \<Rightarrow> error + sqlval" where
  "bind_param PNone = Inr SNull"
| "bind_param (PBool b) = Inr (SInt (if b then 1 else 0))"
| "bind_param (PInt n) =
     (if - (2 ^ 63) \<le> n \<and> n < 2 ^ 63 then Inr (SInt n) else Inl OverflowError)"
| "bind_param (PStr s) = Inr (SText s)"
| "bind_param (PList _) = Inl InterfaceError"
| "bind_param (PDict _) = Inl InterfaceError"
| "bind_param (PObject _) = Inl InterfaceError"

fun bind_params :: "pyval list \<Rightarrow> error + sqlval list" where
  "bind_params [] = Inr []"
| "bind_params (p # ps) =
     (case bind_param p of
        Inl e \<Rightarrow> Inl e
      | Inr v \<Rightarrow> (case bind_params ps of Inl e \<Rightarrow> Inl e | Inr vs \<Rightarrow> Inr (v # vs)))"

record league_row =
  l_id :: int
  l_name :: sqlval
  l_short_name :: sqlval
  l_code :: sqlval
  l_logo :: sqlval

record conference_row =
  cf_id :: int
  cf_name :: sqlval

record division_row =
  dv_id :: int
  dv_name :: sqlval

record season_row =
  s_id :: int
  s_sort :: sqlval
  s_name :: sqlval
  s_type :: sqlval
  s_current :: sqlval
  s_hide_in_standings :: sqlval
  s_start_date :: sqlval

record game_row =
  g_id :: int
  g_season_id :: sqlval
  g_status :: sqlval
  g_home_team :: sqlval
  g_visiting_team :: sqlval

record pbp_row =
  ev_id :: sqlval
  ev_game_id :: sqlval
  ev_columns :: "(string \<times> sqlval) list"

text \<open>
  The players table is read with \<open>SELECT *\<close> and \<open>PRAGMA table_info\<close>, so it keeps its
  column names in order, and each row as the values it holds by column name; a column
  for which a row holds no value reads as \<open>NULL\<close>.
\<close>

record db =
  leagues :: "league_row list"
  conferences :: "conference_row list"
  divisions :: "division_row list"
  seasons :: "season_row list"
  players_columns :: "string list"
  players :: "(string \<times> sqlval) list list"
  games :: "game_row list"
  pbp_faceoffs :: "pbp_row list"
  pbp_shots :: "pbp_row list"
  pbp_goals :: "pbp_row list"
  pbp_hits :: "pbp_row list"
  pbp_penalties :: "pbp_row list"
  pbp_blocked_shots :: "pbp_row list"
  pbp_goalie_changes :: "pbp_row list"
  pbp_shootouts :: "pbp_row list"

text \<open>
  The statements a cursor has executed: by kind, table and bound id for the statements of
  the scrapers, as text for a statement that went through the database manager.
\<close>

datatype stmt =
    Select string int
  | Update string "string list" int
  | Insert string int
  | Pragma string
  | Sql string

fun is_insert :: "stmt \<Rightarrow> bool" where
  "is_insert (Insert _ _) = True"
| "is_insert _ = False"

fun is_update :: "stmt \<Rightarrow> bool" where
  "is_update (Update _ _ _) = True"
| "is_update _ = False"

text \<open>Records written by \<open>logger.error\<close>.\<close>

datatype log_record =
    QueryExecutionError error
  | ExecutemanyError error
  | EventError pyval int error
  | NoTeamsError int

text \<open>
  A connection: the database as last committed, the database as the open transaction
  sees it, the statements executed so far and the error log. The connection has a
  single owner, so \<open>commit\<close> and \<open>rollback\<close> themselves do not fail.
\<close>

record conn =
  committed :: db
  working :: db
  trace :: "stmt list"
  error_log :: "log_record list"

definition commit :: "conn \<Rightarrow> conn" where
  "commit c = c\<lparr>committed := working c\<rparr>"

definition rollback :: "conn \<Rightarrow> conn" where
  "rollback c = c\<lparr>working := committed c\<rparr>"

definition executed :: "stmt \<Rightarrow> conn \<Rightarrow> conn" where
  "executed s c = c\<lparr>trace := trace c @ [s]\<rparr>"

text \<open>The statements executed between two states of a connection.\<close>

definition issued :: "conn \<Rightarrow> conn \<Rightarrow> stmt list" where
  "issued c c' = drop (length (trace c)) (trace c')"

subsection \<open>Statements on a table keyed by \<open>id\<close>\<close>

text \<open>\<open>SELECT ... WHERE id = ?\<close> followed by \<open>fetchone()\<close>\<close>

definition fetch_by_id :: "('r \<Rightarrow> int) \<Rightarrow> int \<Rightarrow> 'r list \<Rightarrow> 'r option" where
  "fetch_by_id key i tbl = find (\<lambda>r. key r = i) tbl"

text \<open>\<open>UPDATE ... SET ... WHERE id = ?\<close>\<close>

definition update_where_id :: "('r \<Rightarrow> int) \<Rightarrow> int \<Rightarrow> ('r \<Rightarrow> 'r) \<Rightarrow> 'r list \<Rightarrow> 'r list" where
  "update_where_id key i f tbl = map (\<lambda>r. if key r = i then f r else r) tbl"

text \<open>\<open>INSERT INTO ... VALUES ...\<close>: the primary key refuses a second row with the id.\<close>

definition insert_row :: "('r \<Rightarrow> int) \<Rightarrow> 'r \<Rightarrow> 'r list \<Rightarrow> error + 'r list" where
  "insert_row key r tbl =
     (if key r \<in> set (map key tbl) then Inl IntegrityError else Inr (tbl @ [r]))"

section \<open>Basic information scraper\<close>

text \<open>
  \<open>update_leagues\<close>, \<open>update_conferences\<close>, \<open>update_divisions\<close> and \<open>update_seasons\<close>
  end their loop body with the same three statements on their own table:

  \<^verbatim>\<open>
  cursor.execute("SELECT id FROM <table> WHERE id = ?", (record_id,))
  exists = cursor.fetchone()
  if exists:
      cursor.execute("UPDATE <table> SET ... WHERE id = ?", update_params)
  else:
      cursor.execute("INSERT INTO <table> (...) VALUES (...)", insert_params)
  \<close>

  \<open>upsert_row\<close> is that sequence. The table is given by its name, its key and its place in
  the database (\<open>get\<close>, \<open>put\<close>); \<open>set_cols\<close> and \<open>new_row\<close> read the bound parameters by
  position, as the placeholders do.
\<close>

definition upsert_row ::
  "string \<Rightarrow> ('r \<Rightarrow> int) \<Rightarrow> (db \<Rightarrow> 'r list) \<Rightarrow> ('r list \<Rightarrow> db \<Rightarrow> db) \<Rightarrow> int \<Rightarrow>
     string list \<Rightarrow> pyval list \<Rightarrow> (sqlval list \<Rightarrow> 'r \<Rightarrow> 'r) \<Rightarrow>
     pyval list \<Rightarrow> (sqlval list \<Rightarrow> 'r) \<Rightarrow> conn \<Rightarrow> (error + unit) \<times> conn" where
  "upsert_row table key get put record_id cols update_params set_cols insert_params new_row c =
     (case bind_params [PInt record_id] of
        Inl e \<Rightarrow> (Inl e, c)
      | Inr _ \<Rightarrow>
          (let c1 = executed (Select table record_id) c in
           case fetch_by_id key record_id (get (working c1)) of
             Some _ \<Rightarrow>
               (case bind_params update_params of
                  Inl e \<Rightarrow> (Inl e, c1)
                | Inr ps \<Rightarrow>
                    (Inr (),
                     executed (Update table cols record_id)
                       (c1\<lparr>working :=
                             put (update_where_id key record_id (set_cols ps) (get (working c1)))
                                 (working c1)\<rparr>)))
           | None \<Rightarrow>
               (case bind_params insert_params of
                  Inl e \<Rightarrow> (Inl e, c1)
                | Inr ps \<Rightarrow>
                    (case insert_row key (new_row ps) (get (working c1)) of
                       Inl e \<Rightarrow> (Inl e, c1)
                     | Inr tbl \<Rightarrow>
                         (Inr (),
                          executed (Insert table record_id)
                            (c1\<lparr>working := put tbl (working c1)\<rparr>))))))"

text \<open>
  The four loops are the same as well: read the record's id with
  \<open>int(record.get(id_key, 0))\<close>, skip the record when the id is zero, otherwise run the
  body and count the record. An exception leaves the loop at once. \<open>upsert\<close> is the loop
  body after the id test.
\<close>

fun upsert_loop ::
  "string \<Rightarrow> (int \<Rightarrow> pydict \<Rightarrow> conn \<Rightarrow> (error + unit) \<times> conn) \<Rightarrow>
     pydict list \<Rightarrow> nat \<Rightarrow> conn \<Rightarrow> (error + nat) \<times> conn" where
  "upsert_loop id_key upsert [] updated_count c = (Inr updated_count, c)"
| "upsert_loop id_key upsert (record # rest) updated_count c =
     (case py_int (dict_get record id_key (PInt 0)) of
        Inl e \<Rightarrow> (Inl e, c)
      | Inr record_id \<Rightarrow>
          (if record_id = 0 then upsert_loop id_key upsert rest updated_count c
           else (case upsert record_id record c of
                   (Inl e, c') \<Rightarrow> (Inl e, c')
                 | (Inr _, c') \<Rightarrow> upsert_loop id_key upsert rest (updated_count + 1) c')))"

text \<open>The end of each of the four functions: \<open>conn.commit()\<close>, then \<open>return updated_count\<close>.\<close>

definition commit_count :: "(error + nat) \<times> conn \<Rightarrow> (error + nat) \<times> conn" where
  "commit_count r =
     (case r of
        (Inl e, c') \<Rightarrow> (Inl e, c')
      | (Inr updated_count, c') \<Rightarrow> (Inr updated_count, commit c'))"

subsection \<open>\<open>update_leagues\<close>\<close>

definition upsert_league :: "int \<Rightarrow> pydict \<Rightarrow> conn \<Rightarrow> (error + unit) \<times> conn" where
  "upsert_league league_id league c =
     (let name = dict_get league ''name'' (PStr '''');
          short_name = dict_get league ''short_name'' (PStr '''');
          code = dict_get league ''code'' (PStr '''');
          logo = dict_get league ''logo_image'' (PStr '''')
      in upsert_row ''leagues'' l_id leagues (\<lambda>tbl d. d\<lparr>leagues := tbl\<rparr>) league_id
           [''name'', ''short_name'', ''code'', ''logo'']
           [name, short_name, code, logo, PInt league_id]
           (\<lambda>ps r. r\<lparr>l_name := ps ! 0, l_short_name := ps ! 1, l_code := ps ! 2,
                      l_logo := ps ! 3\<rparr>)
           [PInt league_id, name, short_name, code, logo]
           (\<lambda>ps. \<lparr>l_id = league_id, l_name = ps ! 1, l_short_name = ps ! 2,
                   l_code = ps ! 3, l_logo = ps ! 4\<rparr>)
           c)"

definition update_leagues :: "conn \<Rightarrow> pydict list \<Rightarrow> (error + nat) \<times> conn" where
  "update_leagues c leagues_data =
     commit_count (upsert_loop ''id'' upsert_league leagues_data 0 c)"

subsection \<open>\<open>update_conferences\<close>\<close>

definition upsert_conference :: "int \<Rightarrow> pydict \<Rightarrow> conn \<Rightarrow> (error + unit) \<times> conn" where
  "upsert_conference conf_id conference c =
     (let name = dict_get conference ''conference_name'' (PStr '''')
      in upsert_row ''conferences'' cf_id conferences (\<lambda>tbl d. d\<lparr>conferences := tbl\<rparr>) conf_id
           [''name'']
           [name, PInt conf_id]
           (\<lambda>ps r. r\<lparr>cf_name := ps ! 0\<rparr>)
           [PInt conf_id, name]
           (\<lambda>ps. \<lparr>cf_id = conf_id, cf_name = ps ! 1\<rparr>)
           c)"

definition update_conferences :: "conn \<Rightarrow> pydict list \<Rightarrow> (error + nat) \<times> conn" where
  "update_conferences c conferences_data =
     commit_count (upsert_loop ''conference_id'' upsert_conference conferences_data 0 c)"

subsection \<open>\<open>update_divisions\<close>\<close>

definition upsert_division :: "int \<Rightarrow> pydict \<Rightarrow> conn \<Rightarrow> (error + unit) \<times> conn" where
  "upsert_division div_id division c =
     (let name = dict_get division ''name'' (PStr '''')
      in upsert_row ''divisions'' dv_id divisions (\<lambda>tbl d. d\<lparr>divisions := tbl\<rparr>) div_id
           [''name'']
           [name, PInt div_id]
           (\<lambda>ps r. r\<lparr>dv_name := ps ! 0\<rparr>)
           [PInt div_id, name]
           (\<lambda>ps. \<lparr>dv_id = div_id, dv_name = ps ! 1\<rparr>)
           c)"

definition update_divisions :: "conn \<Rightarrow> pydict list \<Rightarrow> (error + nat) \<times> conn" where
  "update_divisions c divisions_data =
     commit_count (upsert_loop ''id'' upsert_division divisions_data 0 c)"

subsection \<open>\<open>update_seasons\<close>\<close>

text \<open>\<open>season.get("current", "0") == "1" or season.get("current") is True\<close>\<close>

definition season_flagged :: "pydict \<Rightarrow> bool" where
  "season_flagged season =
     (dict_get season ''current'' (PStr ''0'') = PStr ''1''
      \<or> dict_get season ''current'' PNone = PBool True)"

text \<open>The first loop: the id of the first season flagged current, if there is one.\<close>

fun flagged_season_id :: "pydict list \<Rightarrow> error + int option" where
  "flagged_season_id [] = Inr None"
| "flagged_season_id (season # rest) =
     (if season_flagged season then
        (case py_int (dict_get season ''id'' (PInt 0)) of
           Inl e \<Rightarrow> Inl e
         | Inr i \<Rightarrow> Inr (Some i))
      else flagged_season_id rest)"

text \<open>The generator \<open>int(season.get("id", 0)) for season in seasons_data\<close>, as \<open>max\<close> consumes it.\<close>

fun season_ids :: "pydict list \<Rightarrow> error + int list" where
  "season_ids [] = Inr []"
| "season_ids (season # rest) =
     (case py_int (dict_get season ''id'' (PInt 0)) of
        Inl e \<Rightarrow> Inl e
      | Inr i \<Rightarrow> (case season_ids rest of Inl e \<Rightarrow> Inl e | Inr js \<Rightarrow> Inr (i # js)))"

definition choose_current_season :: "pydict list \<Rightarrow> error + int option" where
  "choose_current_season seasons_data =
     (case flagged_season_id seasons_data of
        Inl e \<Rightarrow> Inl e
      | Inr (Some i) \<Rightarrow> Inr (Some i)
      | Inr None \<Rightarrow>
          (if seasons_data \<noteq> [] then
             (case season_ids seasons_data of
                Inl e \<Rightarrow> Inl e
              | Inr [] \<Rightarrow> Inr None
              | Inr (i # js) \<Rightarrow> Inr (Some (fold max js i)))
           else Inr None))"

text \<open>\<open>x in s\<close> for a string \<open>x\<close>.\<close>

fun is_substring :: "string \<Rightarrow> string \<Rightarrow> bool" where
  "is_substring x [] = (x = [])"
| "is_substring x (c # cs) = (take (length x) (c # cs) = x \<or> is_substring x cs)"

fun py_str_in :: "string \<Rightarrow> pyval \<Rightarrow> error + bool" where
  "py_str_in x (PStr s) = Inr (is_substring x s)"
| "py_str_in x (PList vs) = Inr (PStr x \<in> set vs)"
| "py_str_in x (PDict d) = Inr (x \<in> set (map fst d))"
| "py_str_in x PNone = Inl TypeError"
| "py_str_in x (PBool _) = Inl TypeError"
| "py_str_in x (PInt _) = Inl TypeError"
| "py_str_in x (PObject _) = Inl TypeError"

definition season_type_of :: "pyval \<Rightarrow> error + string" where
  "season_type_of name =
     (case py_str_in ''Preseason'' name of
        Inl e \<Rightarrow> Inl e
      | Inr True \<Rightarrow> Inr ''Preseason''
      | Inr False \<Rightarrow>
          (case py_str_in ''Playoffs'' name of
             Inl e \<Rightarrow> Inl e
           | Inr True \<Rightarrow> Inr ''Playoffs''
           | Inr False \<Rightarrow> Inr ''Regular Season''))"

text \<open>\<open>try: sort = int(...) except (ValueError, TypeError): sort = 0\<close>\<close>

definition season_sort :: "pydict \<Rightarrow> error + int" where
  "season_sort season =
     (case py_int (dict_get season ''default_sort'' (PInt 0)) of
        Inl e \<Rightarrow> (if e = ValueError \<or> e = TypeError then Inr 0 else Inl e)
      | Inr n \<Rightarrow> Inr n)"

definition upsert_season ::
  "int option \<Rightarrow> int \<Rightarrow> pydict \<Rightarrow> conn \<Rightarrow> (error + unit) \<times> conn" where
  "upsert_season current_season_id season_id season c =
     (let name = dict_get season ''name'' (PStr '''') in
      case season_type_of name of
        Inl e \<Rightarrow> (Inl e, c)
      | Inr season_type \<Rightarrow>
          (case season_sort season of
             Inl e \<Rightarrow> (Inl e, c)
           | Inr sort_order \<Rightarrow>
               (let current = (if Some season_id = current_season_id then 1 else 0);
                    hide_in_standings =
                      (if py_truthy (dict_get season ''hide_in_standings'' PNone) then 1 else 0)
                in upsert_row ''seasons'' s_id seasons (\<lambda>tbl d. d\<lparr>seasons := tbl\<rparr>) season_id
                     [''sort'', ''name'', ''type'', ''current'', ''hide_in_standings'']
                     [PInt sort_order, name, PStr season_type, PInt current,
                      PInt hide_in_standings, PInt season_id]
                     (\<lambda>ps r. r\<lparr>s_sort := ps ! 0, s_name := ps ! 1, s_type := ps ! 2,
                                s_current := ps ! 3, s_hide_in_standings := ps ! 4\<rparr>)
                     [PInt season_id, PInt sort_order, name, PStr season_type,
                      PInt current, PInt hide_in_standings]
                     (\<lambda>ps. \<lparr>s_id = season_id, s_sort = ps ! 1, s_name = ps ! 2,
                             s_type = ps ! 3, s_current = ps ! 4,
                             s_hide_in_standings = ps ! 5, s_start_date = SText ''''\<rparr>)
                     c)))"

definition update_seasons :: "conn \<Rightarrow> pydict list \<Rightarrow> (error + nat) \<times> conn" where
  "update_seasons c seasons_data =
     (case choose_current_season seasons_data of
        Inl e \<Rightarrow> (Inl e, c)
      | Inr current_season_id \<Rightarrow>
          commit_count
            (upsert_loop ''id'' (upsert_season current_season_id) seasons_data 0 c))"

section \<open>Player scraper\<close>

subsection \<open>Operations on dynamically typed values\<close>

text \<open>\<open>x.strip()\<close>: only a string has the method.\<close>

definition py_str_strip :: "pyval \<Rightarrow> error + pyval" where
  "py_str_strip v = (case v of PStr s \<Rightarrow> Inr (PStr (py_strip s)) | _ \<Rightarrow> Inl AttributeError)"

text \<open>\<open>len(x)\<close>\<close>

fun py_len :: "pyval \<Rightarrow> error + nat" where
  "py_len (PStr s) = Inr (length s)"
| "py_len (PList xs) = Inr (length xs)"
| "py_len (PDict d) = Inr (length d)"
| "py_len _ = Inl TypeError"

text \<open>\<open>x[i]\<close> for an integer \<open>i \<ge> 0\<close>; the keys of a parsed JSON object are strings.\<close>

fun py_index :: "pyval \<Rightarrow> nat \<Rightarrow> error + pyval" where
  "py_index (PList xs) i = (if i < length xs then Inr (xs ! i) else Inl IndexError)"
| "py_index (PStr s) i = (if i < length s then Inr (PStr [s ! i]) else Inl IndexError)"
| "py_index (PDict d) i = Inl KeyError"
| "py_index _ i = Inl TypeError"

text \<open>\<open>x[k]\<close> for a string \<open>k\<close>\<close>

fun py_item :: "pyval \<Rightarrow> string \<Rightarrow> error + pyval" where
  "py_item (PDict d) k = (case map_of d k of Some v \<Rightarrow> Inr v | None \<Rightarrow> Inl KeyError)"
| "py_item _ k = Inl TypeError"

text \<open>
  \<open>d[k] = v\<close> on a dict: the value of a key already there is replaced in place, a new key
  goes to the end.
\<close>

fun dict_set :: "(string \<times> 'v) list \<Rightarrow> string \<Rightarrow> 'v \<Rightarrow> (string \<times> 'v) list" where
  "dict_set [] k v = [(k, v)]"
| "dict_set ((k', v') # d) k v = (if k' = k then (k, v) # d else (k', v') # dict_set d k v)"

text \<open>A dict built from a sequence of items: the last item of a key is the one it keeps.\<close>

definition dict_of_items :: "(string \<times> 'v) list \<Rightarrow> string \<Rightarrow> 'v option" where
  "dict_of_items items = map_of (rev items)"

text \<open>
  \<open>x == s\<close> where \<open>s\<close> was read from the database, so is \<open>None\<close>, an \<open>int\<close> or a \<open>str\<close>.
  \<open>True\<close> equals 1 and \<open>False\<close> equals 0.
\<close>

fun py_eq_sql :: "pyval \<Rightarrow> sqlval \<Rightarrow> bool" where
  "py_eq_sql PNone SNull = True"
| "py_eq_sql (PBool b) (SInt n) = (n = (if b then 1 else 0))"
| "py_eq_sql (PInt m) (SInt n) = (m = n)"
| "py_eq_sql (PStr s) (SText t) = (s = t)"
| "py_eq_sql _ _ = False"

subsection \<open>\<open>extract_player_fields\<close>\<close>

text \<open>
  The three converters come from \<open>pwhl_scraper.utils.converters\<close>, which is not among the
  sources. They are parameters; each returns what its call site unpacks, or raises.
\<close>

record converters =
  extract_hometown_parts :: "pyval \<Rightarrow> error + pyval \<times> pyval"
  extract_team_id_from_url :: "pyval \<Rightarrow> error + pyval"
  extract_height_weight :: "pyval \<Rightarrow> pyval \<Rightarrow> error + pyval \<times> pyval"

text \<open>
  \<^verbatim>\<open>"G" if position == "G" else "D" if position in ("D", "LD", "RD") else
  "F" if position in ("F", "C", "LW", "RW") else ""\<close>
\<close>

definition position_analysis_of :: "pyval \<Rightarrow> pyval" where
  "position_analysis_of position =
     (if position = PStr ''G'' then PStr ''G''
      else if position \<in> set [PStr ''D'', PStr ''LD'', PStr ''RD''] then PStr ''D''
      else if position \<in> set [PStr ''F'', PStr ''C'', PStr ''LW'', PStr ''RW''] then PStr ''F''
      else PStr [])"

text \<open>
  \<^verbatim>\<open>try: jersey_number = int(info.get("jerseyNumber", 0)) if info.get("jerseyNumber") else None
  except ValueError: jersey_number = None\<close>
\<close>

definition jersey_number_of :: "pydict \<Rightarrow> error + pyval" where
  "jersey_number_of player_info =
     (if py_truthy (dict_get player_info ''jerseyNumber'' PNone) then
        (case py_int (dict_get player_info ''jerseyNumber'' (PInt 0)) of
           Inr n \<Rightarrow> Inr (PInt n)
         | Inl e \<Rightarrow> (if e = ValueError then Inr PNone else Inl e))
      else Inr PNone)"

text \<open>\<^verbatim>\<open>media_images[i]["url"] if len(media_images) > i else None\<close>\<close>

definition photo_url :: "pyval \<Rightarrow> nat \<Rightarrow> error + pyval" where
  "photo_url media_images i =
     (case py_len media_images of
        Inl e \<Rightarrow> Inl e
      | Inr n \<Rightarrow>
          (if n > i then ebind (py_index media_images i) (\<lambda>image. py_item image ''url'')
           else Inr PNone))"

text \<open>
  The function returns \<open>None\<close> for a payload that is false (\<open>None\<close>, an empty dict or list,
  an empty string, zero) and otherwise a dict of 22 fields. \<open>player_data\<close> and
  \<open>player_info\<close> are read through their \<open>get\<close>, so a payload or an \<open>info\<close> that is not a
  dict raises \<open>AttributeError\<close> at the first call.
\<close>

definition extract_player_fields :: "converters \<Rightarrow> pyval \<Rightarrow> error + pydict option" where
  "extract_player_fields cv player_data =
     (if \<not> py_truthy player_data then Inr None
      else case player_data of
        PDict data \<Rightarrow>
       (case dict_get data ''info'' (PDict []) of
        PDict player_info \<Rightarrow>
          ebind (py_int (dict_get player_info ''playerId'' (PInt 0))) (\<lambda>player_id.
          ebind (py_str_strip (dict_get player_info ''firstName'' (PStr []))) (\<lambda>first_name.
          ebind (py_str_strip (dict_get player_info ''lastName'' (PStr []))) (\<lambda>last_name.
          let player_type = dict_get player_info ''playerType'' PNone;
              position = dict_get player_info ''position'' PNone;
              position_analysis = position_analysis_of position;
              birth_date = dict_get player_info ''birthDate'' PNone;
              height = dict_get player_info ''height'' PNone;
              weight = dict_get player_info ''weight'' PNone;
              shoots = dict_get player_info ''shoots'' PNone;
              catches = dict_get player_info ''catches'' PNone;
              biography = dict_get player_info ''bio'' PNone
          in
          ebind (jersey_number_of player_info) (\<lambda>jersey_number.
          let birth_place = dict_get player_info ''birthPlace'' (PStr []) in
          ebind (extract_hometown_parts cv birth_place) (\<lambda>(hometown, hometown_div).
          let nationality_obj = dict_get player_info ''nationality'' (PDict []);
              nationality = (case nationality_obj of
                               PDict d \<Rightarrow> dict_get d ''name'' (PStr [])
                             | _ \<Rightarrow> PStr []);
              image_url = dict_get player_info ''profileImage'' PNone;
              media_section = dict_get data ''media'' (PDict []);
              media_images = (case media_section of
                                PDict d \<Rightarrow> dict_get d ''images'' (PList [])
                              | _ \<Rightarrow> PList [])
          in
          ebind (photo_url media_images 0) (\<lambda>photo_1_url.
          ebind (photo_url media_images 1) (\<lambda>photo_2_url.
          let team_image_url = dict_get player_info ''teamImage'' PNone in
          ebind (extract_team_id_from_url cv team_image_url) (\<lambda>team_id.
          ebind (extract_height_weight cv height weight) (\<lambda>(height_cm, weight_kg).
          Inr (Some
            [(''id'', PInt player_id),
             (''team_id'', team_id),
             (''jersey_number'', jersey_number),
             (''first_name'', first_name),
             (''last_name'', last_name),
             (''birth_date'', birth_date),
             (''type'', player_type),
             (''position'', position),
             (''position_analysis'', position_analysis),
             (''shoots'', shoots),
             (''catches'', catches),
             (''height_cm'', height_cm),
             (''weight_kg'', weight_kg),
             (''height'', height),
             (''weight'', weight),
             (''hometown'', hometown),
             (''hometown_div'', hometown_div),
             (''nationality'', nationality),
             (''biography'', biography),
             (''image_url'', image_url),
             (''photo_1_url'', photo_1_url),
             (''photo_2_url'', photo_2_url)]))))))))))
        | _ \<Rightarrow> Inl AttributeError)
      | _ \<Rightarrow> Inl AttributeError)"

subsection \<open>The statements on the players table\<close>

text \<open>The value a row holds in a column.\<close>

definition row_value :: "(string \<times> sqlval) list \<Rightarrow> string \<Rightarrow> sqlval" where
  "row_value row column = (case map_of row column of Some v \<Rightarrow> v | None \<Rightarrow> SNull)"

text \<open>
  \<open>SELECT * FROM players WHERE id = ?\<close> and \<open>fetchone()\<close>: the values of the first row with
  the id, in column order. The statement does not compile on a table without the column.
\<close>

definition select_player :: "db \<Rightarrow> sqlval \<Rightarrow> error + sqlval list option" where
  "select_player d i =
     (if ''id'' \<notin> set (players_columns d) then Inl OperationalError
      else Inr (map_option (\<lambda>row. map (row_value row) (players_columns d))
                  (find (\<lambda>row. row_value row ''id'' = i) (players d))))"

text \<open>
  \<open>INSERT INTO players (<names>) VALUES (?, ...)\<close>: every name has to be a column of the
  table; a column that is not named gets \<open>NULL\<close>.
\<close>

definition insert_player :: "db \<Rightarrow> string list \<Rightarrow> sqlval list \<Rightarrow> error + db" where
  "insert_player d names vs =
     (if \<not> set names \<subseteq> set (players_columns d) then Inl OperationalError
      else Inr (d\<lparr>players := players d @
                  [map (\<lambda>column. (column, case map_of (zip names vs) column of
                                             Some v \<Rightarrow> v | None \<Rightarrow> SNull))
                     (players_columns d)]\<rparr>))"

text \<open>\<open>UPDATE players SET <name> = ?, ... WHERE id = ?\<close>\<close>

definition set_columns ::
  "(string \<times> sqlval) list \<Rightarrow> (string \<times> sqlval) list \<Rightarrow> (string \<times> sqlval) list" where
  "set_columns assignments row = fold (\<lambda>(column, v) r. dict_set r column v) assignments row"

definition update_player_rows :: "db \<Rightarrow> (string \<times> sqlval) list \<Rightarrow> sqlval \<Rightarrow> db" where
  "update_player_rows d assignments i =
     d\<lparr>players := map (\<lambda>row. if row_value row ''id'' = i then set_columns assignments row
                             else row) (players d)\<rparr>"

subsection \<open>\<open>update_player\<close>\<close>

definition preserve_fields :: "string list" where
  "preserve_fields = [''hometown'', ''hometown_div'', ''nationality'', ''weight_kg'', ''height_cm'']"

text \<open>
  The loop that compares the extracted fields with the stored row:

  \<^verbatim>\<open>
  for column in columns:
      if column in fields:
          if column in preserve_fields:
              if fields[column] and fields[column] != existing_fields.get(column):
                  changes[column] = fields[column]
          elif fields[column] != existing_fields.get(column):
              changes[column] = fields[column]
  \<close>

  \<open>existing_fields.get(column)\<close> is \<open>None\<close> for a key that is not there, as it is for a
  stored \<open>NULL\<close>.
\<close>

fun collect_changes ::
  "pydict \<Rightarrow> (string \<Rightarrow> sqlval option) \<Rightarrow> string list \<Rightarrow> pydict \<Rightarrow> pydict" where
  "collect_changes player_fields existing_fields [] changes = changes"
| "collect_changes player_fields existing_fields (column # columns) changes =
     collect_changes player_fields existing_fields columns
       (case map_of player_fields column of
          None \<Rightarrow> changes
        | Some v \<Rightarrow>
            (let stored = (case existing_fields column of Some s \<Rightarrow> s | None \<Rightarrow> SNull) in
             if column \<in> set preserve_fields then
               (if py_truthy v \<and> \<not> py_eq_sql v stored then dict_set changes column v
                else changes)
             else if \<not> py_eq_sql v stored then dict_set changes column v
             else changes))"

text \<open>
  \<open>fields["id"]\<close> is the value \<open>int()\<close> returned in \<open>extract_player_fields\<close>, an \<open>int\<close>;
  the statements of the trace are named by it. \<open>existing_player\<close> has one value for each
  column, so \<open>existing_player[i]\<close> is in range for every \<open>i\<close> in \<open>range(len(columns))\<close>.
\<close>

definition update_player :: "converters \<Rightarrow> conn \<Rightarrow> pyval \<Rightarrow> (error + bool) \<times> conn" where
  "update_player cv c player_data =
     (case extract_player_fields cv player_data of
        Inl e \<Rightarrow> (Inl e, c)
      | Inr None \<Rightarrow> (Inr False, c)
      | Inr (Some player_fields) \<Rightarrow>
          (case map_of player_fields ''id'' of
             Some (PInt player_id) \<Rightarrow>
               (case bind_param (PInt player_id) of
                  Inl e \<Rightarrow> (Inl e, c)
                | Inr i \<Rightarrow>
                    (case select_player (working c) i of
                       Inl e \<Rightarrow> (Inl e, c)
                     | Inr existing \<Rightarrow>
                         (let c1 = executed (Select ''players'' player_id) c in
                          case existing of
                            None \<Rightarrow>
                              (case bind_params (map snd player_fields) of
                                 Inl e \<Rightarrow> (Inl e, c1)
                               | Inr vs \<Rightarrow>
                                   (case insert_player (working c1) (map fst player_fields) vs of
                                      Inl e \<Rightarrow> (Inl e, c1)
                                    | Inr d \<Rightarrow>
                                        (Inr True,
                                         commit (executed (Insert ''players'' player_id)
                                                   (c1\<lparr>working := d\<rparr>)))))
                          | Some existing_player \<Rightarrow>
                              (let c2 = executed (Pragma ''table_info(players)'') c1;
                                   columns = players_columns (working c2);
                                   existing_fields = dict_of_items (zip columns existing_player);
                                   changes = collect_changes player_fields existing_fields columns []
                               in
                               if changes \<noteq> [] then
                                 (case bind_params (map snd changes @ [PInt player_id]) of
                                    Inl e \<Rightarrow> (Inl e, c2)
                                  | Inr params \<Rightarrow>
                                      (Inr True,
                                       commit (executed (Update ''players'' (map fst changes) player_id)
                                                 (c2\<lparr>working :=
                                                       update_player_rows (working c2)
                                                         (zip (map fst changes) params)
                                                         (last params)\<rparr>))))
                               else (Inr False, c2)))))
           | Some _ \<Rightarrow> (Inl TypeError, c)
           | None \<Rightarrow> (Inl KeyError, c)))"

section \<open>Play-by-play scraper\<close>

subsection \<open>\<open>get_games_without_play_by_play\<close>\<close>

text \<open>
  The query, clause by clause. The subquery is the \<open>UNION\<close> of the \<open>SELECT DISTINCT
  game_id\<close> of the eight event tables, in the order the query lists them.
\<close>

definition pbp_game_ids :: "db \<Rightarrow> sqlval list" where
  "pbp_game_ids d =
     remdups (concat (map (\<lambda>tbl. remdups (map ev_game_id tbl))
       [pbp_faceoffs d, pbp_shots d, pbp_goals d, pbp_hits d, pbp_penalties d,
        pbp_blocked_shots d, pbp_goalie_changes d, pbp_shootouts d]))"

text \<open>
  \<open>FROM games g LEFT JOIN (...) pbp ON g.id = pbp.game_id\<close>: a game is paired with each
  subquery row that has its id, and with \<open>NULL\<close> when there is none. \<open>NULL\<close> equals nothing.
\<close>

definition games_left_join_pbp :: "db \<Rightarrow> (game_row \<times> sqlval) list" where
  "games_left_join_pbp d =
     concat (map (\<lambda>g. case filter (\<lambda>p. p = SInt (g_id g)) (pbp_game_ids d) of
                          [] \<Rightarrow> [(g, SNull)]
                        | p # ps \<Rightarrow> map (\<lambda>q. (g, q)) (p # ps))
                 (games d))"

text \<open>
  \<open>WHERE pbp.game_id IS NULL AND g.status = 'Final' ORDER BY g.id\<close>, then
  \<open>SELECT g.id, g.season_id\<close>. The function reads through the connection and returns
  \<open>cursor.fetchall()\<close>.
\<close>

definition get_games_without_play_by_play :: "conn \<Rightarrow> (int \<times> sqlval) list" where
  "get_games_without_play_by_play c =
     map (\<lambda>(g, p). (g_id g, g_season_id g))
       (sort_key (\<lambda>(g, p). g_id g)
          (filter (\<lambda>(g, p). p = SNull \<and> g_status g = SText ''Final'')
             (games_left_join_pbp (working c))))"

subsection \<open>\<open>process_game_play_by_play\<close>\<close>

text \<open>A value read back from the database, as the cursor hands it to Python.\<close>

fun py_of_sql :: "sqlval \<Rightarrow> pyval" where
  "py_of_sql SNull = PNone"
| "py_of_sql (SInt n) = PInt n"
| "py_of_sql (SText s) = PStr s"

text \<open>
  \<open>get_game_teams\<close>: \<open>SELECT home_team, visiting_team FROM games WHERE id = ?\<close> and
  \<open>fetchone()\<close>; \<open>(None, None)\<close> when there is no such game.
\<close>

definition get_game_teams :: "conn \<Rightarrow> int \<Rightarrow> (error + pyval \<times> pyval) \<times> conn" where
  "get_game_teams c game_id =
     (case bind_params [PInt game_id] of
        Inl e \<Rightarrow> (Inl e, c)
      | Inr _ \<Rightarrow>
          (let c1 = executed (Select ''games'' game_id) c in
           case fetch_by_id g_id game_id (games (working c1)) of
             Some g \<Rightarrow> (Inr (py_of_sql (g_home_team g), py_of_sql (g_visiting_team g)), c1)
           | None \<Rightarrow> (Inr (PNone, PNone), c1)))"

text \<open>The kinds of event, in the order of the \<open>if\<close>/\<open>elif\<close> chain, and the tag of each.\<close>

datatype event_kind =
  GoalieChange | Faceoff | Hit | Shot | BlockedShot | Goal | Penalty | Shootout

definition event_kind_of :: "pyval \<Rightarrow> event_kind option" where
  "event_kind_of event_type =
     (if event_type = PStr ''goalie_change'' then Some GoalieChange
      else if event_type = PStr ''faceoff'' then Some Faceoff
      else if event_type = PStr ''hit'' then Some Hit
      else if event_type = PStr ''shot'' then Some Shot
      else if event_type = PStr ''blocked_shot'' then Some BlockedShot
      else if event_type = PStr ''goal'' then Some Goal
      else if event_type = PStr ''penalty'' then Some Penalty
      else if event_type = PStr ''shootout'' then Some Shootout
      else None)"

text \<open>
  The eight handlers \<open>process_goalie_change\<close>, ..., \<open>process_shootout\<close> have one
  signature: \<open>(conn, event, game_id, season_id, home_team_id, away_team_id) -> bool\<close>.
  The dispatcher is modelled for any eight functions of that signature, each of which may
  change the connection, return either truth value, or raise.
\<close>

type_synonym handler =
  "conn \<Rightarrow> pydict \<Rightarrow> int \<Rightarrow> int \<Rightarrow> pyval \<Rightarrow> pyval \<Rightarrow> (error + bool) \<times> conn"

text \<open>
  Names are looked up in the function's local variables, then in the module's globals.
  A name bound in neither (nor a builtin) raises \<open>NameError\<close>.
\<close>

type_synonym frame = "string \<Rightarrow> pyval option"

definition load_name :: "frame \<Rightarrow> string \<Rightarrow> error + pyval" where
  "load_name fr name = (case fr name of None \<Rightarrow> Inl NameError | Some v \<Rightarrow> Inr v)"

text \<open>The names the module binds at top level: its imports, its logger and its functions.\<close>

definition module_globals :: "(string \<times> pyval) list" where
  "module_globals =
     [(''sqlite3'', PObject ''module''), (''logging'', PObject ''module''),
      (''Dict'', PObject ''typing''), (''Any'', PObject ''typing''), (''List'', PObject ''typing''),
      (''Optional'', PObject ''typing''), (''Tuple'', PObject ''typing''),
      (''PWHLApiClient'', PObject ''class''),
      (''create_connection'', PObject ''function''), (''execute_query'', PObject ''function''),
      (''fetch_one'', PObject ''function''), (''fetch_all'', PObject ''function''),
      (''logger'', PObject ''Logger''),
      (''process_game_play_by_play'', PObject ''function''),
      (''get_game_teams'', PObject ''function''),
      (''process_goalie_change'', PObject ''function''),
      (''process_faceoff'', PObject ''function''),
      (''process_hit'', PObject ''function''),
      (''process_shot'', PObject ''function''),
      (''process_blocked_shot'', PObject ''function''),
      (''process_goal'', PObject ''function''),
      (''process_goal_plus_players'', PObject ''function''),
      (''process_goal_minus_players'', PObject ''function''),
      (''process_penalty'', PObject ''function''),
      (''process_shootout'', PObject ''function''),
      (''get_games_without_play_by_play'', PObject ''function''),
      (''get_season_id_for_game'', PObject ''function''),
      (''update_play_by_play'', PObject ''function'')]"

text \<open>
  The local variables of \<open>process_game_play_by_play\<close> inside its loop: its three
  parameters, \<open>client\<close>, \<open>pbp_data\<close>, the two teams, \<open>events\<close>, the counter and the two
  variables of the iteration.
\<close>

definition dispatcher_frame ::
  "int \<Rightarrow> int \<Rightarrow> pyval \<Rightarrow> pyval \<Rightarrow> pyval \<Rightarrow> pyval \<Rightarrow> pyval \<Rightarrow> pyval \<Rightarrow> nat \<Rightarrow> frame" where
  "dispatcher_frame game_id season_id pbp_data home_team visiting_team events
       event event_type total_processed =
     map_of
       ([(''conn'', PObject ''Connection''), (''game_id'', PInt game_id),
         (''season_id'', PInt season_id), (''client'', PObject ''PWHLApiClient''),
         (''pbp_data'', pbp_data),
         (''home_team'', home_team), (''visiting_team'', visiting_team),
         (''events'', events),
         (''total_processed'', PInt (int total_processed)),
         (''event'', event), (''event_type'', event_type)]
        @ module_globals)"

text \<open>
  One handler call, \<open>process_x(conn, event, game_id, season_id, home_team_id,
  away_team_id)\<close>: the arguments are evaluated from left to right before the call. The
  first four are the function's own parameters and its loop variable; the last two are
  read from the frame.
\<close>

definition call_handler ::
  "frame \<Rightarrow> (event_kind \<Rightarrow> handler) \<Rightarrow> event_kind \<Rightarrow> conn \<Rightarrow> pydict \<Rightarrow> int \<Rightarrow> int \<Rightarrow>
     (error + bool) \<times> conn" where
  "call_handler fr handlers kind c event game_id season_id =
     (case load_name fr ''home_team_id'' of
        Inl e \<Rightarrow> (Inl e, c)
      | Inr home_team_id \<Rightarrow>
          (case load_name fr ''away_team_id'' of
             Inl e \<Rightarrow> (Inl e, c)
           | Inr away_team_id \<Rightarrow>
               handlers kind c event game_id season_id home_team_id away_team_id))"

text \<open>
  The loop \<open>for event in events\<close>. \<open>fr\<close> gives the frame of an iteration from its event,
  its tag and the counter.

  \<open>event_type = event.get('event')\<close> stands before the \<open>try\<close>: an event that is not a dict
  has no \<open>get\<close>, and the \<open>AttributeError\<close> leaves the loop and the function. For a dict, an
  exception of the \<open>try\<close> block is logged and the loop goes on; a tag that is none of the
  eight takes no branch.
\<close>

fun process_events ::
  "(pyval \<Rightarrow> pyval \<Rightarrow> nat \<Rightarrow> frame) \<Rightarrow> (event_kind \<Rightarrow> handler) \<Rightarrow> int \<Rightarrow> int \<Rightarrow>
     pyval list \<Rightarrow> nat \<Rightarrow> conn \<Rightarrow> (error + nat) \<times> conn" where
  "process_events fr handlers game_id season_id [] total_processed c = (Inr total_processed, c)"
| "process_events fr handlers game_id season_id (PDict event # rest) total_processed c =
     (let event_type = dict_get event ''event'' PNone in
      case event_kind_of event_type of
        None \<Rightarrow> process_events fr handlers game_id season_id rest total_processed c
      | Some kind \<Rightarrow>
          (case call_handler (fr (PDict event) event_type total_processed) handlers kind c event
                  game_id season_id of
             (Inr True, c') \<Rightarrow>
               process_events fr handlers game_id season_id rest (total_processed + 1) c'
           | (Inr False, c') \<Rightarrow>
               process_events fr handlers game_id season_id rest total_processed c'
           | (Inl e, c') \<Rightarrow>
               process_events fr handlers game_id season_id rest total_processed
                 (c'\<lparr>error_log := error_log c' @ [EventError event_type game_id e]\<rparr>)))"
| "process_events fr handlers game_id season_id (_ # rest) total_processed c =
     (Inl AttributeError, c)"

text \<open>
  \<^verbatim>\<open>not pbp_data or 'GC' not in pbp_data or 'Pxpverbose' not in pbp_data['GC']\<close>,
  from left to right. \<open>in\<close> raises \<open>TypeError\<close> on a value that is not a container, and so
  does a subscript with a string on anything but a dict.
\<close>

definition no_play_by_play :: "pyval \<Rightarrow> error + bool" where
  "no_play_by_play pbp_data =
     (if \<not> py_truthy pbp_data then Inr True
      else case py_str_in ''GC'' pbp_data of
        Inl e \<Rightarrow> Inl e
      | Inr False \<Rightarrow> Inr True
      | Inr True \<Rightarrow>
          (case py_item pbp_data ''GC'' of
             Inl e \<Rightarrow> Inl e
           | Inr gc \<Rightarrow>
               (case py_str_in ''Pxpverbose'' gc of
                  Inl e \<Rightarrow> Inl e
                | Inr found \<Rightarrow> Inr (\<not> found))))"

text \<open>
  The values a \<open>for\<close> loop takes from \<open>x\<close>: the items of a list, the keys of a dict, the
  characters of a string; nothing else can be iterated.
\<close>

fun py_iter :: "pyval \<Rightarrow> error + pyval list" where
  "py_iter (PList xs) = Inr xs"
| "py_iter (PDict d) = Inr (map (\<lambda>(k, v). PStr k) d)"
| "py_iter (PStr s) = Inr (map (\<lambda>ch. PStr [ch]) s)"
| "py_iter _ = Inl TypeError"

text \<open>
  The API client is not among the sources. \<open>fetched\<close> is the outcome of
  \<open>PWHLApiClient().fetch_play_by_play(game_id)\<close>: the value it returned, which is bound to
  \<open>pbp_data\<close>, or the exception it raised. The function returns the number of events
  processed, after the commit.
\<close>

definition process_game_play_by_play ::
  "(event_kind \<Rightarrow> handler) \<Rightarrow> error + pyval \<Rightarrow> conn \<Rightarrow> int \<Rightarrow> int \<Rightarrow> (error + nat) \<times> conn" where
  "process_game_play_by_play handlers fetched c game_id season_id =
     (case fetched of
        Inl e \<Rightarrow> (Inl e, c)
      | Inr pbp_data \<Rightarrow>
          (case no_play_by_play pbp_data of
             Inl e \<Rightarrow> (Inl e, c)
           | Inr True \<Rightarrow> (Inr 0, c)
           | Inr False \<Rightarrow>
               (case get_game_teams c game_id of
                  (Inl e, c1) \<Rightarrow> (Inl e, c1)
                | (Inr (home_team, visiting_team), c1) \<Rightarrow>
                    (if \<not> py_truthy home_team \<or> \<not> py_truthy visiting_team
                     then (Inr 0, c1\<lparr>error_log := error_log c1 @ [NoTeamsError game_id]\<rparr>)
                     else
                       (case ebind (py_item pbp_data ''GC'') (\<lambda>gc. py_item gc ''Pxpverbose'') of
                          Inl e \<Rightarrow> (Inl e, c1)
                        | Inr events \<Rightarrow>
                            (case py_iter events of
                               Inl e \<Rightarrow> (Inl e, c1)
                             | Inr evs \<Rightarrow>
                                 (case process_events
                                         (dispatcher_frame game_id season_id pbp_data home_team
                                            visiting_team events)
                                         handlers game_id season_id evs 0 c1 of
                                    (Inl e, c2) \<Rightarrow> (Inl e, c2)
                                  | (Inr total_processed, c2) \<Rightarrow>
                                      (Inr total_processed, commit c2))))))))"

section \<open>Database manager\<close>

text \<open>
  \<open>execute_query\<close> and \<open>execute_many\<close> hand a statement given as text to the cursor. What
  the statement does is the driver's business: \<open>cursor.execute\<close> and \<open>cursor.executemany\<close>
  are any two functions that, from the statement, its parameters and the database as the
  transaction sees it, either raise or give the cursor's \<open>rowcount\<close>, and leave a
  database behind in both cases.
\<close>

record driver =
  cursor_execute :: "string \<Rightarrow> pyval list option \<Rightarrow> db \<Rightarrow> (error + int) \<times> db"
  cursor_executemany :: "string \<Rightarrow> pyval list list \<Rightarrow> db \<Rightarrow> (error + int) \<times> db"

text \<open>\<open>if params:\<close> on an optional tuple.\<close>

definition params_given :: "pyval list option \<Rightarrow> bool" where
  "params_given params = (case params of None \<Rightarrow> False | Some ps \<Rightarrow> ps \<noteq> [])"

text \<open>
  The \<open>except sqlite3.Error\<close> clause of both helpers: log the error, roll back, re-raise.
  Any other exception passes through the helper untouched.
\<close>

definition on_sqlite_error :: "(error \<Rightarrow> log_record) \<Rightarrow> error \<Rightarrow> conn \<Rightarrow> (error + int) \<times> conn" where
  "on_sqlite_error record e c =
     (if is_sqlite_error e
      then (Inl e, rollback (c\<lparr>error_log := error_log c @ [record e]\<rparr>))
      else (Inl e, c))"

definition execute_query ::
  "driver \<Rightarrow> conn \<Rightarrow> string \<Rightarrow> pyval list option \<Rightarrow> (error + int) \<times> conn" where
  "execute_query drv c query params =
     (case (if params_given params
            then cursor_execute drv query params (working c)
            else cursor_execute drv query None (working c)) of
        (Inr rowcount, d) \<Rightarrow> (Inr rowcount, commit (executed (Sql query) (c\<lparr>working := d\<rparr>)))
      | (Inl e, d) \<Rightarrow> on_sqlite_error QueryExecutionError e (c\<lparr>working := d\<rparr>))"

definition execute_many ::
  "driver \<Rightarrow> conn \<Rightarrow> string \<Rightarrow> pyval list list \<Rightarrow> (error + int) \<times> conn" where
  "execute_many drv c query params_list =
     (case cursor_executemany drv query params_list (working c) of
        (Inr rowcount, d) \<Rightarrow> (Inr rowcount, commit (executed (Sql query) (c\<lparr>working := d\<rparr>)))
      | (Inl e, d) \<Rightarrow> on_sqlite_error ExecutemanyError e (c\<lparr>working := d\<rparr>))"

section \<open>Connections and example data\<close>

definition connect :: "db \<Rightarrow> conn" where
  "connect d = \<lparr>committed = d, working = d, trace = [], error_log = []\<rparr>"

definition empty_db :: db where
  "empty_db = \<lparr>leagues = [], conferences = [], divisions = [], seasons = [],
     players_columns = [], players = [], games = [],
     pbp_faceoffs = [], pbp_shots = [], pbp_goals = [], pbp_hits = [], pbp_penalties = [],
     pbp_blocked_shots = [], pbp_goalie_changes = [], pbp_shootouts = []\<rparr>"

definition pwhl :: pydict where
  "pwhl = [(''id'', PInt 1), (''name'', PStr ''PWHL''), (''code'', PStr ''pwhl'')]"

definition pwhl_updated :: pydict where
  "pwhl_updated = [(''id'', PInt 1), (''name'', PStr ''PWHL Updated''), (''code'', PStr ''pwhl-new'')]"



definition eastern_conference :: pydict where
  "eastern_conference = [(''conference_id'', PStr ''1''), (''conference_name'', PStr ''Eastern Conference'')]"

definition north_division :: pydict where
  "north_division = [(''id'', PStr ''1''), (''name'', PStr ''North Division'')]"

definition season_2024 :: pydict where
  "season_2024 = [(''id'', PStr ''5''), (''name'', PStr ''2024 Regular Season''), (''default_sort'', PStr ''3'')]"

definition season_2025 :: pydict where
  "season_2025 = [(''id'', PStr ''6''), (''name'', PStr ''2025 Regular Season'')]"

text \<open>A game still to be played, and a database that holds it and nothing else.\<close>

definition scheduled_game :: game_row where
  "scheduled_game = \<lparr>g_id = 1, g_season_id = SInt 1, g_status = SText ''Scheduled'',
                      g_home_team = SInt 1, g_visiting_team = SInt 2\<rparr>"

definition scheduled_game_db :: db where
  "scheduled_game_db = empty_db\<lparr>games := [scheduled_game]\<rparr>"

text \<open>Three finished games, of which the second has a goal on record.\<close>

definition final_game :: "int \<Rightarrow> game_row" where
  "final_game i = \<lparr>g_id = i, g_season_id = SInt 1, g_status = SText ''Final'',
                    g_home_team = SInt 1, g_visiting_team = SInt 2\<rparr>"

definition three_games_db :: db where
  "three_games_db =
     empty_db\<lparr>games := [final_game 3, final_game 2, scheduled_game, final_game 4],
              pbp_goals := [\<lparr>ev_id = SText ''2_goal_1'', ev_game_id = SInt 2, ev_columns = []\<rparr>]\<rparr>"

text \<open>Two events of the eight kinds and one of an unknown kind.\<close>

definition goal_event :: pydict where
  "goal_event = [(''event'', PStr ''goal''), (''team_id'', PStr ''1''), (''time'', PStr ''10:00'')]"

definition shot_event :: pydict where
  "shot_event = [(''event'', PStr ''shot''), (''team_id'', PStr ''2''), (''time'', PStr ''11:00'')]"

definition timeout_event :: pydict where
  "timeout_event = [(''event'', PStr ''timeout''), (''time'', PStr ''12:00'')]"

text \<open>A response of the API with the given list of events.\<close>

definition pbp_response :: "pyval list \<Rightarrow> pyval" where
  "pbp_response events = PDict [(''GC'', PDict [(''Pxpverbose'', PList events)])]"

text \<open>Handlers that count every event but a goal, on which they raise.\<close>

definition failing_on_goal :: "event_kind \<Rightarrow> handler" where
  "failing_on_goal kind c event game_id season_id home_team_id away_team_id =
     (if kind = Goal then (Inl KeyError, c) else (Inr True, c))"

text \<open>A frame in which the two team ids are bound.\<close>

definition frame_with_team_ids :: "pyval \<Rightarrow> pyval \<Rightarrow> nat \<Rightarrow> frame" where
  "frame_with_team_ids event event_type total_processed =
     map_of [(''home_team_id'', PInt 1), (''away_team_id'', PInt 2)]"

text \<open>
  A driver that knows two statements on the leagues table and raises
  \<open>OperationalError\<close> on any other text.
\<close>

definition sample_driver :: driver where
  "sample_driver =
     \<lparr>cursor_execute = (\<lambda>query params d.
          if query = ''DELETE FROM leagues''
          then (Inr (int (length (leagues d))), d\<lparr>leagues := []\<rparr>)
          else (Inl OperationalError, d)),
      cursor_executemany = (\<lambda>query params_list d.
          if query = ''DELETE FROM leagues WHERE id = ?''
          then (Inr (int (length (filter (\<lambda>r. [PInt (l_id r)] \<in> set params_list) (leagues d)))),
                d\<lparr>leagues := filter (\<lambda>r. [PInt (l_id r)] \<notin> set params_list) (leagues d)\<rparr>)
          else (Inl OperationalError, d))\<rparr>"

text \<open>A connection whose open transaction has inserted a league and not committed it.\<close>

definition uncommitted_league :: conn where
  "uncommitted_league = snd (upsert_league 1 pwhl (connect empty_db))"

text \<open>Handlers that count every event and touch nothing.\<close>

definition counting_handlers :: "event_kind \<Rightarrow> handler" where
  "counting_handlers kind c event game_id season_id home_team_id away_team_id = (Inr True, c)"

text \<open>
  Converters that take a non-empty birth place as the home town and find no division,
  team, height or weight.
\<close>

definition sample_converters :: converters where
  "sample_converters =
     \<lparr>extract_hometown_parts =
        (\<lambda>birth_place. Inr (if py_truthy birth_place then birth_place else PNone, PNone)),
      extract_team_id_from_url = (\<lambda>url. Inr PNone),
      extract_height_weight = (\<lambda>height weight. Inr (PNone, PNone))\<rparr>"

text \<open>A players table with the columns the scraper writes.\<close>

definition players_db :: db where
  "players_db =
     empty_db\<lparr>players_columns :=
       [''id'', ''team_id'', ''jersey_number'', ''first_name'', ''last_name'', ''birth_date'',
        ''type'', ''position'', ''position_analysis'', ''shoots'', ''catches'', ''height_cm'',
        ''weight_kg'', ''height'', ''weight'', ''hometown'', ''hometown_div'', ''nationality'',
        ''biography'', ''image_url'', ''photo_1_url'', ''photo_2_url'']\<rparr>"

text \<open>
  A player as the API describes her; the same player in a payload without birth place
  and nationality; and that sparse payload with another first name.
\<close>

definition poulin :: pyval where
  "poulin =
     PDict [(''info'', PDict [(''playerId'', PStr ''31''), (''firstName'', PStr ''Marie-Philip''),
                        (''lastName'', PStr ''Poulin''), (''position'', PStr ''C''),
                        (''jerseyNumber'', PStr ''29''), (''birthPlace'', PStr ''Beauceville''),
                        (''nationality'', PDict [(''name'', PStr ''Canada'')])])]"

definition poulin_sparse :: pyval where
  "poulin_sparse =
     PDict [(''info'', PDict [(''playerId'', PStr ''31''), (''firstName'', PStr ''Marie-Philip''),
                        (''lastName'', PStr ''Poulin''), (''position'', PStr ''C''),
                        (''jerseyNumber'', PStr ''29''), (''birthPlace'', PStr [])])]"

definition poulin_renamed :: pyval where
  "poulin_renamed =
     PDict [(''info'', PDict [(''playerId'', PStr ''31''), (''firstName'', PStr ''Marie''),
                        (''lastName'', PStr ''Poulin''), (''position'', PStr ''C''),
                        (''jerseyNumber'', PStr ''29''), (''birthPlace'', PStr [])])]"

text \<open>The connection after the scraper has stored the player from the full payload.\<close>

definition stored_poulin :: conn where
  "stored_poulin = snd (update_player sample_converters (connect players_db) poulin)"

section \<open>Vocabulary of the properties\<close>

text \<open>The exception a result carries, if any.\<close>

definition failure :: "error + 'a \<Rightarrow> error option" where
  "failure r = (case r of Inl e \<Rightarrow> Some e | Inr _ \<Rightarrow> None)"

text \<open>The four outcomes of one upsert.\<close>

definition upsert_shape ::
  "string \<Rightarrow> string list \<Rightarrow> (conn \<Rightarrow> int list) \<Rightarrow> int \<Rightarrow> conn \<Rightarrow> (error + unit) \<times> conn \<Rightarrow> bool" where
  "upsert_shape t cols ids i c r \<longleftrightarrow>
     (case r of (res, c') \<Rightarrow>
        ((\<exists>e. res = Inl e) \<and> c' = c)
      \<or> ((\<exists>e. res = Inl e) \<and> trace c' = trace c @ [Select t i] \<and> ids c' = ids c)
      \<or> (res = Inr () \<and> i \<in> set (ids c) \<and> ids c' = ids c
           \<and> trace c' = trace c @ [Select t i, Update t cols i])
      \<or> (res = Inr () \<and> i \<notin> set (ids c) \<and> ids c' = ids c @ [i]
           \<and> trace c' = trace c @ [Select t i, Insert t i]))"

text \<open>What one upsert does to the rows.\<close>

definition upsert_rows ::
  "('r \<Rightarrow> int) \<Rightarrow> (db \<Rightarrow> 'r list) \<Rightarrow> ('r \<Rightarrow> bool) \<Rightarrow> int \<Rightarrow> conn \<Rightarrow> (error + unit) \<times> conn \<Rightarrow> bool" where
  "upsert_rows key get Q i c r \<longleftrightarrow>
     (case r of (res, c') \<Rightarrow>
        ((\<exists>e. res = Inl e) \<longrightarrow> get (working c') = get (working c)) \<and>
        (res = Inr () \<longrightarrow>
           filter (\<lambda>r. key r \<noteq> i) (get (working c')) = filter (\<lambda>r. key r \<noteq> i) (get (working c))
           \<and> (\<forall>r \<in> set (get (working c')). key r = i \<longrightarrow> Q r)))"

text \<open>How a run of upserts on table \<open>t\<close> extends the trace and the table's ids.\<close>

definition extends :: "string \<Rightarrow> string list \<Rightarrow> (conn \<Rightarrow> int list) \<Rightarrow> conn \<Rightarrow> conn \<Rightarrow> bool" where
  "extends t cols ids c c' \<longleftrightarrow>
     (\<exists>new added.
        trace c' = trace c @ new \<and> ids c' = ids c @ added \<and> distinct added \<and>
        set added \<inter> set (ids c) = {} \<and>
        (\<forall>s \<in> set new. \<exists>i. i \<noteq> 0 \<and> (s = Select t i \<or> s = Insert t i \<or> s = Update t cols i)) \<and>
        (\<forall>i. Insert t i \<in> set new \<longleftrightarrow> i \<in> set added))"

text \<open>A game has play-by-play data when one of the eight event tables has a row of it.\<close>

definition has_pbp_rows :: "db \<Rightarrow> int \<Rightarrow> bool" where
  "has_pbp_rows d game =
     (\<exists>tbl \<in> set [pbp_faceoffs d, pbp_shots d, pbp_goals d, pbp_hits d, pbp_penalties d,
                   pbp_blocked_shots d, pbp_goalie_changes d, pbp_shootouts d].
        SInt game \<in> set (map ev_game_id tbl))"

text \<open>The events of a batch whose tag is one of the eight.\<close>

definition recognized :: "pydict \<Rightarrow> bool" where
  "recognized event = (event_kind_of (dict_get event ''event'' PNone) \<noteq> None)"

text \<open>The events at the head of a batch that are dicts, up to the first that is not.\<close>

fun leading_dicts :: "pyval list \<Rightarrow> pydict list" where
  "leading_dicts (PDict event # rest) = event # leading_dicts rest"
| "leading_dicts _ = []"

fun is_dict :: "pyval \<Rightarrow> bool" where
  "is_dict (PDict _) = True"
| "is_dict _ = False"

text \<open>
  An extracted field calls for no change of its column: it equals the stored value, or
  it is an empty value of a preserve-listed field.
\<close>

definition no_change :: "pydict \<Rightarrow> (string \<Rightarrow> sqlval option) \<Rightarrow> string \<Rightarrow> bool" where
  "no_change player_fields existing_fields column =
     (case map_of player_fields column of
        None \<Rightarrow> True
      | Some v \<Rightarrow>
          py_eq_sql v (case existing_fields column of Some s \<Rightarrow> s | None \<Rightarrow> SNull)
          \<or> (column \<in> set preserve_fields \<and> \<not> py_truthy v))"

text \<open>
  The outcomes of \<open>update_player\<close>: no row written, with any result but \<open>True\<close>; a row
  inserted; or columns of the player's row updated. The last two commit and return
  \<open>True\<close>.
\<close>

definition player_outcome :: "conn \<Rightarrow> (error + bool) \<times> conn \<Rightarrow> bool" where
  "player_outcome c r \<longleftrightarrow>
     (case r of (res, c') \<Rightarrow>
        (res \<noteq> Inr True \<and>
           (\<exists>pre. c' = c\<lparr>trace := trace c @ pre\<rparr> \<and>
                  (\<forall>s \<in> set pre. \<not> is_insert s \<and> \<not> is_update s)))
      \<or> (res = Inr True \<and>
           (\<exists>d i. c' = c\<lparr>committed := d, working := d,
                          trace := trace c @ [Select ''players'' i, Insert ''players'' i]\<rparr> \<and>
                  length (players d) = Suc (length (players (working c)))))
      \<or> (res = Inr True \<and>
           (\<exists>d i cols. cols \<noteq> [] \<and>
              c' = c\<lparr>committed := d, working := d,
                     trace := trace c @ [Select ''players'' i, Pragma ''table_info(players)'',
                                         Update ''players'' cols i]\<rparr>)))"

section \<open>Properties of the basic information scraper\<close>

subsection \<open>One upsert\<close>

lemma fetch_by_id_None: "fetch_by_id key i tbl = None \<longleftrightarrow> i \<notin> set (map key tbl)"
  by (auto simp: fetch_by_id_def find_None_iff)

lemma fetch_by_id_Some: "fetch_by_id key i tbl = Some r \<Longrightarrow> i \<in> set (map key tbl)"
  by (auto simp: fetch_by_id_def find_Some_iff)

lemma keys_update_where_id:
  "(\<And>r. key (f r) = key r) \<Longrightarrow> map key (update_where_id key i f tbl) = map key tbl"
  by (induction tbl) (auto simp: update_where_id_def)

lemma bind_params_length: "bind_params ps = Inr vs \<Longrightarrow> length vs = length ps"
  by (induction ps arbitrary: vs) (auto split: sum.splits)

lemma failure_simps [simp]: "failure (Inl e) = Some e" "failure (Inr x) = None"
  by (simp_all add: failure_def)

lemma failure_bind_params_Cons:
  "bind_param p = Inr v \<Longrightarrow> failure (bind_params (p # ps)) = failure (bind_params ps)"
  by (simp add: failure_def split: sum.splits)

lemma failure_bind_params_snoc:
  "bind_param p = Inr v \<Longrightarrow> failure (bind_params (ps @ [p])) = failure (bind_params ps)"
  by (induction ps) (auto simp: failure_def split: sum.splits)

lemma upsert_row_shape:
  assumes get_put: "\<And>tbl d. get (put tbl d) = tbl"
    and key_set: "\<And>ps r. key (set_cols ps r) = key r"
    and key_new: "\<And>ps. key (new_row ps) = i"
  shows "upsert_shape t cols (\<lambda>c. map key (get (working c))) i c
           (upsert_row t key get put i cols ups set_cols ins new_row c)"
proof (cases "bind_params [PInt i]")
  case (Inl e)
  then show ?thesis by (simp add: upsert_row_def upsert_shape_def)
next
  case bound: (Inr v)
  show ?thesis
  proof (cases "fetch_by_id key i (get (working c))")
    case None
    then have absent: "i \<notin> key ` set (get (working c))" by (simp add: fetch_by_id_None)
    show ?thesis
    proof (cases "bind_params ins")
      case (Inl e)
      with bound None show ?thesis
        by (simp add: upsert_row_def upsert_shape_def executed_def)
    next
      case (Inr ps)
      with bound None absent show ?thesis
        by (simp add: upsert_row_def upsert_shape_def executed_def insert_row_def key_new get_put)
    qed
  next
    case (Some r)
    then have present: "i \<in> key ` set (get (working c))" using fetch_by_id_Some by fastforce
    show ?thesis
    proof (cases "bind_params ups")
      case (Inl e)
      with bound Some show ?thesis
        by (simp add: upsert_row_def upsert_shape_def executed_def)
    next
      case (Inr ps)
      with bound Some present show ?thesis
        by (simp add: upsert_row_def upsert_shape_def executed_def get_put keys_update_where_id key_set)
    qed
  qed
qed

text \<open>Whether one upsert succeeds does not depend on the database.\<close>

lemma upsert_row_outcome:
  assumes same: "\<And>v. bind_param (PInt i) = Inr v \<Longrightarrow> failure (bind_params ups) = failure (bind_params ins)"
    and key_new: "\<And>ps. key (new_row ps) = i"
  shows "fst (upsert_row t key get put i cols ups set_cols ins new_row c) =
           (case bind_param (PInt i) of
              Inl e \<Rightarrow> Inl e
            | Inr _ \<Rightarrow> (case failure (bind_params ups) of Some e \<Rightarrow> Inl e | None \<Rightarrow> Inr ()))"
proof (cases "bind_param (PInt i)")
  case (Inl e)
  then show ?thesis by (simp add: upsert_row_def)
next
  case bound: (Inr v)
  then have eq: "failure (bind_params ups) = failure (bind_params ins)" using same by simp
  show ?thesis
  proof (cases "fetch_by_id key i (get (working c))")
    case None
    then have absent: "i \<notin> key ` set (get (working c))" by (simp add: fetch_by_id_None)
    with bound None eq show ?thesis
      by (cases "bind_params ins"; cases "bind_params ups")
         (simp_all add: upsert_row_def executed_def insert_row_def key_new)
  next
    case (Some r)
    with bound eq show ?thesis
      by (cases "bind_params ins"; cases "bind_params ups")
         (simp_all add: upsert_row_def executed_def)
  qed
qed

lemma filter_others_update_where_id:
  "(\<And>r. key (f r) = key r) \<Longrightarrow>
     filter (\<lambda>r. key r \<noteq> i) (update_where_id key i f tbl) = filter (\<lambda>r. key r \<noteq> i) tbl"
  by (induction tbl) (auto simp: update_where_id_def)

lemma updated_rows_update_where_id:
  "r \<in> set (update_where_id key i f tbl) \<Longrightarrow> key r = i \<Longrightarrow> (\<And>r. key (f r) = key r) \<Longrightarrow>
     \<exists>r0 \<in> set tbl. r = f r0"
  by (auto simp: update_where_id_def split: if_splits)

lemma upsert_row_rows:
  assumes get_put: "\<And>tbl d. get (put tbl d) = tbl"
    and key_set: "\<And>ps r. key (set_cols ps r) = key r"
    and key_new: "\<And>ps. key (new_row ps) = i"
    and Q_set: "\<And>ps r. bind_params ups = Inr ps \<Longrightarrow> Q (set_cols ps r)"
    and Q_new: "\<And>ps. bind_params ins = Inr ps \<Longrightarrow> Q (new_row ps)"
  shows "upsert_rows key get Q i c (upsert_row t key get put i cols ups set_cols ins new_row c)"
proof (cases "bind_params [PInt i]")
  case (Inl e)
  then show ?thesis by (simp add: upsert_row_def upsert_rows_def)
next
  case bound: (Inr v)
  show ?thesis
  proof (cases "fetch_by_id key i (get (working c))")
    case None
    then have absent: "i \<notin> key ` set (get (working c))" by (simp add: fetch_by_id_None)
    show ?thesis
    proof (cases "bind_params ins")
      case (Inl e)
      with bound None show ?thesis
        by (simp add: upsert_row_def upsert_rows_def executed_def)
    next
      case (Inr ps)
      with bound None absent Q_new[OF Inr] show ?thesis
        by (auto simp add: upsert_row_def upsert_rows_def executed_def insert_row_def key_new get_put)
    qed
  next
    case (Some r)
    show ?thesis
    proof (cases "bind_params ups")
      case (Inl e)
      with bound Some show ?thesis
        by (simp add: upsert_row_def upsert_rows_def executed_def)
    next
      case (Inr ps)
      have "\<And>r. r \<in> set (update_where_id key i (set_cols ps) (get (working c))) \<Longrightarrow> key r = i \<Longrightarrow> Q r"
        using updated_rows_update_where_id[of _ key i "set_cols ps"] key_set Q_set[OF Inr] by blast
      with bound Some Inr show ?thesis
        by (simp add: upsert_row_def upsert_rows_def executed_def get_put
              filter_others_update_where_id key_set)
    qed
  qed
qed

subsection \<open>The loop\<close>

lemma issued_append: "trace c' = trace c @ new \<Longrightarrow> issued c c' = new"
  by (simp add: issued_def)

lemma upsert_loop_Cons_cases:
  assumes "upsert_loop k up (r # rest) n c = (res, c')"
  obtains (int_err) e where "py_int (dict_get r k (PInt 0)) = Inl e" "res = Inl e" "c' = c"
  | (skip) "py_int (dict_get r k (PInt 0)) = Inr 0" "upsert_loop k up rest n c = (res, c')"
  | (step_err) i e where "py_int (dict_get r k (PInt 0)) = Inr i" "i \<noteq> 0"
      "up i r c = (Inl e, c')" "res = Inl e"
  | (step_ok) i c1 where "py_int (dict_get r k (PInt 0)) = Inr i" "i \<noteq> 0"
      "up i r c = (Inr (), c1)" "upsert_loop k up rest (n + 1) c1 = (res, c')"
  using assms by (auto split: sum.splits if_splits prod.splits)

lemma extends_refl: "extends t cols ids c c"
  unfolding extends_def by (rule exI[of _ "[]"], rule exI[of _ "[]"]) simp

lemma extends_trans:
  assumes "extends t cols ids c c1" "extends t cols ids c1 c2"
  shows "extends t cols ids c c2"
proof -
  from assms(1) obtain new1 added1 where
    1: "trace c1 = trace c @ new1" "ids c1 = ids c @ added1" "distinct added1"
       "set added1 \<inter> set (ids c) = {}"
       "\<forall>s \<in> set new1. \<exists>i. i \<noteq> 0 \<and> (s = Select t i \<or> s = Insert t i \<or> s = Update t cols i)"
       "\<forall>i. Insert t i \<in> set new1 \<longleftrightarrow> i \<in> set added1"
    unfolding extends_def by blast
  from assms(2) obtain new2 added2 where
    2: "trace c2 = trace c1 @ new2" "ids c2 = ids c1 @ added2" "distinct added2"
       "set added2 \<inter> set (ids c1) = {}"
       "\<forall>s \<in> set new2. \<exists>i. i \<noteq> 0 \<and> (s = Select t i \<or> s = Insert t i \<or> s = Update t cols i)"
       "\<forall>i. Insert t i \<in> set new2 \<longleftrightarrow> i \<in> set added2"
    unfolding extends_def by blast
  have a: "trace c2 = trace c @ (new1 @ new2)" using 1(1) 2(1) by simp
  have b: "ids c2 = ids c @ (added1 @ added2)" using 1(2) 2(2) by simp
  have d: "distinct (added1 @ added2)" using 1(2,3) 2(3,4) by auto
  have e: "set (added1 @ added2) \<inter> set (ids c) = {}" using 1(2,4) 2(4) by auto
  have f: "\<forall>s \<in> set (new1 @ new2). \<exists>i. i \<noteq> 0 \<and> (s = Select t i \<or> s = Insert t i \<or> s = Update t cols i)"
    using 1(5) 2(5) by auto
  have g: "\<forall>i. Insert t i \<in> set (new1 @ new2) \<longleftrightarrow> i \<in> set (added1 @ added2)"
    using 1(6) 2(6) by auto
  show ?thesis unfolding extends_def using a b d e f g by blast
qed

lemma upsert_shape_extends:
  assumes "upsert_shape t cols ids i c (res, c')" "i \<noteq> 0"
  shows "extends t cols ids c c'"
proof -
  from assms(1) consider
      "c' = c"
    | "trace c' = trace c @ [Select t i]" "ids c' = ids c"
    | "i \<in> set (ids c)" "ids c' = ids c" "trace c' = trace c @ [Select t i, Update t cols i]"
    | "i \<notin> set (ids c)" "ids c' = ids c @ [i]" "trace c' = trace c @ [Select t i, Insert t i]"
    unfolding upsert_shape_def by auto
  then show ?thesis
  proof cases
    case 1
    then show ?thesis by (simp add: extends_refl)
  next
    case 2
    show ?thesis unfolding extends_def
      by (rule exI[of _ "[Select t i]"], rule exI[of _ "[]"]) (use 2 assms(2) in auto)
  next
    case 3
    show ?thesis unfolding extends_def
      by (rule exI[of _ "[Select t i, Update t cols i]"], rule exI[of _ "[]"]) (use 3 assms(2) in auto)
  next
    case 4
    show ?thesis unfolding extends_def
      by (rule exI[of _ "[Select t i, Insert t i]"], rule exI[of _ "[i]"]) (use 4 assms(2) in auto)
  qed
qed

lemma upsert_loop_extends:
  assumes shape: "\<And>i r c. upsert_shape t cols ids i c (up i r c)"
    and run: "upsert_loop k up xs n c = (res, c')"
  shows "extends t cols ids c c'"
  using run
proof (induction xs arbitrary: n c)
  case Nil
  then show ?case by (simp add: extends_refl)
next
  case (Cons r rest)
  from Cons.prems show ?case
  proof (cases rule: upsert_loop_Cons_cases)
    case (int_err e)
    then show ?thesis by (simp add: extends_refl)
  next
    case skip
    then show ?thesis using Cons.IH by blast
  next
    case (step_err i e)
    then show ?thesis using shape[of i c r] upsert_shape_extends by metis
  next
    case (step_ok i c1)
    have "extends t cols ids c c1" using step_ok shape[of i c r] upsert_shape_extends by metis
    moreover have "extends t cols ids c1 c'" using step_ok Cons.IH by blast
    ultimately show ?thesis by (rule extends_trans)
  qed
qed

lemma extends_ids_mono: "extends t cols ids c c' \<Longrightarrow> set (ids c) \<subseteq> set (ids c')"
  unfolding extends_def by auto

lemma extends_issued_trans:
  "extends t cols ids c c1 \<Longrightarrow> extends t cols ids c1 c2 \<Longrightarrow> issued c c2 = issued c c1 @ issued c1 c2"
  unfolding extends_def issued_def by auto


lemma upsert_loop_stored:
  assumes shape: "\<And>i r c. upsert_shape t cols ids i c (up i r c)"
    and run: "upsert_loop k up xs n c = (Inr m, c')"
    and mem: "r \<in> set xs" and rid: "py_int (dict_get r k (PInt 0)) = Inr i" and nz: "i \<noteq> 0"
  shows "i \<in> set (ids c') \<and>
         (Insert t i \<in> set (issued c c') \<or> Update t cols i \<in> set (issued c c'))"
  using run mem
proof (induction xs arbitrary: n c)
  case Nil
  then show ?case by simp
next
  case (Cons x rest)
  from Cons.prems(1) show ?case
  proof (cases rule: upsert_loop_Cons_cases)
    case skip
    then have "r \<in> set rest" using Cons.prems(2) rid nz by auto
    then show ?thesis using Cons.IH skip by blast
  next
    case (step_ok j c1)
    have e1: "extends t cols ids c c1" using step_ok shape[of j c x] upsert_shape_extends by metis
    have e2: "extends t cols ids c1 c'" using step_ok(4) shape upsert_loop_extends by metis
    have iss: "issued c c' = issued c c1 @ issued c1 c'" using e1 e2 by (rule extends_issued_trans)
    show ?thesis
    proof (cases "r = x")
      case True
      then have ji: "j = i" using step_ok(1) rid by simp
      from shape[of j c x] step_ok(3) have
        "j \<in> set (ids c1) \<and> (Insert t j \<in> set (issued c c1) \<or> Update t cols j \<in> set (issued c c1))"
        unfolding upsert_shape_def by (auto simp: issued_append)
      then show ?thesis using ji iss extends_ids_mono[OF e2] by auto
    next
      case False
      then have "r \<in> set rest" using Cons.prems(2) by simp
      then have "i \<in> set (ids c') \<and>
         (Insert t i \<in> set (issued c1 c') \<or> Update t cols i \<in> set (issued c1 c'))"
        using Cons.IH step_ok(4) by blast
      then show ?thesis using iss by auto
    qed
  qed simp_all
qed

text \<open>Running the same records again on a table that holds every id of the first run.\<close>

lemma upsert_loop_again:
  assumes shape: "\<And>i r c. upsert_shape t cols ids i c (up i r c)"
    and indep: "\<And>i r c c0. fst (up i r c) = fst (up i r c0)"
    and run: "upsert_loop k up xs n c = (res, c1)"
    and sub: "set (ids c1) \<subseteq> set (ids c2)"
  shows "\<exists>c3. upsert_loop k up xs n c2 = (res, c3) \<and> ids c3 = ids c2 \<and>
              (\<forall>s \<in> set (issued c2 c3). \<not> is_insert s)"
  using run sub
proof (induction xs arbitrary: n c c2)
  case Nil
  then show ?case by (simp add: issued_def)
next
  case (Cons x rest)
  from Cons.prems(1) show ?case
  proof (cases rule: upsert_loop_Cons_cases)
    case (int_err e)
    then show ?thesis by (simp add: issued_def)
  next
    case skip
    then show ?thesis using Cons.IH Cons.prems(2) by simp
  next
    case (step_err i e)
    obtain r2 cb where up2: "up i x c2 = (r2, cb)" by (cases "up i x c2")
    have "r2 = Inl e" using indep[of i x c2 c] step_err(3) up2 by simp
    moreover have "ids cb = ids c2 \<and> (\<forall>s \<in> set (issued c2 cb). \<not> is_insert s)"
      using shape[of i c2 x] up2 \<open>r2 = Inl e\<close> unfolding upsert_shape_def
      by (auto simp: issued_def)
    ultimately show ?thesis using step_err up2 by simp
  next
    case (step_ok i ca)
    obtain r2 cb where up2: "up i x c2 = (r2, cb)" by (cases "up i x c2")
    have r2: "r2 = Inr ()" using indep[of i x c2 c] step_ok(3) up2 by simp
    have "i \<in> set (ids ca)" using shape[of i c x] step_ok(3) unfolding upsert_shape_def by auto
    moreover have "set (ids ca) \<subseteq> set (ids c1)"
      using upsert_loop_extends[OF shape step_ok(4)] extends_ids_mono by blast
    ultimately have present: "i \<in> set (ids c2)" using Cons.prems(2) by blast
    have cb: "ids cb = ids c2" "trace cb = trace c2 @ [Select t i, Update t cols i]"
      using shape[of i c2 x] up2 r2 present unfolding upsert_shape_def by auto
    have "set (ids c1) \<subseteq> set (ids cb)" using cb(1) Cons.prems(2) by simp
    from Cons.IH[OF step_ok(4) this] obtain c3 where
      c3: "upsert_loop k up rest (n + 1) cb = (res, c3)" "ids c3 = ids cb"
          "\<forall>s \<in> set (issued cb c3). \<not> is_insert s"
      by blast
    have "extends t cols ids cb c3" using upsert_loop_extends[OF shape c3(1)] .
    then obtain new where "trace c3 = trace cb @ new" unfolding extends_def by blast
    then have "issued c2 c3 = [Select t i, Update t cols i] @ issued cb c3"
      using cb(2) by (simp add: issued_def)
    then have "\<forall>s \<in> set (issued c2 c3). \<not> is_insert s" using c3(3) by auto
    then show ?thesis using step_ok up2 r2 c3 cb by simp
  qed
qed


lemma commit_count_Inr: "commit_count r = (Inr n, c') \<Longrightarrow> \<exists>c1. r = (Inr n, c1) \<and> c' = commit c1"
  by (auto simp: commit_count_def split: prod.splits sum.splits)

lemma commit_count_run:
  "commit_count (res, c1) = (res, case res of Inl _ \<Rightarrow> c1 | Inr _ \<Rightarrow> commit c1)"
  by (simp add: commit_count_def split: sum.splits)

lemma issued_commit [simp]: "issued c (commit c') = issued c c'" "issued (commit c) c' = issued c c'"
  by (simp_all add: issued_def commit_def)

lemma working_commit [simp]: "working (commit c) = working c" "committed (commit c) = working c"
  by (simp_all add: commit_def)

lemma upsert_twice:
  assumes shape: "\<And>i r c. upsert_shape t cols (\<lambda>c. map key (get (working c))) i c (up i r c)"
    and indep: "\<And>i r c c0. fst (up i r c) = fst (up i r c0)"
    and first: "commit_count (upsert_loop k up xs 0 c) = (r1, c1)"
  shows "\<exists>c2. commit_count (upsert_loop k up xs 0 c1) = (r1, c2) \<and>
           map key (get (working c2)) = map key (get (working c1)) \<and>
           (\<forall>s \<in> set (issued c1 c2). \<not> is_insert s) \<and>
           (\<forall>n. r1 = Inr n \<longrightarrow>
              (\<forall>r \<in> set xs. \<forall>i. py_int (dict_get r k (PInt 0)) = Inr i \<and> i \<noteq> 0 \<longrightarrow>
                   Update t cols i \<in> set (issued c1 c2)))"
proof -
  obtain ca where ca: "upsert_loop k up xs 0 c = (r1, ca)"
      and c1: "c1 = (case r1 of Inl _ \<Rightarrow> ca | Inr _ \<Rightarrow> commit ca)"
    using first by (cases "upsert_loop k up xs 0 c") (auto simp: commit_count_def split: sum.splits)
  have "set (map key (get (working ca))) \<subseteq> set (map key (get (working c1)))"
    using c1 by (cases r1) simp_all
  from upsert_loop_again[where ids="\<lambda>c. map key (get (working c))", OF shape indep ca this]
  obtain c3 where c3: "upsert_loop k up xs 0 c1 = (r1, c3)"
      "map key (get (working c3)) = map key (get (working c1))"
      "\<forall>s \<in> set (issued c1 c3). \<not> is_insert s"
    by blast
  let ?c2 = "case r1 of Inl _ \<Rightarrow> c3 | Inr _ \<Rightarrow> commit c3"
  have run2: "commit_count (upsert_loop k up xs 0 c1) = (r1, ?c2)"
    using c3(1) by (simp add: commit_count_run)
  have ids2: "map key (get (working ?c2)) = map key (get (working c1))"
    using c3(2) by (cases r1) simp_all
  have iss: "issued c1 ?c2 = issued c1 c3" by (cases r1) simp_all
  have upd: "Update t cols i \<in> set (issued c1 c3)"
    if "r1 = Inr n" "r \<in> set xs" "py_int (dict_get r k (PInt 0)) = Inr i" "i \<noteq> 0" for n r i
  proof -
    have "upsert_loop k up xs 0 c1 = (Inr n, c3)" using c3(1) that(1) by simp
    from upsert_loop_stored[where ids="\<lambda>c. map key (get (working c))", OF shape this that(2,3,4)]
    have "Insert t i \<in> set (issued c1 c3) \<or> Update t cols i \<in> set (issued c1 c3)" by blast
    moreover have "\<not> is_insert (Insert t i)" if "Insert t i \<in> set (issued c1 c3)"
      using c3(3) that by blast
    ultimately show ?thesis by auto
  qed
  show ?thesis
    apply (rule exI[of _ ?c2])
    using run2 ids2 iss c3(3) upd by auto
qed

lemma upsert_league_shape:
  "upsert_shape ''leagues'' [''name'', ''short_name'', ''code'', ''logo'']
     (\<lambda>c. map l_id (leagues (working c))) i c (upsert_league i r c)"
  unfolding upsert_league_def Let_def by (rule upsert_row_shape) simp_all

lemma failure_bind_params_rotate:
  "bind_param p = Inr v \<Longrightarrow> failure (bind_params (ps @ [p])) = failure (bind_params (p # ps))"
  by (simp only: failure_bind_params_snoc failure_bind_params_Cons)

lemma upsert_league_indep: "fst (upsert_league i r c) = fst (upsert_league i r c0)"
proof -
  have same: "failure (bind_params [n, s, cd, lg, PInt i]) = failure (bind_params [PInt i, n, s, cd, lg])"
    if "bind_param (PInt i) = Inr v" for n s cd lg v
    using failure_bind_params_rotate[OF that, of "[n, s, cd, lg]"] by simp
  show ?thesis
    unfolding upsert_league_def Let_def
    by (subst (1 2) upsert_row_outcome) (simp_all add: same del: bind_params.simps bind_param.simps)
qed

lemma length_filter_key:
  "length (filter (\<lambda>r. key r = i) tbl) = length (filter (\<lambda>j. j = i) (map key tbl))"
  by (induction tbl) auto

lemma extends_no_insert_of_present:
  "extends t cols ids c c' \<Longrightarrow> i \<in> set (ids c) \<Longrightarrow> Insert t i \<notin> set (issued c c')"
  unfolding extends_def by (auto simp: issued_def)

lemma extends_count_present:
  "extends t cols ids c c' \<Longrightarrow> i \<in> set (ids c) \<Longrightarrow>
     length (filter (\<lambda>j. j = i) (ids c')) = length (filter (\<lambda>j. j = i) (ids c))"
proof -
  assume e: "extends t cols ids c c'" and i: "i \<in> set (ids c)"
  then obtain added where a: "ids c' = ids c @ added" "set added \<inter> set (ids c) = {}"
    unfolding extends_def by blast
  then have "i \<notin> set added" using i by auto
  then have "filter (\<lambda>j. j = i) added = []" by (auto simp: filter_empty_conv)
  then show ?thesis using a(1) by simp
qed


lemma upsert_conference_shape:
  "upsert_shape ''conferences'' [''name''] (\<lambda>c. map cf_id (conferences (working c))) i c
     (upsert_conference i r c)"
  unfolding upsert_conference_def Let_def by (rule upsert_row_shape) simp_all

lemma upsert_conference_indep: "fst (upsert_conference i r c) = fst (upsert_conference i r c0)"
proof -
  have same: "failure (bind_params [n, PInt i]) = failure (bind_params [PInt i, n])"
    if "bind_param (PInt i) = Inr v" for n v
    using failure_bind_params_rotate[OF that, of "[n]"] by simp
  show ?thesis
    unfolding upsert_conference_def Let_def
    by (subst (1 2) upsert_row_outcome) (simp_all add: same del: bind_params.simps bind_param.simps)
qed

lemma upsert_division_shape:
  "upsert_shape ''divisions'' [''name''] (\<lambda>c. map dv_id (divisions (working c))) i c
     (upsert_division i r c)"
  unfolding upsert_division_def Let_def by (rule upsert_row_shape) simp_all

lemma upsert_division_indep: "fst (upsert_division i r c) = fst (upsert_division i r c0)"
proof -
  have same: "failure (bind_params [n, PInt i]) = failure (bind_params [PInt i, n])"
    if "bind_param (PInt i) = Inr v" for n v
    using failure_bind_params_rotate[OF that, of "[n]"] by simp
  show ?thesis
    unfolding upsert_division_def Let_def
    by (subst (1 2) upsert_row_outcome) (simp_all add: same del: bind_params.simps bind_param.simps)
qed

lemma upsert_shape_failed: "upsert_shape t cols ids i c (Inl e, c)"
  by (simp add: upsert_shape_def)

lemma upsert_season_unfold:
  assumes "season_type_of (dict_get r ''name'' (PStr '''')) = Inr st" "season_sort r = Inr so"
  shows "upsert_season cur i r c =
     upsert_row ''seasons'' s_id seasons (\<lambda>tbl d. d\<lparr>seasons := tbl\<rparr>) i
       [''sort'', ''name'', ''type'', ''current'', ''hide_in_standings'']
       [PInt so, dict_get r ''name'' (PStr ''''), PStr st,
        PInt (if Some i = cur then 1 else 0),
        PInt (if py_truthy (dict_get r ''hide_in_standings'' PNone) then 1 else 0), PInt i]
       (\<lambda>ps r. r\<lparr>s_sort := ps ! 0, s_name := ps ! 1, s_type := ps ! 2,
                  s_current := ps ! 3, s_hide_in_standings := ps ! 4\<rparr>)
       [PInt i, PInt so, dict_get r ''name'' (PStr ''''), PStr st,
        PInt (if Some i = cur then 1 else 0),
        PInt (if py_truthy (dict_get r ''hide_in_standings'' PNone) then 1 else 0)]
       (\<lambda>ps. \<lparr>s_id = i, s_sort = ps ! 1, s_name = ps ! 2, s_type = ps ! 3,
               s_current = ps ! 4, s_hide_in_standings = ps ! 5, s_start_date = SText ''''\<rparr>)
       c"
  using assms unfolding upsert_season_def Let_def by (simp only: sum.case)

lemma upsert_season_shape:
  "upsert_shape ''seasons'' [''sort'', ''name'', ''type'', ''current'', ''hide_in_standings'']
     (\<lambda>c. map s_id (seasons (working c))) i c (upsert_season cur i r c)"
proof (cases "season_type_of (dict_get r ''name'' (PStr ''''))")
  case (Inl e)
  then show ?thesis by (simp add: upsert_season_def upsert_shape_failed)
next
  case ty: (Inr st)
  show ?thesis
  proof (cases "season_sort r")
    case (Inl e)
    with ty show ?thesis by (simp add: upsert_season_def upsert_shape_failed)
  next
    case (Inr so)
    show ?thesis
      unfolding upsert_season_unfold[OF ty Inr] by (rule upsert_row_shape) simp_all
  qed
qed

lemma upsert_season_indep: "fst (upsert_season cur i r c) = fst (upsert_season cur i r c0)"
proof (cases "season_type_of (dict_get r ''name'' (PStr ''''))")
  case (Inl e)
  then show ?thesis by (simp add: upsert_season_def)
next
  case ty: (Inr st)
  show ?thesis
  proof (cases "season_sort r")
    case (Inl e)
    with ty show ?thesis by (simp add: upsert_season_def)
  next
    case (Inr so)
    have same: "failure (bind_params [a, b, d, e, f, PInt i]) = failure (bind_params [PInt i, a, b, d, e, f])"
      if "bind_param (PInt i) = Inr v" for a b d e f v
      using failure_bind_params_rotate[OF that, of "[a, b, d, e, f]"] by simp
    show ?thesis
      unfolding upsert_season_unfold[OF ty Inr]
      by (subst (1 2) upsert_row_outcome) (simp_all add: same del: bind_params.simps bind_param.simps)
  qed
qed

lemma bind_params_nth:
  "bind_params xs = Inr ps \<Longrightarrow> k < length xs \<Longrightarrow> bind_param (xs ! k) = Inr (ps ! k)"
proof (induction xs arbitrary: ps k)
  case Nil
  then show ?case by simp
next
  case (Cons x xs)
  then show ?case by (cases k) (auto split: sum.splits)
qed

lemma upsert_rows_failed: "upsert_rows key get Q i c (Inl e, c)"
  by (simp add: upsert_rows_def)

lemma upsert_season_rows:
  "upsert_rows s_id seasons (\<lambda>row. s_current row = SInt (if Some i = cur then 1 else 0)) i c
     (upsert_season cur i r c)"
proof (cases "season_type_of (dict_get r ''name'' (PStr ''''))")
  case (Inl e)
  then show ?thesis by (simp add: upsert_season_def upsert_rows_failed)
next
  case ty: (Inr st)
  show ?thesis
  proof (cases "season_sort r")
    case (Inl e)
    with ty show ?thesis by (simp add: upsert_season_def upsert_rows_failed)
  next
    case (Inr so)
    let ?cu = "if Some i = cur then 1 else (0::int)"
    have cu: "bind_param (PInt ?cu) = Inr (SInt ?cu)" by simp
    have upd: "ps ! 3 = SInt ?cu"
      if "bind_params [PInt so, a, b, PInt ?cu, d, PInt i] = Inr ps" for a b d ps
      using bind_params_nth[OF that, of 3] cu by (simp del: bind_params.simps bind_param.simps)
    have ins: "ps ! 4 = SInt ?cu"
      if "bind_params [PInt i, PInt so, a, b, PInt ?cu, d] = Inr ps" for a b d ps
      using bind_params_nth[OF that, of 4] cu by (simp del: bind_params.simps bind_param.simps)
    show ?thesis
      unfolding upsert_season_unfold[OF ty Inr]
      by (rule upsert_row_rows) (simp_all add: upd ins del: bind_params.simps bind_param.simps)
  qed
qed

text \<open>After a run that returns, a row either has the id of a record and what its upsert
  stored, or is a row of before whose id no record has.\<close>

lemma upsert_loop_rows:
  assumes rows: "\<And>i r c. upsert_rows key get (Q i r) i c (up i r c)"
    and run: "upsert_loop k up xs n c = (Inr m, c')"
  shows "\<forall>row \<in> set (get (working c')).
           (\<exists>x \<in> set xs. \<exists>i. py_int (dict_get x k (PInt 0)) = Inr i \<and> i \<noteq> 0 \<and> key row = i \<and> Q i x row)
         \<or> (row \<in> set (get (working c)) \<and>
              \<not> (\<exists>x \<in> set xs. \<exists>i. py_int (dict_get x k (PInt 0)) = Inr i \<and> i \<noteq> 0 \<and> key row = i))"
  using run
proof (induction xs arbitrary: n c)
  case Nil
  then show ?case by simp
next
  case (Cons x rest)
  from Cons.prems show ?case
  proof (cases rule: upsert_loop_Cons_cases)
    case skip
    from Cons.IH[OF skip(2)] skip(1) show ?thesis by auto
  next
    case (step_ok i c1)
    from rows[of i x c] step_ok(3) have
      others: "filter (\<lambda>r. key r \<noteq> i) (get (working c1)) = filter (\<lambda>r. key r \<noteq> i) (get (working c))"
      and mine: "\<forall>r \<in> set (get (working c1)). key r = i \<longrightarrow> Q i x r"
      unfolding upsert_rows_def by auto
    have old: "row \<in> set (get (working c))" if "row \<in> set (get (working c1))" "key row \<noteq> i" for row
    proof -
      from that have "row \<in> set (filter (\<lambda>r. key r \<noteq> i) (get (working c1)))" by simp
      then show ?thesis unfolding others by simp
    qed
    show ?thesis
    proof
      fix row assume "row \<in> set (get (working c'))"
      with Cons.IH[OF step_ok(4)] consider
          (a) "\<exists>y \<in> set rest. \<exists>j. py_int (dict_get y k (PInt 0)) = Inr j \<and> j \<noteq> 0 \<and> key row = j \<and> Q j y row"
        | (b) "row \<in> set (get (working c1))"
              "\<not> (\<exists>y \<in> set rest. \<exists>j. py_int (dict_get y k (PInt 0)) = Inr j \<and> j \<noteq> 0 \<and> key row = j)"
        by blast
      then show "(\<exists>y \<in> set (x # rest). \<exists>j. py_int (dict_get y k (PInt 0)) = Inr j \<and> j \<noteq> 0 \<and> key row = j \<and> Q j y row)
         \<or> (row \<in> set (get (working c)) \<and>
              \<not> (\<exists>y \<in> set (x # rest). \<exists>j. py_int (dict_get y k (PInt 0)) = Inr j \<and> j \<noteq> 0 \<and> key row = j))"
      proof cases
        case a
        then show ?thesis by auto
      next
        case b
        show ?thesis
        proof (cases "key row = i")
          case True
          then have "Q i x row" using mine b(1) by blast
          then show ?thesis using True step_ok(1,2) by auto
        next
          case False
          then have "row \<in> set (get (working c))" using old b(1) by blast
          then show ?thesis using False b(2) step_ok(1) by auto
        qed
      qed
    qed
  qed simp_all
qed

lemma flagged_season_id_in_payload:
  "flagged_season_id xs = Inr (Some i) \<Longrightarrow>
     \<exists>x \<in> set xs. py_int (dict_get x ''id'' (PInt 0)) = Inr i"
  by (induction xs) (auto split: if_splits sum.splits)

lemma season_ids_in_payload:
  "season_ids xs = Inr js \<Longrightarrow> j \<in> set js \<Longrightarrow>
     \<exists>x \<in> set xs. py_int (dict_get x ''id'' (PInt 0)) = Inr j"
  by (induction xs arbitrary: js) (auto split: sum.splits)

lemma fold_max_mem: "fold max js (i::int) \<in> set (i # js)"
proof (induction js arbitrary: i)
  case Nil
  then show ?case by simp
next
  case (Cons j js)
  have "max i j = i \<or> max i j = j" by (simp add: max_def)
  then show ?case using Cons[of "max i j"] by auto
qed

lemma choose_current_season_in_payload:
  assumes "choose_current_season xs = Inr (Some i)"
  shows "\<exists>x \<in> set xs. py_int (dict_get x ''id'' (PInt 0)) = Inr i"
proof (cases "flagged_season_id xs")
  case (Inl e)
  with assms show ?thesis by (simp add: choose_current_season_def)
next
  case (Inr f)
  show ?thesis
  proof (cases f)
    case (Some j)
    with Inr assms have "j = i" by (simp add: choose_current_season_def)
    with Inr Some show ?thesis using flagged_season_id_in_payload by blast
  next
    case None
    with Inr assms obtain j js where js: "season_ids xs = Inr (j # js)" "i = fold max js j"
      by (auto simp: choose_current_season_def split: if_splits sum.splits list.splits)
    then have "i \<in> set (j # js)" using fold_max_mem by blast
    then show ?thesis using season_ids_in_payload[OF js(1)] by blast
  qed
qed

lemma filter_unique_key:
  assumes "distinct (map key tbl)" "r0 \<in> set tbl" "\<forall>r \<in> set tbl. P r \<longleftrightarrow> key r = key r0"
  shows "filter P tbl = [r0]"
  using assms
proof (induction tbl)
  case Nil
  then show ?case by simp
next
  case (Cons r tbl)
  show ?case
  proof (cases "r = r0")
    case True
    have "\<not> P x" if "x \<in> set tbl" for x
    proof -
      have "key x \<in> key ` set tbl" using that by (rule imageI)
      moreover have "key r \<notin> key ` set tbl" using Cons.prems(1) by simp
      ultimately have "key x \<noteq> key r" by metis
      then show ?thesis using Cons.prems(3) that True by auto
    qed
    then have "filter P tbl = []" by (simp add: filter_empty_conv)
    then show ?thesis using Cons.prems True by simp
  next
    case False
    then have in_tl: "r0 \<in> set tbl" using Cons.prems by simp
    then have "key r \<noteq> key r0" using Cons.prems(1) by auto
    then have "\<not> P r" using Cons.prems(3) by simp
    moreover have "filter P tbl = [r0]" using Cons.IH Cons.prems in_tl by simp
    ultimately show ?thesis by simp
  qed
qed

lemma extends_distinct:
  "extends t cols ids c c' \<Longrightarrow> distinct (ids c) \<Longrightarrow> distinct (ids c')"
  unfolding extends_def by auto

section \<open>Properties of the play-by-play scraper\<close>

subsection \<open>The backfill query\<close>

lemma filter_eq_distinct:
  "distinct ys \<Longrightarrow> filter (\<lambda>p. p = v) ys = (if v \<in> set ys then [v] else [])"
  by (induction ys) auto

lemma pbp_game_ids_mem: "SInt i \<in> set (pbp_game_ids d) \<longleftrightarrow> has_pbp_rows d i"
  by (auto simp: pbp_game_ids_def has_pbp_rows_def)

lemma games_left_join_pbp_rows:
  "games_left_join_pbp d =
     map (\<lambda>g. (g, if has_pbp_rows d (g_id g) then SInt (g_id g) else SNull)) (games d)"
proof -
  have one: "(case filter (\<lambda>p. p = SInt (g_id g)) (pbp_game_ids d) of
                [] \<Rightarrow> [(g, SNull)]
              | p # ps \<Rightarrow> map (\<lambda>q. (g, q)) (p # ps))
             = [(g, if has_pbp_rows d (g_id g) then SInt (g_id g) else SNull)]" for g
  proof -
    have "distinct (pbp_game_ids d)" by (simp add: pbp_game_ids_def)
    then have "filter (\<lambda>p. p = SInt (g_id g)) (pbp_game_ids d)
                 = (if has_pbp_rows d (g_id g) then [SInt (g_id g)] else [])"
      by (simp add: filter_eq_distinct pbp_game_ids_mem)
    then show ?thesis by simp
  qed
  show ?thesis
    unfolding games_left_join_pbp_def one by (induction "games d") simp_all
qed

lemma insort_key_map:
  "insort_key k (h x) (map h ys) = map h (insort_key (\<lambda>y. k (h y)) x ys)"
  by (induction ys) simp_all

lemma sort_key_map: "sort_key k (map h xs) = map h (sort_key (\<lambda>y. k (h y)) xs)"
  by (induction xs) (simp_all add: insort_key_map)

lemma games_without_play_by_play_eq:
  "get_games_without_play_by_play c =
     map (\<lambda>g. (g_id g, g_season_id g))
       (sort_key g_id
          (filter (\<lambda>g. g_status g = SText ''Final'' \<and> \<not> has_pbp_rows (working c) (g_id g))
             (games (working c))))"
proof -
  let ?d = "working c"
  let ?h = "\<lambda>g. (g, if has_pbp_rows ?d (g_id g) then SInt (g_id g) else SNull)"
  have f: "filter (\<lambda>(g, p). p = SNull \<and> g_status g = SText ''Final'') (map ?h xs)
             = map ?h (filter (\<lambda>g. g_status g = SText ''Final'' \<and> \<not> has_pbp_rows ?d (g_id g)) xs)"
    for xs
    by (induction xs) auto
  show ?thesis
    unfolding get_games_without_play_by_play_def games_left_join_pbp_rows f
    by (simp add: sort_key_map comp_def)
qed

subsection \<open>The dispatcher\<close>

lemma dispatcher_frame_team_ids:
  "dispatcher_frame game_id season_id pbp_data home_team visiting_team events event event_type tp
     ''home_team_id'' = None"
  "dispatcher_frame game_id season_id pbp_data home_team visiting_team events event event_type tp
     ''away_team_id'' = None"
  by (simp_all add: dispatcher_frame_def module_globals_def)

lemma dispatcher_frame_teams:
  "dispatcher_frame game_id season_id pbp_data home_team visiting_team events event event_type tp
     ''home_team'' = Some home_team"
  "dispatcher_frame game_id season_id pbp_data home_team visiting_team events event event_type tp
     ''visiting_team'' = Some visiting_team"
  by (simp_all add: dispatcher_frame_def module_globals_def)

lemma call_handler_unbound:
  "fr ''home_team_id'' = None \<Longrightarrow>
     call_handler fr handlers kind c event game_id season_id = (Inl NameError, c)"
  by (simp add: call_handler_def load_name_def)

lemma process_events_not_dict:
  "\<not> is_dict ev \<Longrightarrow>
     process_events fr handlers game_id season_id (ev # rest) tp c = (Inl AttributeError, c)"
  by (cases ev) simp_all

lemma leading_dicts_not_dict: "\<not> is_dict ev \<Longrightarrow> leading_dicts (ev # rest) = []"
  by (cases ev) simp_all

lemma leading_dicts_map: "leading_dicts (map PDict evs) = evs"
  by (induction evs) simp_all

lemma list_all_is_dict_map: "list_all is_dict (map PDict evs)"
  by (induction evs) simp_all

lemma process_events_unbound:
  assumes "\<And>event event_type tp. fr event event_type tp ''home_team_id'' = None"
  shows "process_events fr handlers game_id season_id evs tp c =
           (if list_all is_dict evs then Inr tp else Inl AttributeError,
            c\<lparr>error_log := error_log c @
                  map (\<lambda>ev. EventError (dict_get ev ''event'' PNone) game_id NameError)
                    (filter recognized (leading_dicts evs))\<rparr>)"
proof (induction evs arbitrary: c)
  case Nil
  then show ?case by simp
next
  case (Cons ev evs)
  show ?case
  proof (cases "is_dict ev")
    case False
    then show ?thesis
      by (simp add: process_events_not_dict leading_dicts_not_dict)
  next
    case True
    then obtain d where d: "ev = PDict d" by (cases ev) simp_all
    show ?thesis
    proof (cases "event_kind_of (dict_get d ''event'' PNone)")
      case None
      then show ?thesis using Cons d by (simp add: recognized_def)
    next
      case (Some kind)
      have "call_handler (fr (PDict d) (dict_get d ''event'' PNone) tp) handlers kind c d
              game_id season_id = (Inl NameError, c)"
        by (rule call_handler_unbound) (rule assms)
      with Some show ?thesis
        using Cons d by (simp add: recognized_def)
    qed
  qed
qed

text \<open>A batch of dicts is processed to its end.\<close>

lemma process_events_dicts:
  "\<exists>n c'. process_events fr handlers game_id season_id (map PDict evs) tp c = (Inr n, c')
          \<and> tp \<le> n \<and> n \<le> tp + length (filter recognized evs)"
proof (induction evs arbitrary: tp c)
  case Nil
  then show ?case by simp
next
  case (Cons ev evs)
  show ?case
  proof (cases "event_kind_of (dict_get ev ''event'' PNone)")
    case None
    then have "\<not> recognized ev" by (simp add: recognized_def)
    then show ?thesis using None Cons[of tp c] by simp
  next
    case (Some kind)
    then have rec: "recognized ev" by (simp add: recognized_def)
    obtain r c' where call:
      "call_handler (fr (PDict ev) (dict_get ev ''event'' PNone) tp) handlers kind c ev
         game_id season_id = (r, c')"
      by (cases "call_handler (fr (PDict ev) (dict_get ev ''event'' PNone) tp) handlers kind c ev
                   game_id season_id")
    show ?thesis
    proof (cases r)
      case (Inl e)
      obtain n c2 where
        "process_events fr handlers game_id season_id (map PDict evs) tp
           (c'\<lparr>error_log := error_log c' @ [EventError (dict_get ev ''event'' PNone) game_id e]\<rparr>)
           = (Inr n, c2)" "tp \<le> n" "n \<le> tp + length (filter recognized evs)"
        using Cons[of tp "c'\<lparr>error_log := error_log c'
                              @ [EventError (dict_get ev ''event'' PNone) game_id e]\<rparr>"]
        by blast
      then show ?thesis
        using Some call Inl rec by simp
    next
      case (Inr b)
      show ?thesis
      proof (cases b)
        case True
        obtain n c2 where
          "process_events fr handlers game_id season_id (map PDict evs) (tp + 1) c' = (Inr n, c2)"
          "tp + 1 \<le> n" "n \<le> tp + 1 + length (filter recognized evs)"
          using Cons[of "tp + 1" c'] by blast
        then show ?thesis
          using Some call Inr True rec by simp
      next
        case False
        obtain n c2 where
          "process_events fr handlers game_id season_id (map PDict evs) tp c' = (Inr n, c2)"
          "tp \<le> n" "n \<le> tp + length (filter recognized evs)"
          using Cons[of tp c'] by blast
        then show ?thesis
          using Some call Inr False rec by simp
      qed
    qed
  qed
qed

text \<open>An event with another tag is as good as absent.\<close>

lemma process_events_filter:
  "process_events fr handlers game_id season_id (map PDict evs) tp c
     = process_events fr handlers game_id season_id (map PDict (filter recognized evs)) tp c"
proof (induction evs arbitrary: tp c)
  case Nil
  then show ?case by simp
next
  case (Cons ev evs)
  show ?case
  proof (cases "event_kind_of (dict_get ev ''event'' PNone)")
    case None
    then have "\<not> recognized ev" by (simp add: recognized_def)
    then show ?thesis using None Cons[of tp c] by simp
  next
    case (Some kind)
    then have rec: "recognized ev" by (simp add: recognized_def)
    show ?thesis
      using Some rec Cons
      by (simp add: Let_def split: prod.splits sum.splits bool.splits)
  qed
qed

text \<open>The loop goes through a batch part by part.\<close>

lemma process_events_append:
  "process_events fr handlers game_id season_id (evs1 @ evs2) tp c
     = (case process_events fr handlers game_id season_id evs1 tp c of
          (Inr n, c1) \<Rightarrow> process_events fr handlers game_id season_id evs2 n c1
        | (Inl e, c1) \<Rightarrow> (Inl e, c1))"
proof (induction evs1 arbitrary: tp c)
  case Nil
  then show ?case by simp
next
  case (Cons ev evs1)
  show ?case
  proof (cases "is_dict ev")
    case False
    then show ?thesis by (simp add: process_events_not_dict)
  next
    case True
    then obtain d where d: "ev = PDict d" by (cases ev) simp_all
    show ?thesis
      using Cons d
      by (simp add: Let_def split: option.splits prod.splits sum.splits bool.splits)
  qed
qed

lemma get_game_teams_bound:
  "bind_param (PInt game_id) = Inr v \<Longrightarrow> \<exists>teams c1. get_game_teams c game_id = (Inr teams, c1)"
  by (simp add: get_game_teams_def Let_def split: option.splits)

lemma py_item_dict:
  "py_item x k = Inr v \<Longrightarrow> \<exists>d. x = PDict d \<and> map_of d k = Some v"
  by (cases x) (simp_all split: option.splits)

lemma no_play_by_play_items:
  assumes "py_item pbp_data ''GC'' = Inr gc" and "py_item gc ''Pxpverbose'' = Inr events"
  shows "no_play_by_play pbp_data = Inr False"
proof -
  obtain d where d: "pbp_data = PDict d" "map_of d ''GC'' = Some gc"
    using py_item_dict[OF assms(1)] by blast
  obtain g where g: "gc = PDict g" "map_of g ''Pxpverbose'' = Some events"
    using py_item_dict[OF assms(2)] by blast
  have kd: "''GC'' \<in> fst ` set d" using d(2) by (metis domI dom_map_of_conv_image_fst)
  have kg: "''Pxpverbose'' \<in> fst ` set g" using g(2) by (metis domI dom_map_of_conv_image_fst)
  have "d \<noteq> []" using kd by auto
  then show ?thesis
    using d g kd kg by (simp add: no_play_by_play_def)
qed


section \<open>Properties of the player scraper\<close>

subsection \<open>The players table\<close>

lemma map_of_dict_set: "map_of (dict_set d k v) = (map_of d)(k \<mapsto> v)"
  by (induction d) (auto simp: fun_eq_iff)

lemma keys_dict_set: "fst ` set (dict_set d k v) = insert k (fst ` set d)"
  by (simp add: dom_map_of_conv_image_fst[symmetric] map_of_dict_set)

lemma row_value_dict_set:
  "row_value (dict_set r k v) k' = (if k' = k then v else row_value r k')"
  by (simp add: row_value_def map_of_dict_set)

lemma row_value_set_columns_other:
  "column \<notin> fst ` set assignments \<Longrightarrow>
     row_value (set_columns assignments row) column = row_value row column"
proof (induction assignments arbitrary: row)
  case Nil
  then show ?case by (simp add: set_columns_def)
next
  case (Cons a assignments)
  obtain k v where a: "a = (k, v)" by (cases a)
  have "row_value (set_columns assignments (dict_set row k v)) column
          = row_value (dict_set row k v) column"
    using Cons by simp
  then show ?case
    using Cons.prems a by (simp add: set_columns_def row_value_dict_set)
qed

lemma update_player_rows_other:
  "column \<notin> fst ` set assignments \<Longrightarrow>
     map (\<lambda>row. row_value row column) (players (update_player_rows d assignments i))
       = map (\<lambda>row. row_value row column) (players d)"
  by (simp add: update_player_rows_def row_value_set_columns_other)

lemma keys_zip_subset: "fst ` set (zip ks vs) \<subseteq> set ks"
  by (auto dest: set_zip_leftD)

lemma collect_changes_keeps_out:
  assumes "column \<in> set preserve_fields"
    and "\<not> py_truthy (dict_get player_fields column PNone)"
    and "column \<notin> fst ` set changes"
  shows "column \<notin> fst ` set (collect_changes player_fields existing_fields columns changes)"
  using assms(3)
proof (induction columns arbitrary: changes)
  case Nil
  then show ?case by simp
next
  case (Cons col columns)
  let ?next = "(case map_of player_fields col of
          None \<Rightarrow> changes
        | Some v \<Rightarrow>
            (let stored = (case existing_fields col of Some s \<Rightarrow> s | None \<Rightarrow> SNull) in
             if col \<in> set preserve_fields then
               (if py_truthy v \<and> \<not> py_eq_sql v stored then dict_set changes col v
                else changes)
             else if \<not> py_eq_sql v stored then dict_set changes col v
             else changes))"
  have "column \<notin> fst ` set ?next"
  proof (cases "col = column")
    case True
    then show ?thesis
      using assms(1,2) Cons.prems
      by (simp add: dict_get_def Let_def split: option.splits)
  next
    case False
    then show ?thesis
      using Cons.prems
      by (simp add: Let_def keys_dict_set split: option.splits)
  qed
  then have "column \<notin> fst ` set (collect_changes player_fields existing_fields columns ?next)"
    by (rule Cons.IH)
  then show ?case by simp
qed

lemma collect_changes_none:
  "(\<And>column. column \<in> set columns \<Longrightarrow> no_change player_fields existing_fields column) \<Longrightarrow>
     collect_changes player_fields existing_fields columns changes = changes"
proof (induction columns arbitrary: changes)
  case Nil
  then show ?case by simp
next
  case (Cons col columns)
  have "no_change player_fields existing_fields col" using Cons.prems by simp
  then have "(case map_of player_fields col of
          None \<Rightarrow> changes
        | Some v \<Rightarrow>
            (let stored = (case existing_fields col of Some s \<Rightarrow> s | None \<Rightarrow> SNull) in
             if col \<in> set preserve_fields then
               (if py_truthy v \<and> \<not> py_eq_sql v stored then dict_set changes col v
                else changes)
             else if \<not> py_eq_sql v stored then dict_set changes col v
             else changes)) = changes"
    by (auto simp: no_change_def Let_def split: option.splits)
  then show ?case using Cons by simp
qed

lemma ebind_yields:
  assumes "\<And>x. case f x of Inr (Some pf) \<Rightarrow> P pf | _ \<Rightarrow> True"
  shows "case ebind m f of Inr (Some pf) \<Rightarrow> P pf | _ \<Rightarrow> True"
  using assms by (cases m) (simp_all add: ebind_def)

lemma extract_player_fields_yields_id:
  "case extract_player_fields cv player_data of
     Inr (Some player_fields) \<Rightarrow> \<exists>player_id. map_of player_fields ''id'' = Some (PInt player_id)
   | _ \<Rightarrow> True"
proof (cases "py_truthy player_data")
  case False
  then show ?thesis by (simp add: extract_player_fields_def)
next
  case True
  show ?thesis
  proof (cases player_data)
    case payload: (PDict data)
    show ?thesis
    proof (cases "dict_get data ''info'' (PDict [])")
      case (PDict player_info)
      have "case (ebind (py_int (dict_get player_info ''playerId'' (PInt 0))) (\<lambda>player_id.
          ebind (py_str_strip (dict_get player_info ''firstName'' (PStr []))) (\<lambda>first_name.
          ebind (py_str_strip (dict_get player_info ''lastName'' (PStr []))) (\<lambda>last_name.
          ebind (jersey_number_of player_info) (\<lambda>jersey_number.
          ebind (extract_hometown_parts cv (dict_get player_info ''birthPlace'' (PStr [])))
            (\<lambda>(hometown, hometown_div).
          ebind (photo_url (case dict_get data ''media'' (PDict []) of
                              PDict d \<Rightarrow> dict_get d ''images'' (PList [])
                            | _ \<Rightarrow> PList []) 0) (\<lambda>photo_1_url.
          ebind (photo_url (case dict_get data ''media'' (PDict []) of
                              PDict d \<Rightarrow> dict_get d ''images'' (PList [])
                            | _ \<Rightarrow> PList []) 1) (\<lambda>photo_2_url.
          ebind (extract_team_id_from_url cv (dict_get player_info ''teamImage'' PNone))
            (\<lambda>team_id.
          ebind (extract_height_weight cv (dict_get player_info ''height'' PNone)
                   (dict_get player_info ''weight'' PNone)) (\<lambda>(height_cm, weight_kg).
          Inr (Some
            [(''id'', PInt player_id),
             (''team_id'', team_id),
             (''jersey_number'', jersey_number),
             (''first_name'', first_name),
             (''last_name'', last_name),
             (''birth_date'', dict_get player_info ''birthDate'' PNone),
             (''type'', dict_get player_info ''playerType'' PNone),
             (''position'', dict_get player_info ''position'' PNone),
             (''position_analysis'',
                position_analysis_of (dict_get player_info ''position'' PNone)),
             (''shoots'', dict_get player_info ''shoots'' PNone),
             (''catches'', dict_get player_info ''catches'' PNone),
             (''height_cm'', height_cm),
             (''weight_kg'', weight_kg),
             (''height'', dict_get player_info ''height'' PNone),
             (''weight'', dict_get player_info ''weight'' PNone),
             (''hometown'', hometown),
             (''hometown_div'', hometown_div),
             (''nationality'', case dict_get player_info ''nationality'' (PDict []) of
                                 PDict d \<Rightarrow> dict_get d ''name'' (PStr [])
                               | _ \<Rightarrow> PStr []),
             (''biography'', dict_get player_info ''bio'' PNone),
             (''image_url'', dict_get player_info ''profileImage'' PNone),
             (''photo_1_url'', photo_1_url),
             (''photo_2_url'', photo_2_url)]))))))))))) of
          Inr (Some player_fields) \<Rightarrow>
            \<exists>player_id. map_of player_fields ''id'' = Some (PInt player_id)
        | _ \<Rightarrow> True"
        apply (rule ebind_yields | split prod.split | intro allI impI)+
        apply simp
        done
      then show ?thesis
        using True by (simp add: extract_player_fields_def payload PDict Let_def)
    qed (simp_all add: extract_player_fields_def payload)
  qed (simp_all add: extract_player_fields_def)
qed

lemma extract_player_fields_id:
  "extract_player_fields cv player_data = Inr (Some player_fields) \<Longrightarrow>
     \<exists>player_id. map_of player_fields ''id'' = Some (PInt player_id)"
  using extract_player_fields_yields_id[of cv player_data] by simp

lemma player_outcome_nothing:
  assumes "res \<noteq> Inr True" and "\<forall>s \<in> set pre. \<not> is_insert s \<and> \<not> is_update s"
  shows "player_outcome c (res, c\<lparr>trace := trace c @ pre\<rparr>)"
  unfolding player_outcome_def prod.case
  by (rule disjI1) (intro conjI exI[of _ pre] refl assms)

lemma player_outcome_insert:
  assumes "length (players d) = Suc (length (players (working c)))"
  shows "player_outcome c (Inr True, c\<lparr>committed := d, working := d,
            trace := trace c @ [Select ''players'' i, Insert ''players'' i]\<rparr>)"
  unfolding player_outcome_def prod.case
  by (rule disjI2, rule disjI1) (intro conjI exI[of _ d] exI[of _ i] refl assms)

lemma player_outcome_update:
  assumes "cols \<noteq> []"
  shows "player_outcome c (Inr True, c\<lparr>committed := d, working := d,
            trace := trace c @ [Select ''players'' i, Pragma ''table_info(players)'',
                                Update ''players'' cols i]\<rparr>)"
  unfolding player_outcome_def prod.case
  by (rule disjI2, rule disjI2) (intro conjI exI[of _ d] exI[of _ i] exI[of _ cols] refl assms)

text \<open>\<open>update_player\<close> once the fields are extracted and the id is bound.\<close>

lemma update_player_fields:
  assumes "extract_player_fields cv player_data = Inr (Some player_fields)"
    and "map_of player_fields ''id'' = Some (PInt player_id)"
    and "bind_param (PInt player_id) = Inr i"
  shows "update_player cv c player_data =
     (case select_player (working c) i of
        Inl e \<Rightarrow> (Inl e, c)
      | Inr None \<Rightarrow>
          (case bind_params (map snd player_fields) of
             Inl e \<Rightarrow> (Inl e, c\<lparr>trace := trace c @ [Select ''players'' player_id]\<rparr>)
           | Inr vs \<Rightarrow>
               (case insert_player (working c) (map fst player_fields) vs of
                  Inl e \<Rightarrow> (Inl e, c\<lparr>trace := trace c @ [Select ''players'' player_id]\<rparr>)
                | Inr d \<Rightarrow>
                    (Inr True, c\<lparr>committed := d, working := d,
                       trace := trace c @ [Select ''players'' player_id,
                                           Insert ''players'' player_id]\<rparr>)))
      | Inr (Some existing_player) \<Rightarrow>
          (if collect_changes player_fields
                (dict_of_items (zip (players_columns (working c)) existing_player))
                (players_columns (working c)) [] \<noteq> []
           then
             (case bind_params
                     (map snd (collect_changes player_fields
                        (dict_of_items (zip (players_columns (working c)) existing_player))
                        (players_columns (working c)) []) @ [PInt player_id]) of
                Inl e \<Rightarrow> (Inl e, c\<lparr>trace := trace c @ [Select ''players'' player_id,
                                                            Pragma ''table_info(players)'']\<rparr>)
              | Inr params \<Rightarrow>
                  (Inr True,
                   c\<lparr>committed := update_player_rows (working c)
                        (zip (map fst (collect_changes player_fields
                           (dict_of_items (zip (players_columns (working c)) existing_player))
                           (players_columns (working c)) [])) params) (last params),
                     working := update_player_rows (working c)
                        (zip (map fst (collect_changes player_fields
                           (dict_of_items (zip (players_columns (working c)) existing_player))
                           (players_columns (working c)) [])) params) (last params),
                     trace := trace c @ [Select ''players'' player_id,
                                         Pragma ''table_info(players)'',
                                         Update ''players''
                                           (map fst (collect_changes player_fields
                                              (dict_of_items (zip (players_columns (working c))
                                                 existing_player))
                                              (players_columns (working c)) [])) player_id]\<rparr>))
           else (Inr False, c\<lparr>trace := trace c @ [Select ''players'' player_id,
                                                   Pragma ''table_info(players)'']\<rparr>)))"
  unfolding update_player_def assms sum.case option.case pyval.case Let_def
  by (simp add: executed_def commit_def del: bind_param.simps
        split: sum.splits option.splits)

lemma player_outcome_same: "res \<noteq> Inr True \<Longrightarrow> player_outcome c (res, c)"
  using player_outcome_nothing[of res "[]" c] by simp

lemma bind_param_int: "bind_param (PInt n) = Inr i \<Longrightarrow> i = SInt n"
  by (simp split: if_splits)

lemma issued_extended: "issued c (c\<lparr>committed := d, working := d', trace := trace c @ new\<rparr>) = new"
  "issued c (c\<lparr>trace := trace c @ new\<rparr>) = new" "issued c c = []"
  by (simp_all add: issued_def)

lemma update_player_outcome: "player_outcome c (update_player cv c player_data)"
proof (cases "extract_player_fields cv player_data")
  case (Inl e)
  then have eq: "update_player cv c player_data = (Inl e, c)"
    by (simp add: update_player_def)
  show ?thesis unfolding eq by (rule player_outcome_same) simp
next
  case (Inr res)
  show ?thesis
  proof (cases res)
    case None
    then have eq: "update_player cv c player_data = (Inr False, c)"
      using Inr by (simp add: update_player_def)
    show ?thesis unfolding eq by (rule player_outcome_same) simp
  next
    case (Some player_fields)
    then have ex: "extract_player_fields cv player_data = Inr (Some player_fields)"
      using Inr by simp
    then obtain player_id where pid: "map_of player_fields ''id'' = Some (PInt player_id)"
      using extract_player_fields_id by blast
    show ?thesis
    proof (cases "bind_param (PInt player_id)")
      case (Inl e)
      have eq: "update_player cv c player_data = (Inl e, c)"
        by (simp add: update_player_def ex pid Inl del: bind_param.simps)
      show ?thesis unfolding eq by (rule player_outcome_same) simp
    next
      case bound: (Inr i)
      note unfold = update_player_fields[OF ex pid bound, of c]
      show ?thesis
      proof (cases "select_player (working c) i")
        case (Inl e)
        have eq: "update_player cv c player_data = (Inl e, c)"
          by (simp add: unfold Inl)
        show ?thesis unfolding eq by (rule player_outcome_same) simp
      next
        case sel: (Inr existing)
        show ?thesis
        proof (cases existing)
          case None
          show ?thesis
          proof (cases "bind_params (map snd player_fields)")
            case (Inl e)
            have eq: "update_player cv c player_data
                = (Inl e, c\<lparr>trace := trace c @ [Select ''players'' player_id]\<rparr>)"
              by (simp add: unfold sel None Inl)
            show ?thesis unfolding eq by (rule player_outcome_nothing) simp_all
          next
            case vs: (Inr vs)
            show ?thesis
            proof (cases "insert_player (working c) (map fst player_fields) vs")
              case (Inl e)
              have eq: "update_player cv c player_data
                  = (Inl e, c\<lparr>trace := trace c @ [Select ''players'' player_id]\<rparr>)"
                by (simp add: unfold sel None vs Inl)
              show ?thesis unfolding eq by (rule player_outcome_nothing) simp_all
            next
              case (Inr d)
              have eq: "update_player cv c player_data
                  = (Inr True, c\<lparr>committed := d, working := d,
                          trace := trace c @ [Select ''players'' player_id,
                                              Insert ''players'' player_id]\<rparr>)"
                by (simp add: unfold sel None vs Inr)
              have len: "length (players d) = Suc (length (players (working c)))"
                using Inr by (auto simp: insert_player_def split: if_splits)
              show ?thesis unfolding eq using len by (rule player_outcome_insert)
            qed
          qed
        next
          case (Some existing_player)
          let ?changes = "collect_changes player_fields
              (dict_of_items (zip (players_columns (working c)) existing_player))
              (players_columns (working c)) []"
          show ?thesis
          proof (cases "?changes = []")
            case True
            have eq: "update_player cv c player_data
                = (Inr False, c\<lparr>trace := trace c @ [Select ''players'' player_id,
                                                     Pragma ''table_info(players)'']\<rparr>)"
              using True by (simp add: unfold sel Some)
            show ?thesis unfolding eq by (rule player_outcome_nothing) simp_all
          next
            case False
            show ?thesis
            proof (cases "bind_params (map snd ?changes @ [PInt player_id])")
              case (Inl e)
              have eq: "update_player cv c player_data
                  = (Inl e, c\<lparr>trace := trace c @ [Select ''players'' player_id,
                                                   Pragma ''table_info(players)'']\<rparr>)"
                using False Inl by (simp add: unfold sel Some)
              show ?thesis unfolding eq by (rule player_outcome_nothing) simp_all
            next
              case (Inr params)
              have eq: "update_player cv c player_data
                  = (Inr True,
                     c\<lparr>committed := update_player_rows (working c)
                                       (zip (map fst ?changes) params) (last params),
                       working := update_player_rows (working c)
                                       (zip (map fst ?changes) params) (last params),
                       trace := trace c @ [Select ''players'' player_id,
                                           Pragma ''table_info(players)'',
                                           Update ''players'' (map fst ?changes) player_id]\<rparr>)"
                using False Inr by (simp add: unfold sel Some)
              have ne: "map fst ?changes \<noteq> []" using False by simp
              show ?thesis unfolding eq using ne by (rule player_outcome_update)
            qed
          qed
        qed
      qed
    qed
  qed
qed

text \<open>What an outcome says about the result, the statements and the database.\<close>

lemma player_outcome_true:
  assumes "player_outcome c r"
  shows "fst r = Inr True \<longleftrightarrow> (\<exists>s \<in> set (issued c (snd r)). is_insert s \<or> is_update s)"
proof -
  obtain res c' where r: "r = (res, c')" by (cases r)
  consider
      (nothing) pre where "res \<noteq> Inr True" "c' = c\<lparr>trace := trace c @ pre\<rparr>"
        "\<forall>s \<in> set pre. \<not> is_insert s \<and> \<not> is_update s"
    | (inserted) d i where "res = Inr True"
        "c' = c\<lparr>committed := d, working := d,
                trace := trace c @ [Select ''players'' i, Insert ''players'' i]\<rparr>"
    | (updated) d i cols where "res = Inr True"
        "c' = c\<lparr>committed := d, working := d,
                trace := trace c @ [Select ''players'' i, Pragma ''table_info(players)'',
                                    Update ''players'' cols i]\<rparr>"
    using assms unfolding player_outcome_def r prod.case by blast
  then show ?thesis
  proof cases
    case nothing
    then show ?thesis unfolding r by (simp add: issued_extended)
  next
    case inserted
    then show ?thesis unfolding r by (simp add: issued_extended)
  next
    case updated
    then show ?thesis unfolding r by (simp add: issued_extended)
  qed
qed

lemma player_outcome_untouched:
  assumes "player_outcome c r" and "fst r \<noteq> Inr True"
  shows "working (snd r) = working c \<and> committed (snd r) = committed c"
proof -
  obtain res c' where r: "r = (res, c')" by (cases r)
  have "\<exists>pre. c' = c\<lparr>trace := trace c @ pre\<rparr>"
    using assms unfolding player_outcome_def r prod.case by auto
  then show ?thesis unfolding r by auto
qed

lemma player_outcome_columns:
  assumes "player_outcome c r" and "Update t cols i \<in> set (issued c (snd r))"
  shows "cols \<noteq> []"
proof -
  obtain res c' where r: "r = (res, c')" by (cases r)
  consider
      (nothing) pre where "c' = c\<lparr>trace := trace c @ pre\<rparr>"
        "\<forall>s \<in> set pre. \<not> is_insert s \<and> \<not> is_update s"
    | (inserted) d j where
        "c' = c\<lparr>committed := d, working := d,
                trace := trace c @ [Select ''players'' j, Insert ''players'' j]\<rparr>"
    | (updated) d j cs where "cs \<noteq> []"
        "c' = c\<lparr>committed := d, working := d,
                trace := trace c @ [Select ''players'' j, Pragma ''table_info(players)'',
                                    Update ''players'' cs j]\<rparr>"
    using assms(1) unfolding player_outcome_def r prod.case by blast
  then show ?thesis
  proof cases
    case (nothing pre)
    then have "Update t cols i \<in> set pre" and "\<forall>s \<in> set pre. \<not> is_insert s \<and> \<not> is_update s"
      using assms(2) unfolding r by (simp_all add: issued_extended)
    then have "\<not> is_update (Update t cols i)" by blast
    then show ?thesis by simp
  next
    case inserted
    then show ?thesis using assms(2) unfolding r by (simp add: issued_extended)
  next
    case updated
    then show ?thesis using assms(2) unfolding r by (auto simp: issued_extended)
  qed
qed

lemma player_outcome_committed:
  assumes "player_outcome c r" and "fst r = Inr True"
  shows "committed (snd r) = working (snd r)"
proof -
  obtain res c' where r: "r = (res, c')" by (cases r)
  have "\<exists>d new. c' = c\<lparr>committed := d, working := d, trace := trace c @ new\<rparr>"
    using assms unfolding player_outcome_def r prod.case by auto
  then show ?thesis unfolding r by auto
qed

section \<open>The claims\<close>

subsection \<open>Claim C1\<close>

text \<open>
  C1. For every league record whose id already exists in the leagues table,
  \<open>update_leagues\<close> issues an UPDATE on that primary key rather than an INSERT: when the
  call returns, the statements it executed contain the UPDATE of that id and no INSERT
  of it, the number of rows with that id is what it was, and the change is committed.
  (Records whose id is zero are skipped before any statement, see C9.) In particular,
  inserting the league \<open>{id: 1, name: "PWHL", code: "pwhl"}\<close> into an empty database and
  then feeding \<open>{id: 1, name: "PWHL Updated", code: "pwhl-new"}\<close> leaves exactly one row,
  holding \<open>(1, "PWHL Updated", "pwhl-new")\<close>.
\<close>

theorem update_leagues_existing_id:
  "(update_leagues c leagues_data = (Inr n, c') \<and> league \<in> set leagues_data \<and>
      py_int (dict_get league ''id'' (PInt 0)) = Inr i \<and> i \<noteq> 0 \<and>
      i \<in> set (map l_id (leagues (working c)))
    \<longrightarrow> Update ''leagues'' [''name'', ''short_name'', ''code'', ''logo''] i \<in> set (issued c c')
        \<and> Insert ''leagues'' i \<notin> set (issued c c')
        \<and> length (filter (\<lambda>r. l_id r = i) (leagues (working c')))
            = length (filter (\<lambda>r. l_id r = i) (leagues (working c)))
        \<and> committed c' = working c')
   \<and> fst (update_leagues (snd (update_leagues (connect empty_db) [pwhl])) [pwhl_updated]) = Inr 1
   \<and> leagues (committed (snd (update_leagues (snd (update_leagues (connect empty_db) [pwhl]))
                                  [pwhl_updated])))
       = [\<lparr>l_id = 1, l_name = SText ''PWHL Updated'', l_short_name = SText '''',
           l_code = SText ''pwhl-new'', l_logo = SText ''''\<rparr>]"
proof (intro conjI impI)
  assume a: "update_leagues c leagues_data = (Inr n, c') \<and> league \<in> set leagues_data \<and>
      py_int (dict_get league ''id'' (PInt 0)) = Inr i \<and> i \<noteq> 0 \<and>
      i \<in> set (map l_id (leagues (working c)))"
  let ?ids = "\<lambda>c. map l_id (leagues (working c))"
  let ?cols = "[''name'', ''short_name'', ''code'', ''logo'']"
  from a obtain c1 where run: "upsert_loop ''id'' upsert_league leagues_data 0 c = (Inr n, c1)"
      and c': "c' = commit c1"
    unfolding update_leagues_def using commit_count_Inr by blast
  have ext: "extends ''leagues'' ?cols ?ids c c1"
    using upsert_loop_extends[OF upsert_league_shape run] .
  have present: "i \<in> set (?ids c)" using a by simp
  have "Insert ''leagues'' i \<in> set (issued c c1) \<or> Update ''leagues'' ?cols i \<in> set (issued c c1)"
    using upsert_loop_stored[where ids = ?ids, OF upsert_league_shape run] a by blast
  moreover have no_ins: "Insert ''leagues'' i \<notin> set (issued c c1)"
    using extends_no_insert_of_present[OF ext present] .
  ultimately show "Update ''leagues'' ?cols i \<in> set (issued c c')" using c' by simp
  show "Insert ''leagues'' i \<notin> set (issued c c')" using no_ins c' by simp
  show "length (filter (\<lambda>r. l_id r = i) (leagues (working c')))
            = length (filter (\<lambda>r. l_id r = i) (leagues (working c)))"
    using extends_count_present[OF ext present] c'
      length_filter_key[of l_id i "leagues (working c1)"]
      length_filter_key[of l_id i "leagues (working c)"]
    by simp
  show "committed c' = working c'" using c' by simp
next
  show "fst (update_leagues (snd (update_leagues (connect empty_db) [pwhl])) [pwhl_updated]) = Inr 1"
    by code_simp
  show "leagues (committed (snd (update_leagues (snd (update_leagues (connect empty_db) [pwhl]))
                                  [pwhl_updated])))
       = [\<lparr>l_id = 1, l_name = SText ''PWHL Updated'', l_short_name = SText '''',
           l_code = SText ''pwhl-new'', l_logo = SText ''''\<rparr>]"
    by code_simp
qed

theorem update_leagues_existing_id_witness:
  "Update ''leagues'' [''name'', ''short_name'', ''code'', ''logo''] 1
     \<in> set (issued (snd (update_leagues (connect empty_db) [pwhl]))
                    (snd (update_leagues (snd (update_leagues (connect empty_db) [pwhl])) [pwhl_updated])))
   \<and> Insert ''leagues'' 1
     \<notin> set (issued (snd (update_leagues (connect empty_db) [pwhl]))
                    (snd (update_leagues (snd (update_leagues (connect empty_db) [pwhl])) [pwhl_updated])))
   \<and> length (filter (\<lambda>r. l_id r = 1)
        (leagues (working (snd (update_leagues (snd (update_leagues (connect empty_db) [pwhl]))
                                  [pwhl_updated]))))) = 1"
proof -
  let ?c = "snd (update_leagues (connect empty_db) [pwhl])"
  let ?c' = "snd (update_leagues ?c [pwhl_updated])"
  have run: "update_leagues ?c [pwhl_updated] = (Inr 1, ?c')" by code_simp
  have mem: "pwhl_updated \<in> set [pwhl_updated]" by simp
  have rid: "py_int (dict_get pwhl_updated ''id'' (PInt 0)) = Inr 1" by code_simp
  have present: "(1::int) \<in> set (map l_id (leagues (working ?c)))" by code_simp
  have before: "length (filter (\<lambda>r. l_id r = 1) (leagues (working ?c))) = 1" by code_simp
  have nz: "(1::int) \<noteq> 0" by simp
  have prem: "update_leagues ?c [pwhl_updated] = (Inr 1, ?c') \<and> pwhl_updated \<in> set [pwhl_updated] \<and>
      py_int (dict_get pwhl_updated ''id'' (PInt 0)) = Inr 1 \<and> (1::int) \<noteq> 0 \<and>
      1 \<in> set (map l_id (leagues (working ?c)))"
    using run mem rid nz present by - (rule conjI | assumption)+
  have concl: "Update ''leagues'' [''name'', ''short_name'', ''code'', ''logo''] 1 \<in> set (issued ?c ?c')
        \<and> Insert ''leagues'' 1 \<notin> set (issued ?c ?c')
        \<and> length (filter (\<lambda>r. l_id r = 1) (leagues (working ?c')))
            = length (filter (\<lambda>r. l_id r = 1) (leagues (working ?c)))
        \<and> committed ?c' = working ?c'"
    by (rule mp[OF conjunct1[OF update_leagues_existing_id[of ?c "[pwhl_updated]" 1 ?c' pwhl_updated 1]] prem])
  from concl before show ?thesis by simp
qed

subsection \<open>Claim C9\<close>



subsection \<open>Claim C6\<close>

text \<open>
  C6. Running \<open>update_leagues\<close> (likewise \<open>update_conferences\<close>, \<open>update_divisions\<close>,
  \<open>update_seasons\<close>) a second time with the same input list leaves the table's row count
  unchanged: the second run ends as the first did (the same count, or the same
  exception), the table has the same ids in the same order, no INSERT is executed, and
  when the run returns, every record with a nonzero id went through the UPDATE branch.
\<close>

theorem update_twice_same_rows:
  "(update_leagues c leagues_data = (r, c1) \<longrightarrow>
      (\<exists>c2. update_leagues c1 leagues_data = (r, c2)
         \<and> length (leagues (working c2)) = length (leagues (working c1))
         \<and> map l_id (leagues (working c2)) = map l_id (leagues (working c1))
         \<and> (\<forall>s \<in> set (issued c1 c2). \<not> is_insert s)
         \<and> (\<forall>n. r = Inr n \<longrightarrow>
               (\<forall>x \<in> set leagues_data. \<forall>i. py_int (dict_get x ''id'' (PInt 0)) = Inr i \<and> i \<noteq> 0
                  \<longrightarrow> Update ''leagues'' [''name'', ''short_name'', ''code'', ''logo''] i
                        \<in> set (issued c1 c2)))))
   \<and> (update_conferences c conferences_data = (r, c1) \<longrightarrow>
      (\<exists>c2. update_conferences c1 conferences_data = (r, c2)
         \<and> length (conferences (working c2)) = length (conferences (working c1))
         \<and> map cf_id (conferences (working c2)) = map cf_id (conferences (working c1))
         \<and> (\<forall>s \<in> set (issued c1 c2). \<not> is_insert s)
         \<and> (\<forall>n. r = Inr n \<longrightarrow>
               (\<forall>x \<in> set conferences_data.
                  \<forall>i. py_int (dict_get x ''conference_id'' (PInt 0)) = Inr i \<and> i \<noteq> 0
                  \<longrightarrow> Update ''conferences'' [''name''] i \<in> set (issued c1 c2)))))
   \<and> (update_divisions c divisions_data = (r, c1) \<longrightarrow>
      (\<exists>c2. update_divisions c1 divisions_data = (r, c2)
         \<and> length (divisions (working c2)) = length (divisions (working c1))
         \<and> map dv_id (divisions (working c2)) = map dv_id (divisions (working c1))
         \<and> (\<forall>s \<in> set (issued c1 c2). \<not> is_insert s)
         \<and> (\<forall>n. r = Inr n \<longrightarrow>
               (\<forall>x \<in> set divisions_data. \<forall>i. py_int (dict_get x ''id'' (PInt 0)) = Inr i \<and> i \<noteq> 0
                  \<longrightarrow> Update ''divisions'' [''name''] i \<in> set (issued c1 c2)))))
   \<and> (update_seasons c seasons_data = (r, c1) \<longrightarrow>
      (\<exists>c2. update_seasons c1 seasons_data = (r, c2)
         \<and> length (seasons (working c2)) = length (seasons (working c1))
         \<and> map s_id (seasons (working c2)) = map s_id (seasons (working c1))
         \<and> (\<forall>s \<in> set (issued c1 c2). \<not> is_insert s)
         \<and> (\<forall>n. r = Inr n \<longrightarrow>
               (\<forall>x \<in> set seasons_data. \<forall>i. py_int (dict_get x ''id'' (PInt 0)) = Inr i \<and> i \<noteq> 0
                  \<longrightarrow> Update ''seasons''
                        [''sort'', ''name'', ''type'', ''current'', ''hide_in_standings''] i
                        \<in> set (issued c1 c2)))))"
proof (intro conjI impI)
  assume "update_leagues c leagues_data = (r, c1)"
  then have "commit_count (upsert_loop ''id'' upsert_league leagues_data 0 c) = (r, c1)"
    by (simp add: update_leagues_def)
  from upsert_twice[where key = l_id and get = leagues, OF upsert_league_shape upsert_league_indep this]
  obtain c2 where c2: "commit_count (upsert_loop ''id'' upsert_league leagues_data 0 c1) = (r, c2)"
      "map l_id (leagues (working c2)) = map l_id (leagues (working c1))"
      "\<forall>s \<in> set (issued c1 c2). \<not> is_insert s"
      "\<forall>n. r = Inr n \<longrightarrow>
         (\<forall>x \<in> set leagues_data. \<forall>i. py_int (dict_get x ''id'' (PInt 0)) = Inr i \<and> i \<noteq> 0 \<longrightarrow>
            Update ''leagues'' [''name'', ''short_name'', ''code'', ''logo''] i \<in> set (issued c1 c2))"
    by blast
  have "length (leagues (working c2)) = length (leagues (working c1))"
    using c2(2) map_eq_imp_length_eq by blast
  with c2 show "\<exists>c2. update_leagues c1 leagues_data = (r, c2)
         \<and> length (leagues (working c2)) = length (leagues (working c1))
         \<and> map l_id (leagues (working c2)) = map l_id (leagues (working c1))
         \<and> (\<forall>s \<in> set (issued c1 c2). \<not> is_insert s)
         \<and> (\<forall>n. r = Inr n \<longrightarrow>
               (\<forall>x \<in> set leagues_data. \<forall>i. py_int (dict_get x ''id'' (PInt 0)) = Inr i \<and> i \<noteq> 0
                  \<longrightarrow> Update ''leagues'' [''name'', ''short_name'', ''code'', ''logo''] i
                        \<in> set (issued c1 c2)))"
    unfolding update_leagues_def by blast
next
  assume "update_conferences c conferences_data = (r, c1)"
  then have "commit_count (upsert_loop ''conference_id'' upsert_conference conferences_data 0 c) = (r, c1)"
    by (simp add: update_conferences_def)
  from upsert_twice[where key = cf_id and get = conferences,
      OF upsert_conference_shape upsert_conference_indep this]
  obtain c2 where c2:
      "commit_count (upsert_loop ''conference_id'' upsert_conference conferences_data 0 c1) = (r, c2)"
      "map cf_id (conferences (working c2)) = map cf_id (conferences (working c1))"
      "\<forall>s \<in> set (issued c1 c2). \<not> is_insert s"
      "\<forall>n. r = Inr n \<longrightarrow>
         (\<forall>x \<in> set conferences_data.
            \<forall>i. py_int (dict_get x ''conference_id'' (PInt 0)) = Inr i \<and> i \<noteq> 0 \<longrightarrow>
            Update ''conferences'' [''name''] i \<in> set (issued c1 c2))"
    by blast
  have "length (conferences (working c2)) = length (conferences (working c1))"
    using c2(2) map_eq_imp_length_eq by blast
  with c2 show "\<exists>c2. update_conferences c1 conferences_data = (r, c2)
         \<and> length (conferences (working c2)) = length (conferences (working c1))
         \<and> map cf_id (conferences (working c2)) = map cf_id (conferences (working c1))
         \<and> (\<forall>s \<in> set (issued c1 c2). \<not> is_insert s)
         \<and> (\<forall>n. r = Inr n \<longrightarrow>
               (\<forall>x \<in> set conferences_data.
                  \<forall>i. py_int (dict_get x ''conference_id'' (PInt 0)) = Inr i \<and> i \<noteq> 0
                  \<longrightarrow> Update ''conferences'' [''name''] i \<in> set (issued c1 c2)))"
    unfolding update_conferences_def by blast
next
  assume "update_divisions c divisions_data = (r, c1)"
  then have "commit_count (upsert_loop ''id'' upsert_division divisions_data 0 c) = (r, c1)"
    by (simp add: update_divisions_def)
  from upsert_twice[where key = dv_id and get = divisions,
      OF upsert_division_shape upsert_division_indep this]
  obtain c2 where c2:
      "commit_count (upsert_loop ''id'' upsert_division divisions_data 0 c1) = (r, c2)"
      "map dv_id (divisions (working c2)) = map dv_id (divisions (working c1))"
      "\<forall>s \<in> set (issued c1 c2). \<not> is_insert s"
      "\<forall>n. r = Inr n \<longrightarrow>
         (\<forall>x \<in> set divisions_data. \<forall>i. py_int (dict_get x ''id'' (PInt 0)) = Inr i \<and> i \<noteq> 0 \<longrightarrow>
            Update ''divisions'' [''name''] i \<in> set (issued c1 c2))"
    by blast
  have "length (divisions (working c2)) = length (divisions (working c1))"
    using c2(2) map_eq_imp_length_eq by blast
  with c2 show "\<exists>c2. update_divisions c1 divisions_data = (r, c2)
         \<and> length (divisions (working c2)) = length (divisions (working c1))
         \<and> map dv_id (divisions (working c2)) = map dv_id (divisions (working c1))
         \<and> (\<forall>s \<in> set (issued c1 c2). \<not> is_insert s)
         \<and> (\<forall>n. r = Inr n \<longrightarrow>
               (\<forall>x \<in> set divisions_data. \<forall>i. py_int (dict_get x ''id'' (PInt 0)) = Inr i \<and> i \<noteq> 0
                  \<longrightarrow> Update ''divisions'' [''name''] i \<in> set (issued c1 c2)))"
    unfolding update_divisions_def by blast
next
  assume run: "update_seasons c seasons_data = (r, c1)"
  let ?goal = "\<exists>c2. update_seasons c1 seasons_data = (r, c2)
         \<and> length (seasons (working c2)) = length (seasons (working c1))
         \<and> map s_id (seasons (working c2)) = map s_id (seasons (working c1))
         \<and> (\<forall>s \<in> set (issued c1 c2). \<not> is_insert s)
         \<and> (\<forall>n. r = Inr n \<longrightarrow>
               (\<forall>x \<in> set seasons_data. \<forall>i. py_int (dict_get x ''id'' (PInt 0)) = Inr i \<and> i \<noteq> 0
                  \<longrightarrow> Update ''seasons''
                        [''sort'', ''name'', ''type'', ''current'', ''hide_in_standings''] i
                        \<in> set (issued c1 c2)))"
  show ?goal
  proof (cases "choose_current_season seasons_data")
    case (Inl e)
    with run have "r = Inl e" "c1 = c" by (simp_all add: update_seasons_def)
    with Inl show ?thesis by (simp add: update_seasons_def issued_def)
  next
    case (Inr cur)
    with run have
      "commit_count (upsert_loop ''id'' (upsert_season cur) seasons_data 0 c) = (r, c1)"
      by (simp add: update_seasons_def)
    from upsert_twice[where key = s_id and get = seasons,
        OF upsert_season_shape upsert_season_indep this]
    obtain c2 where c2:
      "commit_count (upsert_loop ''id'' (upsert_season cur) seasons_data 0 c1) = (r, c2)"
      "map s_id (seasons (working c2)) = map s_id (seasons (working c1))"
      "\<forall>s \<in> set (issued c1 c2). \<not> is_insert s"
      "\<forall>n. r = Inr n \<longrightarrow>
         (\<forall>x \<in> set seasons_data. \<forall>i. py_int (dict_get x ''id'' (PInt 0)) = Inr i \<and> i \<noteq> 0 \<longrightarrow>
            Update ''seasons'' [''sort'', ''name'', ''type'', ''current'', ''hide_in_standings''] i
              \<in> set (issued c1 c2))"
      by blast
    have len: "length (seasons (working c2)) = length (seasons (working c1))"
      using c2(2) map_eq_imp_length_eq by blast
    have "update_seasons c1 seasons_data = (r, c2)"
      using Inr c2(1) by (simp add: update_seasons_def)
    with c2 len show ?thesis by blast
  qed
qed

theorem update_twice_same_rows_witness:
  "length (leagues (working (snd (update_leagues (snd (update_leagues (connect empty_db) [pwhl])) [pwhl])))) = 1
   \<and> length (conferences (working (snd (update_conferences
        (snd (update_conferences (connect empty_db) [eastern_conference])) [eastern_conference])))) = 1
   \<and> length (divisions (working (snd (update_divisions
        (snd (update_divisions (connect empty_db) [north_division])) [north_division])))) = 1
   \<and> length (seasons (working (snd (update_seasons
        (snd (update_seasons (connect empty_db) [season_2024])) [season_2024])))) = 1"
proof -
  let ?c = "connect empty_db"
  note c6 = update_twice_same_rows
  have l1: "update_leagues ?c [pwhl] = (Inr 1, snd (update_leagues ?c [pwhl]))" by code_simp
  have l2: "length (leagues (working (snd (update_leagues ?c [pwhl])))) = 1" by code_simp
  from mp[OF conjunct1[OF c6] l1] obtain c2 where
    "update_leagues (snd (update_leagues ?c [pwhl])) [pwhl] = (Inr 1, c2)"
    "length (leagues (working c2)) = length (leagues (working (snd (update_leagues ?c [pwhl]))))"
    by blast
  then have a: "length (leagues (working (snd (update_leagues (snd (update_leagues ?c [pwhl])) [pwhl])))) = 1"
    using l2 by simp
  have f1: "update_conferences ?c [eastern_conference]
              = (Inr 1, snd (update_conferences ?c [eastern_conference]))" by code_simp
  have f2: "length (conferences (working (snd (update_conferences ?c [eastern_conference])))) = 1"
    by code_simp
  from mp[OF conjunct1[OF conjunct2[OF c6]] f1] obtain c3 where
    "update_conferences (snd (update_conferences ?c [eastern_conference])) [eastern_conference] = (Inr 1, c3)"
    "length (conferences (working c3))
       = length (conferences (working (snd (update_conferences ?c [eastern_conference]))))"
    by blast
  then have b: "length (conferences (working (snd (update_conferences
        (snd (update_conferences ?c [eastern_conference])) [eastern_conference])))) = 1"
    using f2 by simp
  have d1: "update_divisions ?c [north_division]
              = (Inr 1, snd (update_divisions ?c [north_division]))" by code_simp
  have d2: "length (divisions (working (snd (update_divisions ?c [north_division])))) = 1"
    by code_simp
  from mp[OF conjunct1[OF conjunct2[OF conjunct2[OF c6]]] d1] obtain c4 where
    "update_divisions (snd (update_divisions ?c [north_division])) [north_division] = (Inr 1, c4)"
    "length (divisions (working c4))
       = length (divisions (working (snd (update_divisions ?c [north_division]))))"
    by blast
  then have d: "length (divisions (working (snd (update_divisions
        (snd (update_divisions ?c [north_division])) [north_division])))) = 1"
    using d2 by simp
  have s1: "update_seasons ?c [season_2024]
              = (Inr 1, snd (update_seasons ?c [season_2024]))" by code_simp
  have s2: "length (seasons (working (snd (update_seasons ?c [season_2024])))) = 1"
    by code_simp
  from mp[OF conjunct2[OF conjunct2[OF conjunct2[OF c6]]] s1] obtain c5 where
    "update_seasons (snd (update_seasons ?c [season_2024])) [season_2024] = (Inr 1, c5)"
    "length (seasons (working c5))
       = length (seasons (working (snd (update_seasons ?c [season_2024]))))"
    by blast
  then have e: "length (seasons (working (snd (update_seasons
        (snd (update_seasons ?c [season_2024])) [season_2024])))) = 1"
    using s2 by simp
  from a b d e show ?thesis by (intro conjI)
qed

subsection \<open>Claim C8\<close>

text \<open>
  C8 as stated fails: \<open>update_seasons\<close> writes the \<open>current\<close> flag only of the rows whose id
  is in the payload, and never clears the flag of another row. Storing season 5 from a
  payload of its own makes it current; a later payload that holds season 6 alone flags
  season 6 and leaves season 5 flagged, so two rows have \<open>current = 1\<close>.
\<close>

theorem update_seasons_two_current_rows:
  "fst (update_seasons (snd (update_seasons (connect empty_db) [season_2024])) [season_2025]) = Inr 1
   \<and> map (\<lambda>r. (s_id r, s_current r))
        (seasons (working (snd (update_seasons (snd (update_seasons (connect empty_db) [season_2024]))
                                  [season_2025]))))
       = [(5, SInt 1), (6, SInt 1)]
   \<and> length (filter (\<lambda>r. s_current r = SInt 1)
        (seasons (working (snd (update_seasons (snd (update_seasons (connect empty_db) [season_2024]))
                                  [season_2025]))))) = 2"
  by code_simp

text \<open>
  C8, amended. When \<open>update_seasons\<close> returns on a payload whose chosen current season
  (the id of the first entry flagged current, else the highest id) is not zero, exactly
  one row of the seasons table has \<open>current = 1\<close>, the row of the chosen id, and it is
  committed, provided that before the call the ids of the table were unique and every
  row flagged current had a nonzero id that occurs in the payload. A row whose id is not
  in the payload is a row of before, left as it was, its flag included.
\<close>

theorem update_seasons_one_current_row:
  "(update_seasons c seasons_data = (Inr n, c') \<and>
    choose_current_season seasons_data = Inr (Some cid) \<and> cid \<noteq> 0 \<and>
    distinct (map s_id (seasons (working c))) \<and>
    (\<forall>r \<in> set (seasons (working c)). s_current r = SInt 1 \<longrightarrow>
       s_id r \<noteq> 0 \<and> (\<exists>x \<in> set seasons_data. py_int (dict_get x ''id'' (PInt 0)) = Inr (s_id r)))
    \<longrightarrow> (\<exists>r. filter (\<lambda>r. s_current r = SInt 1) (seasons (working c')) = [r] \<and> s_id r = cid)
        \<and> committed c' = working c')
   \<and> (update_seasons c seasons_data = (Inr n, c') \<longrightarrow>
        (\<forall>r \<in> set (seasons (working c')).
           (\<forall>x \<in> set seasons_data. py_int (dict_get x ''id'' (PInt 0)) \<noteq> Inr (s_id r))
           \<longrightarrow> r \<in> set (seasons (working c))))"
proof (intro conjI impI)
  assume a: "update_seasons c seasons_data = (Inr n, c') \<and>
    choose_current_season seasons_data = Inr (Some cid) \<and> cid \<noteq> 0 \<and>
    distinct (map s_id (seasons (working c))) \<and>
    (\<forall>r \<in> set (seasons (working c)). s_current r = SInt 1 \<longrightarrow>
       s_id r \<noteq> 0 \<and> (\<exists>x \<in> set seasons_data. py_int (dict_get x ''id'' (PInt 0)) = Inr (s_id r)))"
  then have run: "update_seasons c seasons_data = (Inr n, c')"
    and chosen: "choose_current_season seasons_data = Inr (Some cid)"
    and nz: "cid \<noteq> 0"
    and uniq: "distinct (map s_id (seasons (working c)))"
    and stale: "\<forall>r \<in> set (seasons (working c)). s_current r = SInt 1 \<longrightarrow>
       s_id r \<noteq> 0 \<and> (\<exists>x \<in> set seasons_data. py_int (dict_get x ''id'' (PInt 0)) = Inr (s_id r))"
    by blast+
  let ?ids = "\<lambda>c. map s_id (seasons (working c))"
  let ?up = "upsert_season (Some cid)"
  from run chosen obtain c1 where loop: "upsert_loop ''id'' ?up seasons_data 0 c = (Inr n, c1)"
      and c': "c' = commit c1"
    unfolding update_seasons_def using commit_count_Inr by fastforce
  have ext: "extends ''seasons'' [''sort'', ''name'', ''type'', ''current'', ''hide_in_standings'']
               ?ids c c1"
    using upsert_loop_extends[OF upsert_season_shape loop] .
  have dist: "distinct (?ids c1)" using extends_distinct[OF ext uniq] .
  obtain x0 where x0: "x0 \<in> set seasons_data" "py_int (dict_get x0 ''id'' (PInt 0)) = Inr cid"
    using choose_current_season_in_payload[OF chosen] by blast
  have "cid \<in> set (?ids c1)"
    using upsert_loop_stored[where ids = ?ids, OF upsert_season_shape loop x0 nz] by blast
  then obtain r0 where r0: "r0 \<in> set (seasons (working c1))" "s_id r0 = cid" by auto
  note rows = upsert_loop_rows[where key = s_id and get = seasons
      and Q = "\<lambda>i x row. s_current row = SInt (if Some i = Some cid then 1 else 0)",
      OF upsert_season_rows loop]
  have iff: "\<forall>row \<in> set (seasons (working c1)). s_current row = SInt 1 \<longleftrightarrow> s_id row = s_id r0"
  proof
    fix row assume mem: "row \<in> set (seasons (working c1))"
    from rows mem consider
        (new) i where "i \<noteq> 0" "s_id row = i"
          "s_current row = SInt (if Some i = Some cid then 1 else 0)"
      | (old) "row \<in> set (seasons (working c))"
          "\<not> (\<exists>x \<in> set seasons_data. \<exists>i. py_int (dict_get x ''id'' (PInt 0)) = Inr i \<and> i \<noteq> 0
                 \<and> s_id row = i)"
      by blast
    then show "s_current row = SInt 1 \<longleftrightarrow> s_id row = s_id r0"
    proof cases
      case (new i)
      then show ?thesis using r0(2) by auto
    next
      case old
      have "s_current row \<noteq> SInt 1" using stale old by blast
      moreover have "s_id row \<noteq> cid" using old(2) x0 nz by blast
      ultimately show ?thesis using r0(2) by simp
    qed
  qed
  have "filter (\<lambda>r. s_current r = SInt 1) (seasons (working c1)) = [r0]"
    using filter_unique_key[OF dist r0(1) iff] .
  then show "\<exists>r. filter (\<lambda>r. s_current r = SInt 1) (seasons (working c')) = [r] \<and> s_id r = cid"
    using r0(2) c' by simp
  show "committed c' = working c'" using c' by simp
next
  assume run: "update_seasons c seasons_data = (Inr n, c')"
  show "\<forall>r \<in> set (seasons (working c')).
           (\<forall>x \<in> set seasons_data. py_int (dict_get x ''id'' (PInt 0)) \<noteq> Inr (s_id r))
           \<longrightarrow> r \<in> set (seasons (working c))"
  proof (cases "choose_current_season seasons_data")
    case (Inl e)
    with run show ?thesis by (simp add: update_seasons_def)
  next
    case (Inr cur)
    with run obtain c1 where
      loop: "upsert_loop ''id'' (upsert_season cur) seasons_data 0 c = (Inr n, c1)"
      and c': "c' = commit c1"
      unfolding update_seasons_def using commit_count_Inr by fastforce
    note rows = upsert_loop_rows[where key = s_id and get = seasons
      and Q = "\<lambda>i x row. s_current row = SInt (if Some i = cur then 1 else 0)",
      OF upsert_season_rows loop]
    show ?thesis
    proof (intro ballI impI)
      fix r assume "r \<in> set (seasons (working c'))"
        and none: "\<forall>x \<in> set seasons_data. py_int (dict_get x ''id'' (PInt 0)) \<noteq> Inr (s_id r)"
      then have "r \<in> set (seasons (working c1))" using c' by simp
      with rows none show "r \<in> set (seasons (working c))" by blast
    qed
  qed
qed

theorem update_seasons_one_current_row_witness:
  "map s_id (filter (\<lambda>r. s_current r = SInt 1)
      (seasons (working (snd (update_seasons (snd (update_seasons (connect empty_db) [season_2024]))
                                [season_2024, season_2025]))))) = [6]"
proof -
  let ?c = "snd (update_seasons (connect empty_db) [season_2024])"
  let ?xs = "[season_2024, season_2025]"
  let ?c' = "snd (update_seasons ?c ?xs)"
  have run: "update_seasons ?c ?xs = (Inr 2, ?c')" by code_simp
  have chosen: "choose_current_season ?xs = Inr (Some 6)" by code_simp
  have nz: "(6::int) \<noteq> 0" by simp
  have uniq: "distinct (map s_id (seasons (working ?c)))" by code_simp
  have stale: "\<forall>r \<in> set (seasons (working ?c)). s_current r = SInt 1 \<longrightarrow>
       s_id r \<noteq> 0 \<and> (\<exists>x \<in> set ?xs. py_int (dict_get x ''id'' (PInt 0)) = Inr (s_id r))"
    by code_simp
  have prem: "update_seasons ?c ?xs = (Inr 2, ?c') \<and>
    choose_current_season ?xs = Inr (Some 6) \<and> (6::int) \<noteq> 0 \<and>
    distinct (map s_id (seasons (working ?c))) \<and>
    (\<forall>r \<in> set (seasons (working ?c)). s_current r = SInt 1 \<longrightarrow>
       s_id r \<noteq> 0 \<and> (\<exists>x \<in> set ?xs. py_int (dict_get x ''id'' (PInt 0)) = Inr (s_id r)))"
    using run chosen nz uniq stale by - (rule conjI | assumption)+
  from mp[OF conjunct1[OF update_seasons_one_current_row[of ?c ?xs 2 ?c' 6]] prem]
  obtain r where "filter (\<lambda>r. s_current r = SInt 1) (seasons (working ?c')) = [r]" "s_id r = 6"
    by blast
  then show ?thesis by simp
qed

subsection \<open>Claim C7\<close>

text \<open>
  C7. For every query and parameters, \<open>execute_query\<close> and \<open>execute_many\<close> either commit and
  return the affected row count, or, when the driver raises an \<open>sqlite3.Error\<close>, log the
  error, roll the transaction back and re-raise the same exception. Whatever the driver
  raises is what the helper raises: an error is never swallowed.
\<close>

theorem execute_helpers_commit_or_reraise:
  "(fst (cursor_execute drv query (if params_given params then params else None) (working c))
      = Inr rowcount \<longrightarrow>
      execute_query drv c query params
        = (Inr rowcount,
           c\<lparr>committed := snd (cursor_execute drv query
                                 (if params_given params then params else None) (working c)),
              working := snd (cursor_execute drv query
                                 (if params_given params then params else None) (working c)),
              trace := trace c @ [Sql query]\<rparr>))
   \<and> (fst (cursor_execute drv query (if params_given params then params else None) (working c))
        = Inl e \<and> is_sqlite_error e \<longrightarrow>
      execute_query drv c query params
        = (Inl e, c\<lparr>working := committed c,
                    error_log := error_log c @ [QueryExecutionError e]\<rparr>))
   \<and> (fst (cursor_execute drv query (if params_given params then params else None) (working c))
        = Inl e \<longrightarrow> fst (execute_query drv c query params) = Inl e)
   \<and> (fst (cursor_executemany drv query params_list (working c)) = Inr rowcount \<longrightarrow>
      execute_many drv c query params_list
        = (Inr rowcount,
           c\<lparr>committed := snd (cursor_executemany drv query params_list (working c)),
              working := snd (cursor_executemany drv query params_list (working c)),
              trace := trace c @ [Sql query]\<rparr>))
   \<and> (fst (cursor_executemany drv query params_list (working c)) = Inl e \<and> is_sqlite_error e
        \<longrightarrow>
      execute_many drv c query params_list
        = (Inl e, c\<lparr>working := committed c,
                    error_log := error_log c @ [ExecutemanyError e]\<rparr>))
   \<and> (fst (cursor_executemany drv query params_list (working c)) = Inl e \<longrightarrow>
        fst (execute_many drv c query params_list) = Inl e)"
proof -
  let ?run = "cursor_execute drv query (if params_given params then params else None) (working c)"
  let ?many = "cursor_executemany drv query params_list (working c)"
  have q: "execute_query drv c query params =
      (case ?run of
         (Inr rowcount, d) \<Rightarrow> (Inr rowcount, commit (executed (Sql query) (c\<lparr>working := d\<rparr>)))
       | (Inl e, d) \<Rightarrow> on_sqlite_error QueryExecutionError e (c\<lparr>working := d\<rparr>))"
    by (simp add: execute_query_def)
  have m: "execute_many drv c query params_list =
      (case ?many of
         (Inr rowcount, d) \<Rightarrow> (Inr rowcount, commit (executed (Sql query) (c\<lparr>working := d\<rparr>)))
       | (Inl e, d) \<Rightarrow> on_sqlite_error ExecutemanyError e (c\<lparr>working := d\<rparr>))"
    by (simp add: execute_many_def)
  show ?thesis
    unfolding q m
    by (cases ?run; cases ?many)
       (auto simp: on_sqlite_error_def commit_def executed_def rollback_def)
qed

theorem execute_helpers_commit_or_reraise_witness:
  "execute_query sample_driver uncommitted_league ''DELETE FROM leagues'' None
     = (Inr 1, uncommitted_league\<lparr>committed := empty_db, working := empty_db,
                                   trace := trace uncommitted_league @ [Sql ''DELETE FROM leagues'']\<rparr>)
   \<and> execute_query sample_driver uncommitted_league ''DELETE leagues'' (Some [PInt 1])
     = (Inl OperationalError,
        uncommitted_league\<lparr>working := empty_db,
                            error_log := [QueryExecutionError OperationalError]\<rparr>)
   \<and> execute_many sample_driver uncommitted_league ''DELETE FROM leagues WHERE id = ?'' [[PInt 1]]
     = (Inr 1, uncommitted_league\<lparr>committed := empty_db, working := empty_db,
          trace := trace uncommitted_league @ [Sql ''DELETE FROM leagues WHERE id = ?'']\<rparr>)
   \<and> execute_many sample_driver uncommitted_league ''DELETE leagues'' [[PInt 1]]
     = (Inl OperationalError,
        uncommitted_league\<lparr>working := empty_db,
                            error_log := [ExecutemanyError OperationalError]\<rparr>)"
proof -
  let ?c = uncommitted_league
  note c7 = execute_helpers_commit_or_reraise
  have w: "leagues (working ?c) \<noteq> []" "committed ?c = empty_db" "error_log ?c = []" by code_simp+
  have r1: "cursor_execute sample_driver ''DELETE FROM leagues''
              (if params_given None then None else None) (working ?c) = (Inr 1, empty_db)"
    by code_simp
  have r2: "cursor_execute sample_driver ''DELETE leagues''
              (if params_given (Some [PInt 1]) then Some [PInt 1] else None) (working ?c)
              = (Inl OperationalError, working ?c)"
    by code_simp
  have r3: "cursor_executemany sample_driver ''DELETE FROM leagues WHERE id = ?'' [[PInt 1]]
              (working ?c) = (Inr 1, empty_db)"
    by code_simp
  have r4: "cursor_executemany sample_driver ''DELETE leagues'' [[PInt 1]] (working ?c)
              = (Inl OperationalError, working ?c)"
    by code_simp
  have sq: "is_sqlite_error OperationalError" by simp
  have a: "execute_query sample_driver ?c ''DELETE FROM leagues'' None
     = (Inr 1, ?c\<lparr>committed := empty_db, working := empty_db,
                  trace := trace ?c @ [Sql ''DELETE FROM leagues'']\<rparr>)"
    using mp[OF conjunct1[OF c7[where drv = sample_driver and query = "''DELETE FROM leagues''" and params = None and c = ?c and rowcount = 1]]] r1
    by simp
  have b: "execute_query sample_driver ?c ''DELETE leagues'' (Some [PInt 1])
     = (Inl OperationalError, ?c\<lparr>working := empty_db,
                                  error_log := [QueryExecutionError OperationalError]\<rparr>)"
    using mp[OF conjunct1[OF conjunct2[OF c7[where drv = sample_driver and query = "''DELETE leagues''"
              and params = "Some [PInt 1]" and c = ?c and e = OperationalError]]]] r2 sq w(2,3)
    by simp
  have d: "execute_many sample_driver ?c ''DELETE FROM leagues WHERE id = ?'' [[PInt 1]]
     = (Inr 1, ?c\<lparr>committed := empty_db, working := empty_db,
          trace := trace ?c @ [Sql ''DELETE FROM leagues WHERE id = ?'']\<rparr>)"
    using mp[OF conjunct1[OF conjunct2[OF conjunct2[OF conjunct2[OF
              c7[where drv = sample_driver and c = ?c and rowcount = 1
                and query = "''DELETE FROM leagues WHERE id = ?''" and params_list = "[[PInt 1]]"]]]]]]
      r3
    by simp
  have e: "execute_many sample_driver ?c ''DELETE leagues'' [[PInt 1]]
     = (Inl OperationalError, ?c\<lparr>working := empty_db,
                                  error_log := [ExecutemanyError OperationalError]\<rparr>)"
    using mp[OF conjunct1[OF conjunct2[OF conjunct2[OF conjunct2[OF conjunct2[OF
              c7[where drv = sample_driver and c = ?c and e = OperationalError
                and query = "''DELETE leagues''" and params_list = "[[PInt 1]]"]]]]]]]
      r4 sq w(2,3)
    by simp
  from a b d e show ?thesis by (intro conjI)
qed

subsection \<open>Claim C2\<close>

text \<open>
  C2 as stated fails: the query also requires \<open>g.status = 'Final'\<close>. A game that is still
  scheduled has no row in any of the eight event tables and is not returned.
\<close>

theorem scheduled_game_not_returned:
  "games (working (connect scheduled_game_db)) = [scheduled_game]
   \<and> g_id scheduled_game = 1
   \<and> \<not> has_pbp_rows (working (connect scheduled_game_db)) 1
   \<and> get_games_without_play_by_play (connect scheduled_game_db) = []"
  by code_simp

text \<open>
  C2, amended. For every database state, \<open>get_games_without_play_by_play\<close> returns exactly
  the games whose status is \<open>'Final'\<close> and that have no row in any of the eight
  play-by-play event tables: the \<open>(id, season_id)\<close> pairs of those games, one for each
  such row of \<open>games\<close>, in ascending order of id. So a finished game with no event row
  is in the result, and a game with an event row in any of the tables, or one that is
  not finished, is not.
\<close>

theorem games_without_play_by_play_final:
  "get_games_without_play_by_play c =
     map (\<lambda>g. (g_id g, g_season_id g))
       (sort_key g_id
          (filter (\<lambda>g. g_status g = SText ''Final'' \<and> \<not> has_pbp_rows (working c) (g_id g))
             (games (working c))))
   \<and> set (get_games_without_play_by_play c) =
       (\<lambda>g. (g_id g, g_season_id g)) `
         {g \<in> set (games (working c)).
            g_status g = SText ''Final'' \<and> \<not> has_pbp_rows (working c) (g_id g)}
   \<and> sorted (map fst (get_games_without_play_by_play c))
   \<and> (has_pbp_rows (working c) i \<longrightarrow> i \<notin> fst ` set (get_games_without_play_by_play c))"
proof (intro conjI impI)
  show eq: "get_games_without_play_by_play c =
     map (\<lambda>g. (g_id g, g_season_id g))
       (sort_key g_id
          (filter (\<lambda>g. g_status g = SText ''Final'' \<and> \<not> has_pbp_rows (working c) (g_id g))
             (games (working c))))"
    by (rule games_without_play_by_play_eq)
  show st: "set (get_games_without_play_by_play c) =
       (\<lambda>g. (g_id g, g_season_id g)) `
         {g \<in> set (games (working c)).
            g_status g = SText ''Final'' \<and> \<not> has_pbp_rows (working c) (g_id g)}"
    unfolding eq by auto
  have "map fst (get_games_without_play_by_play c) =
          map g_id (sort_key g_id
            (filter (\<lambda>g. g_status g = SText ''Final'' \<and> \<not> has_pbp_rows (working c) (g_id g))
               (games (working c))))"
    unfolding eq by (simp add: comp_def)
  then show "sorted (map fst (get_games_without_play_by_play c))" by simp
  assume "has_pbp_rows (working c) i"
  then show "i \<notin> fst ` set (get_games_without_play_by_play c)"
    unfolding st by auto
qed

theorem games_without_play_by_play_final_witness:
  "has_pbp_rows (working (connect three_games_db)) 2
   \<and> 2 \<notin> fst ` set (get_games_without_play_by_play (connect three_games_db))
   \<and> get_games_without_play_by_play (connect three_games_db) = [(3, SInt 1), (4, SInt 1)]"
proof -
  let ?c = "connect three_games_db"
  note c2 = games_without_play_by_play_final[of ?c 2]
  have rows: "has_pbp_rows (working ?c) 2" by code_simp
  have out: "2 \<notin> fst ` set (get_games_without_play_by_play ?c)"
    by (rule mp[OF conjunct2[OF conjunct2[OF conjunct2[OF c2]]] rows])
  have "map (\<lambda>g. (g_id g, g_season_id g))
       (sort_key g_id
          (filter (\<lambda>g. g_status g = SText ''Final'' \<and> \<not> has_pbp_rows (working ?c) (g_id g))
             (games (working ?c)))) = [(3, SInt 1), (4, SInt 1)]"
    by code_simp
  then have res: "get_games_without_play_by_play ?c = [(3, SInt 1), (4, SInt 1)]"
    using conjunct1[OF c2] by simp
  from rows out res show ?thesis by (intro conjI)
qed


subsection \<open>Claim C3\<close>

text \<open>
  C3. In \<open>process_game_play_by_play\<close> the names \<open>home_team_id\<close> and \<open>away_team_id\<close>, passed
  to all eight handlers, are bound nowhere in scope: the team lookup binds \<open>home_team\<close>
  and \<open>visiting_team\<close>. So for every recognized event the call raises \<open>NameError\<close> in the
  \<open>try\<close> block before the handler is entered: the call leaves the connection as it was,
  the loop only logs one error for each recognized event and counts nothing, and the
  function returns 0 whatever the handlers are.
\<close>

theorem dispatcher_raises_name_error:
  "load_name (dispatcher_frame game_id season_id pbp_data home_team visiting_team events
                event event_type tp) ''home_team_id'' = Inl NameError
   \<and> load_name (dispatcher_frame game_id season_id pbp_data home_team visiting_team events
                event event_type tp) ''away_team_id'' = Inl NameError
   \<and> load_name (dispatcher_frame game_id season_id pbp_data home_team visiting_team events
                event event_type tp) ''home_team'' = Inr home_team
   \<and> load_name (dispatcher_frame game_id season_id pbp_data home_team visiting_team events
                event event_type tp) ''visiting_team'' = Inr visiting_team
   \<and> call_handler
        (dispatcher_frame game_id season_id pbp_data home_team visiting_team events
           event event_type tp)
        handlers kind c ev game_id season_id = (Inl NameError, c)
   \<and> process_events (dispatcher_frame game_id season_id pbp_data home_team visiting_team events)
        handlers game_id season_id (map PDict evs) tp c
       = (Inr tp, c\<lparr>error_log := error_log c @
                   map (\<lambda>ev. EventError (dict_get ev ''event'' PNone) game_id NameError)
                     (filter recognized evs)\<rparr>)
   \<and> (process_game_play_by_play handlers fetched c game_id season_id = (Inr n, c')
        \<longrightarrow> n = 0)
   \<and> process_game_play_by_play handlers fetched c game_id season_id
       = process_game_play_by_play other_handlers fetched c game_id season_id"
proof -
  have loop: "process_events (dispatcher_frame g s p h v es) hs g s xs k d
       = (if list_all is_dict xs then Inr k else Inl AttributeError,
          d\<lparr>error_log := error_log d @
                   map (\<lambda>ev. EventError (dict_get ev ''event'' PNone) g NameError)
                     (filter recognized (leading_dicts xs))\<rparr>)" for g s p h v es hs xs k d
    by (rule process_events_unbound) (rule dispatcher_frame_team_ids)
  have dicts: "process_events (dispatcher_frame game_id season_id pbp_data home_team visiting_team
                                 events)
        handlers game_id season_id (map PDict evs) tp c
       = (Inr tp, c\<lparr>error_log := error_log c @
                   map (\<lambda>ev. EventError (dict_get ev ''event'' PNone) game_id NameError)
                     (filter recognized evs)\<rparr>)"
    unfolding loop by (simp add: list_all_is_dict_map leading_dicts_map)
  have zero: "n = 0"
    if "process_game_play_by_play handlers fetched c game_id season_id = (Inr n, c')"
    using that unfolding process_game_play_by_play_def loop
    by (auto split: sum.splits prod.splits bool.splits if_splits)
  have same: "process_game_play_by_play handlers fetched c game_id season_id
       = process_game_play_by_play other_handlers fetched c game_id season_id"
    unfolding process_game_play_by_play_def loop by (rule refl)
  show ?thesis
    using dicts zero same
    by (simp add: load_name_def dispatcher_frame_team_ids dispatcher_frame_teams
          call_handler_unbound)
qed

theorem dispatcher_raises_name_error_witness:
  "process_game_play_by_play counting_handlers
      (Inr (pbp_response (map PDict [goal_event, timeout_event, shot_event])))
      (connect scheduled_game_db) 1 1
     = process_game_play_by_play failing_on_goal
         (Inr (pbp_response (map PDict [goal_event, timeout_event, shot_event])))
         (connect scheduled_game_db) 1 1
   \<and> fst (process_game_play_by_play counting_handlers
             (Inr (pbp_response (map PDict [goal_event, timeout_event, shot_event])))
             (connect scheduled_game_db) 1 1) = Inr 0
   \<and> error_log (snd (process_game_play_by_play counting_handlers
             (Inr (pbp_response (map PDict [goal_event, timeout_event, shot_event])))
             (connect scheduled_game_db) 1 1))
       = [EventError (PStr ''goal'') 1 NameError, EventError (PStr ''shot'') 1 NameError]"
proof -
  let ?fetched = "Inr (pbp_response (map PDict [goal_event, timeout_event, shot_event]))"
  let ?run = "process_game_play_by_play counting_handlers ?fetched (connect scheduled_game_db) 1 1"
  note c3 = dispatcher_raises_name_error[where handlers = counting_handlers
      and other_handlers = failing_on_goal and fetched = ?fetched
      and c = "connect scheduled_game_db" and game_id = 1 and season_id = 1]
  have same: "?run = process_game_play_by_play failing_on_goal ?fetched
                       (connect scheduled_game_db) 1 1"
    using c3 by blast
  have "fst ?run = Inr (case fst ?run of Inr n \<Rightarrow> n | Inl e \<Rightarrow> 1)" by code_simp
  then have "?run = (Inr (case fst ?run of Inr n \<Rightarrow> n | Inl e \<Rightarrow> 1), snd ?run)"
    by (metis prod.collapse)
  then have "(case fst ?run of Inr n \<Rightarrow> n | Inl e \<Rightarrow> 1) = 0" using c3 by blast
  then have res: "fst ?run = Inr 0"
    using \<open>fst ?run = Inr (case fst ?run of Inr n \<Rightarrow> n | Inl e \<Rightarrow> 1)\<close> by simp
  have log: "error_log (snd ?run)
       = [EventError (PStr ''goal'') 1 NameError, EventError (PStr ''shot'') 1 NameError]"
    by code_simp
  from same res log show ?thesis by (intro conjI)
qed

subsection \<open>Claim C4\<close>

text \<open>
  C4 as stated fails: \<open>event.get('event')\<close> stands before the \<open>try\<close>, so an event that is
  not a dict raises \<open>AttributeError\<close> out of the loop and of the function. Nothing is
  logged for it, the events after it are not processed, the count so far is lost and
  there is no commit.
\<close>

theorem non_dict_event_aborts_batch:
  "process_events frame_with_team_ids counting_handlers 1 1
      [PDict shot_event, PStr ''malformed'', PDict goal_event] 0 (connect scheduled_game_db)
     = (Inl AttributeError, connect scheduled_game_db)
   \<and> process_game_play_by_play counting_handlers
        (Inr (pbp_response [PDict shot_event, PStr ''malformed'', PDict goal_event]))
        (connect scheduled_game_db) 1 1
     = (Inl AttributeError,
        (connect scheduled_game_db)
          \<lparr>trace := [Select ''games'' 1],
           error_log := [EventError (PStr ''shot'') 1 NameError]\<rparr>)"
  by code_simp

text \<open>
  C4, amended. During \<open>process_game_play_by_play\<close>, an exception raised while processing
  any single event that is a dict is caught and logged and processing continues with the
  next event of the batch: a batch of dicts is never aborted by one bad event. An event
  whose \<open>event\<close> tag matches none of the eight known kinds is silently ignored and does
  not contribute to the returned count.

  For the loop, with any binding of the names in scope and any handlers: a batch of
  dicts is processed to its end and returns a count, between the count at the start and
  that plus the number of recognized events; the events with another tag can be dropped
  from the batch without any difference; and an event after any part of the batch, whose
  handler call raises, adds one record to the log and the loop goes on with the events
  after it from the state the call left, and if the call returns, it counts when the
  result is true. For the function: on a response whose \<open>GC.Pxpverbose\<close> is a list of
  dicts it returns a count once the team lookup's parameter binds; and for a game whose
  two teams are found, each recognized event raises (the \<open>NameError\<close> of C3), one record
  a recognized event is logged, in order, nothing for any other event, and the function
  commits and returns 0.
\<close>

theorem dict_events_never_abort_batch:
  "(\<exists>n c'. process_events fr handlers game_id season_id (map PDict evs) tp c = (Inr n, c')
            \<and> tp \<le> n \<and> n \<le> tp + length (filter recognized evs))
   \<and> process_events fr handlers game_id season_id (map PDict evs) tp c
       = process_events fr handlers game_id season_id (map PDict (filter recognized evs)) tp c
   \<and> (process_events fr handlers game_id season_id (map PDict before) tp c = (Inr m, c_mid)
       \<and> event_kind_of (dict_get ev ''event'' PNone) = Some kind
       \<and> call_handler (fr (PDict ev) (dict_get ev ''event'' PNone) m) handlers kind c_mid ev
            game_id season_id = (Inl e, c_call)
      \<longrightarrow> process_events fr handlers game_id season_id (map PDict (before @ ev # after)) tp c
            = process_events fr handlers game_id season_id (map PDict after) m
                (c_call\<lparr>error_log := error_log c_call
                       @ [EventError (dict_get ev ''event'' PNone) game_id e]\<rparr>))
   \<and> (process_events fr handlers game_id season_id (map PDict before) tp c = (Inr m, c_mid)
       \<and> event_kind_of (dict_get ev ''event'' PNone) = Some kind
       \<and> call_handler (fr (PDict ev) (dict_get ev ''event'' PNone) m) handlers kind c_mid ev
            game_id season_id = (Inr counted, c_call)
      \<longrightarrow> process_events fr handlers game_id season_id (map PDict (before @ ev # after)) tp c
            = process_events fr handlers game_id season_id (map PDict after)
                (if counted then m + 1 else m) c_call)
   \<and> (py_item pbp_data ''GC'' = Inr gc
       \<and> py_item gc ''Pxpverbose'' = Inr (PList (map PDict evs))
       \<and> bind_param (PInt game_id) = Inr v
      \<longrightarrow> (\<exists>n c'. process_game_play_by_play handlers (Inr pbp_data) c game_id season_id
                     = (Inr n, c')))
   \<and> (py_item pbp_data ''GC'' = Inr gc
       \<and> py_item gc ''Pxpverbose'' = Inr (PList (map PDict evs))
       \<and> get_game_teams c game_id = (Inr (home_team, visiting_team), c_teams)
       \<and> py_truthy home_team \<and> py_truthy visiting_team
      \<longrightarrow> process_game_play_by_play handlers (Inr pbp_data) c game_id season_id
            = (Inr 0,
               commit (c_teams\<lparr>error_log := error_log c_teams @
                             map (\<lambda>ev. EventError (dict_get ev ''event'' PNone) game_id NameError)
                               (filter recognized evs)\<rparr>)))"
proof (intro conjI impI)
  show "\<exists>n c'. process_events fr handlers game_id season_id (map PDict evs) tp c = (Inr n, c')
            \<and> tp \<le> n \<and> n \<le> tp + length (filter recognized evs)"
    by (rule process_events_dicts)
next
  show "process_events fr handlers game_id season_id (map PDict evs) tp c
       = process_events fr handlers game_id season_id (map PDict (filter recognized evs)) tp c"
    by (rule process_events_filter)
next
  assume a: "process_events fr handlers game_id season_id (map PDict before) tp c = (Inr m, c_mid)
       \<and> event_kind_of (dict_get ev ''event'' PNone) = Some kind
       \<and> call_handler (fr (PDict ev) (dict_get ev ''event'' PNone) m) handlers kind c_mid ev
            game_id season_id = (Inl e, c_call)"
  have "process_events fr handlers game_id season_id (map PDict before @ PDict ev # map PDict after)
          tp c
        = process_events fr handlers game_id season_id (PDict ev # map PDict after) m c_mid"
    using a by (simp add: process_events_append)
  also have "\<dots> = process_events fr handlers game_id season_id (map PDict after) m
                (c_call\<lparr>error_log := error_log c_call
                       @ [EventError (dict_get ev ''event'' PNone) game_id e]\<rparr>)"
    using a by simp
  finally show "process_events fr handlers game_id season_id (map PDict (before @ ev # after)) tp c
            = process_events fr handlers game_id season_id (map PDict after) m
                (c_call\<lparr>error_log := error_log c_call
                       @ [EventError (dict_get ev ''event'' PNone) game_id e]\<rparr>)"
    by simp
next
  assume a: "process_events fr handlers game_id season_id (map PDict before) tp c = (Inr m, c_mid)
       \<and> event_kind_of (dict_get ev ''event'' PNone) = Some kind
       \<and> call_handler (fr (PDict ev) (dict_get ev ''event'' PNone) m) handlers kind c_mid ev
            game_id season_id = (Inr counted, c_call)"
  have "process_events fr handlers game_id season_id (map PDict before @ PDict ev # map PDict after)
          tp c
        = process_events fr handlers game_id season_id (PDict ev # map PDict after) m c_mid"
    using a by (simp add: process_events_append)
  also have "\<dots> = process_events fr handlers game_id season_id (map PDict after)
                (if counted then m + 1 else m) c_call"
    using a by (cases counted) simp_all
  finally show "process_events fr handlers game_id season_id (map PDict (before @ ev # after)) tp c
            = process_events fr handlers game_id season_id (map PDict after)
                (if counted then m + 1 else m) c_call"
    by simp
next
  assume a: "py_item pbp_data ''GC'' = Inr gc
       \<and> py_item gc ''Pxpverbose'' = Inr (PList (map PDict evs))
       \<and> bind_param (PInt game_id) = Inr v"
  then have chk: "no_play_by_play pbp_data = Inr False"
    using no_play_by_play_items by blast
  obtain teams c_mid where teams: "get_game_teams c game_id = (Inr teams, c_mid)"
    using a get_game_teams_bound by blast
  obtain h vt where hv: "teams = (h, vt)" by (cases teams)
  obtain n c_call where loop:
    "process_events (dispatcher_frame game_id season_id pbp_data h vt (PList (map PDict evs)))
       handlers game_id season_id (map PDict evs) 0 c_mid = (Inr n, c_call)"
    using process_events_dicts by blast
  show "\<exists>n c'. process_game_play_by_play handlers (Inr pbp_data) c game_id season_id = (Inr n, c')"
    using a chk teams hv loop
    by (simp add: process_game_play_by_play_def ebind_def)
next
  assume a: "py_item pbp_data ''GC'' = Inr gc
       \<and> py_item gc ''Pxpverbose'' = Inr (PList (map PDict evs))
       \<and> get_game_teams c game_id = (Inr (home_team, visiting_team), c_teams)
       \<and> py_truthy home_team \<and> py_truthy visiting_team"
  then have chk: "no_play_by_play pbp_data = Inr False"
    using no_play_by_play_items by blast
  have loop: "process_events
       (dispatcher_frame game_id season_id pbp_data home_team visiting_team (PList (map PDict evs)))
       handlers game_id season_id (map PDict evs) 0 c_teams
       = (Inr 0, c_teams\<lparr>error_log := error_log c_teams @
                   map (\<lambda>ev. EventError (dict_get ev ''event'' PNone) game_id NameError)
                     (filter recognized evs)\<rparr>)"
    using process_events_unbound[of
        "dispatcher_frame game_id season_id pbp_data home_team visiting_team (PList (map PDict evs))"
        handlers game_id season_id "map PDict evs" 0 c_teams]
    by (simp add: dispatcher_frame_team_ids list_all_is_dict_map leading_dicts_map)
  show "process_game_play_by_play handlers (Inr pbp_data) c game_id season_id
            = (Inr 0,
               commit (c_teams\<lparr>error_log := error_log c_teams @
                             map (\<lambda>ev. EventError (dict_get ev ''event'' PNone) game_id NameError)
                               (filter recognized evs)\<rparr>))"
    using a chk loop
    by (simp add: process_game_play_by_play_def ebind_def)
qed

theorem dict_events_never_abort_batch_witness:
  "process_events frame_with_team_ids failing_on_goal 1 1
      (map PDict ([shot_event] @ goal_event # [timeout_event, shot_event])) 0
      (connect scheduled_game_db)
     = (Inr 2, (connect scheduled_game_db)\<lparr>error_log := [EventError (PStr ''goal'') 1 KeyError]\<rparr>)
   \<and> process_events frame_with_team_ids failing_on_goal 1 1
        (map PDict ([] @ shot_event # [timeout_event])) 0 (connect scheduled_game_db)
     = (Inr 1, connect scheduled_game_db)
   \<and> (\<exists>n c'. process_game_play_by_play failing_on_goal
                (Inr (pbp_response (map PDict [goal_event, timeout_event, shot_event])))
                (connect empty_db) 1 1 = (Inr n, c'))
   \<and> fst (process_game_play_by_play failing_on_goal
            (Inr (pbp_response (map PDict [goal_event, timeout_event, shot_event])))
            (connect scheduled_game_db) 1 1) = Inr 0
   \<and> error_log (snd (process_game_play_by_play failing_on_goal
            (Inr (pbp_response (map PDict [goal_event, timeout_event, shot_event])))
            (connect scheduled_game_db) 1 1))
       = [EventError (PStr ''goal'') 1 NameError, EventError (PStr ''shot'') 1 NameError]"
proof -
  let ?c = "connect scheduled_game_db"
  let ?evs = "[goal_event, timeout_event, shot_event]"
  let ?pbp = "pbp_response (map PDict ?evs)"
  let ?c1 = "?c\<lparr>trace := [Select ''games'' 1]\<rparr>"
  note c4 = dict_events_never_abort_batch[where fr = frame_with_team_ids
      and handlers = failing_on_goal and game_id = 1 and season_id = 1]
  have h3: "process_events frame_with_team_ids failing_on_goal 1 1 (map PDict [shot_event]) 0 ?c
              = (Inr 1, ?c)
       \<and> event_kind_of (dict_get goal_event ''event'' PNone) = Some Goal
       \<and> call_handler (frame_with_team_ids (PDict goal_event) (dict_get goal_event ''event'' PNone) 1)
            failing_on_goal Goal ?c goal_event 1 1 = (Inl KeyError, ?c)"
    by code_simp
  have s3: "process_events frame_with_team_ids failing_on_goal 1 1
              (map PDict ([shot_event] @ goal_event # [timeout_event, shot_event])) 0 ?c
            = process_events frame_with_team_ids failing_on_goal 1 1
                (map PDict [timeout_event, shot_event]) 1
                (?c\<lparr>error_log := error_log ?c
                       @ [EventError (dict_get goal_event ''event'' PNone) 1 KeyError]\<rparr>)"
    by (rule mp[OF conjunct1[OF conjunct2[OF conjunct2[OF
          c4[where before = "[shot_event]" and ev = goal_event and tp = 0 and c = ?c
             and kind = Goal and m = 1 and c_mid = ?c and e = KeyError and c_call = ?c
             and after = "[timeout_event, shot_event]"]]]] h3])
  have r3: "process_events frame_with_team_ids failing_on_goal 1 1
                (map PDict [timeout_event, shot_event]) 1
                (?c\<lparr>error_log := error_log ?c
                       @ [EventError (dict_get goal_event ''event'' PNone) 1 KeyError]\<rparr>)
            = (Inr 2, ?c\<lparr>error_log := [EventError (PStr ''goal'') 1 KeyError]\<rparr>)"
    by code_simp
  have a: "process_events frame_with_team_ids failing_on_goal 1 1
              (map PDict ([shot_event] @ goal_event # [timeout_event, shot_event])) 0 ?c
            = (Inr 2, ?c\<lparr>error_log := [EventError (PStr ''goal'') 1 KeyError]\<rparr>)"
    using s3 r3 by (rule trans)
  have h4: "process_events frame_with_team_ids failing_on_goal 1 1 (map PDict []) 0 ?c
              = (Inr 0, ?c)
       \<and> event_kind_of (dict_get shot_event ''event'' PNone) = Some Shot
       \<and> call_handler (frame_with_team_ids (PDict shot_event) (dict_get shot_event ''event'' PNone) 0)
            failing_on_goal Shot ?c shot_event 1 1 = (Inr True, ?c)"
    by code_simp
  have s4: "process_events frame_with_team_ids failing_on_goal 1 1
              (map PDict ([] @ shot_event # [timeout_event])) 0 ?c
            = process_events frame_with_team_ids failing_on_goal 1 1
                (map PDict [timeout_event]) (if True then 0 + 1 else 0) ?c"
    by (rule mp[OF conjunct1[OF conjunct2[OF conjunct2[OF conjunct2[OF
          c4[where before = "[]" and ev = shot_event and tp = 0 and c = ?c
             and kind = Shot and m = 0 and c_mid = ?c and counted = True and c_call = ?c
             and after = "[timeout_event]"]]]]] h4])
  have r4: "process_events frame_with_team_ids failing_on_goal 1 1
                (map PDict [timeout_event]) (if True then 0 + 1 else 0) ?c = (Inr 1, ?c)"
    by code_simp
  have b: "process_events frame_with_team_ids failing_on_goal 1 1
              (map PDict ([] @ shot_event # [timeout_event])) 0 ?c = (Inr 1, ?c)"
    using s4 r4 by (rule trans)
  have h5: "py_item ?pbp ''GC'' = Inr (PDict [(''Pxpverbose'', PList (map PDict ?evs))])
       \<and> py_item (PDict [(''Pxpverbose'', PList (map PDict ?evs))]) ''Pxpverbose''
           = Inr (PList (map PDict ?evs))
       \<and> bind_param (PInt 1) = Inr (SInt 1)"
    by (simp add: pbp_response_def)
  have d: "\<exists>n c'. process_game_play_by_play failing_on_goal (Inr ?pbp) (connect empty_db) 1 1
                    = (Inr n, c')"
    by (rule mp[OF conjunct1[OF conjunct2[OF conjunct2[OF conjunct2[OF conjunct2[OF
          c4[where pbp_data = ?pbp and gc = "PDict [(''Pxpverbose'', PList (map PDict ?evs))]"
             and evs = ?evs and v = "SInt 1" and c = "connect empty_db"]]]]]] h5])
  have teams: "get_game_teams ?c 1 = (Inr (PInt 1, PInt 2), ?c1)" by code_simp
  have h6: "py_item ?pbp ''GC'' = Inr (PDict [(''Pxpverbose'', PList (map PDict ?evs))])
       \<and> py_item (PDict [(''Pxpverbose'', PList (map PDict ?evs))]) ''Pxpverbose''
           = Inr (PList (map PDict ?evs))
       \<and> get_game_teams ?c 1 = (Inr (PInt 1, PInt 2), ?c1)
       \<and> py_truthy (PInt 1) \<and> py_truthy (PInt 2)"
    using teams by (simp add: pbp_response_def)
  have run: "process_game_play_by_play failing_on_goal (Inr ?pbp) ?c 1 1
      = (Inr 0,
         commit (?c1\<lparr>error_log := error_log ?c1 @
                       map (\<lambda>ev. EventError (dict_get ev ''event'' PNone) 1 NameError)
                         (filter recognized ?evs)\<rparr>))"
    by (rule mp[OF conjunct2[OF conjunct2[OF conjunct2[OF conjunct2[OF conjunct2[OF
          c4[where pbp_data = ?pbp and gc = "PDict [(''Pxpverbose'', PList (map PDict ?evs))]"
             and evs = ?evs and c = ?c and home_team = "PInt 1" and visiting_team = "PInt 2"
             and c_teams = ?c1]]]]]] h6])
  have res: "fst (process_game_play_by_play failing_on_goal (Inr ?pbp) ?c 1 1) = Inr 0"
    by (simp only: run fst_conv)
  have "error_log (commit (?c1\<lparr>error_log := error_log ?c1 @
                       map (\<lambda>ev. EventError (dict_get ev ''event'' PNone) 1 NameError)
                         (filter recognized ?evs)\<rparr>))
        = [EventError (PStr ''goal'') 1 NameError, EventError (PStr ''shot'') 1 NameError]"
    by code_simp
  then have log: "error_log (snd (process_game_play_by_play failing_on_goal (Inr ?pbp) ?c 1 1))
        = [EventError (PStr ''goal'') 1 NameError, EventError (PStr ''shot'') 1 NameError]"
    by (simp only: run snd_conv)
  from a b d res log show ?thesis by (intro conjI)
qed

subsection \<open>Claim C5\<close>

text \<open>
  C5. For a player already stored in the players table, \<open>update_player\<close> never overwrites
  a stored value of a preserve-listed field (\<open>hometown\<close>, \<open>hometown_div\<close>, \<open>nationality\<close>,
  \<open>weight_kg\<close>, \<open>height_cm\<close>) with an empty or null API value: when the value extracted
  for such a field is empty, the call leaves the column as it was in every row of the
  table, whatever the stored value is, whatever else the call updates and whether it
  returns or raises; the column is not among those its \<open>UPDATE\<close> sets, and there is no
  \<open>INSERT\<close>.
\<close>

theorem update_player_preserves_field:
  "extract_player_fields cv player_data = Inr (Some player_fields)
   \<and> map_of player_fields ''id'' = Some (PInt player_id)
   \<and> select_player (working c) (SInt player_id) = Inr (Some existing_player)
   \<and> column \<in> set preserve_fields
   \<and> \<not> py_truthy (dict_get player_fields column PNone)
   \<longrightarrow>
     map (\<lambda>row. row_value row column) (players (working (snd (update_player cv c player_data))))
       = map (\<lambda>row. row_value row column) (players (working c))
     \<and> (\<forall>cols i. Update ''players'' cols i
                    \<in> set (issued c (snd (update_player cv c player_data)))
                  \<longrightarrow> column \<notin> set cols)
     \<and> (\<forall>s \<in> set (issued c (snd (update_player cv c player_data))). \<not> is_insert s)"
proof (intro impI)
  assume a: "extract_player_fields cv player_data = Inr (Some player_fields)
   \<and> map_of player_fields ''id'' = Some (PInt player_id)
   \<and> select_player (working c) (SInt player_id) = Inr (Some existing_player)
   \<and> column \<in> set preserve_fields
   \<and> \<not> py_truthy (dict_get player_fields column PNone)"
  then have ex: "extract_player_fields cv player_data = Inr (Some player_fields)"
    and pid: "map_of player_fields ''id'' = Some (PInt player_id)"
    and sel: "select_player (working c) (SInt player_id) = Inr (Some existing_player)"
    and col: "column \<in> set preserve_fields"
    and empty: "\<not> py_truthy (dict_get player_fields column PNone)"
    by simp_all
  let ?goal = "\<lambda>c'. map (\<lambda>row. row_value row column) (players (working c'))
       = map (\<lambda>row. row_value row column) (players (working c))
     \<and> (\<forall>cols i. Update ''players'' cols i \<in> set (issued c c') \<longrightarrow> column \<notin> set cols)
     \<and> (\<forall>s \<in> set (issued c c'). \<not> is_insert s)"
  let ?changes = "collect_changes player_fields
              (dict_of_items (zip (players_columns (working c)) existing_player))
              (players_columns (working c)) []"
  have out: "column \<notin> fst ` set ?changes"
    by (rule collect_changes_keeps_out[OF col empty]) simp
  have "?goal (snd (update_player cv c player_data))"
  proof (cases "bind_param (PInt player_id)")
    case (Inl e)
    have eq: "update_player cv c player_data = (Inl e, c)"
      by (simp add: update_player_def ex pid Inl del: bind_param.simps)
    show ?thesis unfolding eq by (simp add: issued_extended)
  next
    case (Inr i)
    then have i: "i = SInt player_id" by (rule bind_param_int)
    note unfold = update_player_fields[OF ex pid Inr, of c]
    show ?thesis
    proof (cases "?changes = []")
      case True
      have eq: "update_player cv c player_data
          = (Inr False, c\<lparr>trace := trace c @ [Select ''players'' player_id,
                                               Pragma ''table_info(players)'']\<rparr>)"
        using True sel by (simp add: unfold i)
      show ?thesis unfolding eq by (simp add: issued_extended)
    next
      case False
      show ?thesis
      proof (cases "bind_params (map snd ?changes @ [PInt player_id])")
        case (Inl e)
        have eq: "update_player cv c player_data
            = (Inl e, c\<lparr>trace := trace c @ [Select ''players'' player_id,
                                             Pragma ''table_info(players)'']\<rparr>)"
          using False Inl sel by (simp add: unfold i)
        show ?thesis unfolding eq by (simp add: issued_extended)
      next
        case (Inr params)
        have eq: "update_player cv c player_data
            = (Inr True,
               c\<lparr>committed := update_player_rows (working c)
                                 (zip (map fst ?changes) params) (last params),
                 working := update_player_rows (working c)
                                 (zip (map fst ?changes) params) (last params),
                 trace := trace c @ [Select ''players'' player_id,
                                     Pragma ''table_info(players)'',
                                     Update ''players'' (map fst ?changes) player_id]\<rparr>)"
          using False Inr sel by (simp add: unfold i)
        have "column \<notin> fst ` set (zip (map fst ?changes) params)"
          using out keys_zip_subset[of "map fst ?changes" params] by auto
        then have rows: "map (\<lambda>row. row_value row column)
            (players (update_player_rows (working c) (zip (map fst ?changes) params) (last params)))
            = map (\<lambda>row. row_value row column) (players (working c))"
          by (rule update_player_rows_other)
        have cols: "column \<notin> set (map fst ?changes)" using out by simp
        show ?thesis unfolding eq snd_conv
          using rows cols by (simp add: issued_extended)
      qed
    qed
  qed
  then show "map (\<lambda>row. row_value row column)
        (players (working (snd (update_player cv c player_data))))
       = map (\<lambda>row. row_value row column) (players (working c))
     \<and> (\<forall>cols i. Update ''players'' cols i
                    \<in> set (issued c (snd (update_player cv c player_data)))
                  \<longrightarrow> column \<notin> set cols)
     \<and> (\<forall>s \<in> set (issued c (snd (update_player cv c player_data))). \<not> is_insert s)"
    by simp
qed

theorem update_player_preserves_field_witness:
  "map (\<lambda>row. row_value row ''hometown'')
      (players (working (snd (update_player sample_converters stored_poulin poulin_renamed))))
     = [SText ''Beauceville'']
   \<and> map (\<lambda>row. row_value row ''nationality'')
      (players (working (snd (update_player sample_converters stored_poulin poulin_renamed))))
     = [SText ''Canada'']
   \<and> map (\<lambda>row. row_value row ''first_name'')
      (players (working (snd (update_player sample_converters stored_poulin poulin_renamed))))
     = [SText ''Marie'']
   \<and> dict_get (case extract_player_fields sample_converters poulin_renamed of
                 Inr (Some f) \<Rightarrow> f | _ \<Rightarrow> []) ''hometown'' (PStr ''unset'') = PNone
   \<and> dict_get (case extract_player_fields sample_converters poulin_renamed of
                 Inr (Some f) \<Rightarrow> f | _ \<Rightarrow> []) ''nationality'' (PStr ''unset'') = PStr []"
proof -
  let ?f = "case extract_player_fields sample_converters poulin_renamed of
              Inr (Some f) \<Rightarrow> f | _ \<Rightarrow> []"
  let ?row = "case select_player (working stored_poulin) (SInt 31) of
                Inr (Some r) \<Rightarrow> r | _ \<Rightarrow> []"
  let ?c' = "snd (update_player sample_converters stored_poulin poulin_renamed)"
  note c5 = update_player_preserves_field[where cv = sample_converters
      and player_data = poulin_renamed and player_fields = ?f and player_id = 31
      and c = stored_poulin and existing_player = ?row]
  have ex: "extract_player_fields sample_converters poulin_renamed = Inr (Some ?f)" by code_simp
  have pid: "map_of ?f ''id'' = Some (PInt 31)" by code_simp
  have sel: "select_player (working stored_poulin) (SInt 31) = Inr (Some ?row)" by code_simp
  have p1: "''hometown'' \<in> set preserve_fields" by code_simp
  have p2: "''nationality'' \<in> set preserve_fields" by code_simp
  have e1: "\<not> py_truthy (dict_get ?f ''hometown'' PNone)" by code_simp
  have e2: "\<not> py_truthy (dict_get ?f ''nationality'' PNone)" by code_simp
  have h1: "extract_player_fields sample_converters poulin_renamed = Inr (Some ?f)
     \<and> map_of ?f ''id'' = Some (PInt 31)
     \<and> select_player (working stored_poulin) (SInt 31) = Inr (Some ?row)
     \<and> ''hometown'' \<in> set preserve_fields
     \<and> \<not> py_truthy (dict_get ?f ''hometown'' PNone)"
    using ex pid sel p1 e1 by (intro conjI)
  have h2: "extract_player_fields sample_converters poulin_renamed = Inr (Some ?f)
     \<and> map_of ?f ''id'' = Some (PInt 31)
     \<and> select_player (working stored_poulin) (SInt 31) = Inr (Some ?row)
     \<and> ''nationality'' \<in> set preserve_fields
     \<and> \<not> py_truthy (dict_get ?f ''nationality'' PNone)"
    using ex pid sel p2 e2 by (intro conjI)
  have k1: "map (\<lambda>row. row_value row ''hometown'') (players (working ?c'))
          = map (\<lambda>row. row_value row ''hometown'') (players (working stored_poulin))"
    by (rule conjunct1[OF mp[OF c5[where column = "''hometown''"] h1]])
  have k2: "map (\<lambda>row. row_value row ''nationality'') (players (working ?c'))
          = map (\<lambda>row. row_value row ''nationality'') (players (working stored_poulin))"
    by (rule conjunct1[OF mp[OF c5[where column = "''nationality''"] h2]])
  have s1: "map (\<lambda>row. row_value row ''hometown'') (players (working stored_poulin))
          = [SText ''Beauceville'']" by code_simp
  have s2: "map (\<lambda>row. row_value row ''nationality'') (players (working stored_poulin))
          = [SText ''Canada'']" by code_simp
  have a: "map (\<lambda>row. row_value row ''hometown'') (players (working ?c')) = [SText ''Beauceville'']"
    using k1 s1 by (rule trans)
  have b: "map (\<lambda>row. row_value row ''nationality'') (players (working ?c')) = [SText ''Canada'']"
    using k2 s2 by (rule trans)
  have d: "map (\<lambda>row. row_value row ''first_name'') (players (working ?c')) = [SText ''Marie'']"
    by code_simp
  have v1: "dict_get ?f ''hometown'' (PStr ''unset'') = PNone" by code_simp
  have v2: "dict_get ?f ''nationality'' (PStr ''unset'') = PStr []" by code_simp
  from a b d v1 v2 show ?thesis by (intro conjI)
qed

subsection \<open>Claim C10\<close>

text \<open>
  C10. When \<open>update_player\<close> is called for an already-stored player and every extracted
  field that has a column either equals the stored value or is an empty value of a
  preserve-listed field, it executes the \<open>SELECT\<close> and the \<open>PRAGMA\<close> and nothing else: no
  \<open>INSERT\<close> and no \<open>UPDATE\<close>, the database as it was, and the result \<open>False\<close>. For every
  call: it returns \<open>True\<close> exactly when it executed an \<open>INSERT\<close> or an \<open>UPDATE\<close>; with any
  other outcome the database, working and committed, is as before; an \<open>UPDATE\<close> it
  executes sets at least one column; and when it returns \<open>True\<close> the change is committed.
\<close>

theorem update_player_true_iff_written:
  "(extract_player_fields cv player_data = Inr (Some player_fields)
    \<and> map_of player_fields ''id'' = Some (PInt player_id)
    \<and> bind_param (PInt player_id) = Inr i
    \<and> select_player (working c) i = Inr (Some existing_player)
    \<and> (\<forall>column \<in> set (players_columns (working c)).
          no_change player_fields
            (dict_of_items (zip (players_columns (working c)) existing_player)) column)
    \<longrightarrow>
      update_player cv c player_data
        = (Inr False, c\<lparr>trace := trace c @ [Select ''players'' player_id,
                                             Pragma ''table_info(players)'']\<rparr>)
      \<and> players (working (snd (update_player cv c player_data))) = players (working c)
      \<and> (\<forall>s \<in> set (issued c (snd (update_player cv c player_data))).
            \<not> is_insert s \<and> \<not> is_update s))
   \<and> (fst (update_player cv c player_data) = Inr True
        \<longleftrightarrow> (\<exists>s \<in> set (issued c (snd (update_player cv c player_data))).
               is_insert s \<or> is_update s))
   \<and> (fst (update_player cv c player_data) \<noteq> Inr True
        \<longrightarrow> working (snd (update_player cv c player_data)) = working c
            \<and> committed (snd (update_player cv c player_data)) = committed c)
   \<and> (Update table cols j \<in> set (issued c (snd (update_player cv c player_data)))
        \<longrightarrow> cols \<noteq> [])
   \<and> (fst (update_player cv c player_data) = Inr True
        \<longrightarrow> committed (snd (update_player cv c player_data))
              = working (snd (update_player cv c player_data)))"
proof (intro conjI impI)
  assume a: "extract_player_fields cv player_data = Inr (Some player_fields)
    \<and> map_of player_fields ''id'' = Some (PInt player_id)
    \<and> bind_param (PInt player_id) = Inr i
    \<and> select_player (working c) i = Inr (Some existing_player)
    \<and> (\<forall>column \<in> set (players_columns (working c)).
          no_change player_fields
            (dict_of_items (zip (players_columns (working c)) existing_player)) column)"
  then have ex: "extract_player_fields cv player_data = Inr (Some player_fields)"
    and pid: "map_of player_fields ''id'' = Some (PInt player_id)"
    and bound: "bind_param (PInt player_id) = Inr i"
    and sel: "select_player (working c) i = Inr (Some existing_player)"
    and same: "\<And>column. column \<in> set (players_columns (working c)) \<Longrightarrow>
          no_change player_fields
            (dict_of_items (zip (players_columns (working c)) existing_player)) column"
    by simp_all
  have none: "collect_changes player_fields
              (dict_of_items (zip (players_columns (working c)) existing_player))
              (players_columns (working c)) [] = []"
    by (rule collect_changes_none) (rule same)
  show eq: "update_player cv c player_data
        = (Inr False, c\<lparr>trace := trace c @ [Select ''players'' player_id,
                                             Pragma ''table_info(players)'']\<rparr>)"
    using none sel by (simp add: update_player_fields[OF ex pid bound])
  show "players (working (snd (update_player cv c player_data))) = players (working c)"
    unfolding eq by simp
  show "\<forall>s \<in> set (issued c (snd (update_player cv c player_data))).
            \<not> is_insert s \<and> \<not> is_update s"
    unfolding eq by (simp add: issued_extended)
next
  show "fst (update_player cv c player_data) = Inr True
        \<longleftrightarrow> (\<exists>s \<in> set (issued c (snd (update_player cv c player_data))).
               is_insert s \<or> is_update s)"
    by (rule player_outcome_true) (rule update_player_outcome)
next
  assume "fst (update_player cv c player_data) \<noteq> Inr True"
  then have "working (snd (update_player cv c player_data)) = working c
            \<and> committed (snd (update_player cv c player_data)) = committed c"
    by (rule player_outcome_untouched[OF update_player_outcome])
  then show "working (snd (update_player cv c player_data)) = working c"
    and "committed (snd (update_player cv c player_data)) = committed c"
    by simp_all
next
  assume "Update table cols j \<in> set (issued c (snd (update_player cv c player_data)))"
  then show "cols \<noteq> []"
    by (rule player_outcome_columns[OF update_player_outcome])
next
  assume "fst (update_player cv c player_data) = Inr True"
  then show "committed (snd (update_player cv c player_data))
              = working (snd (update_player cv c player_data))"
    by (rule player_outcome_committed[OF update_player_outcome])
qed

theorem update_player_true_iff_written_witness:
  "update_player sample_converters stored_poulin poulin_sparse
     = (Inr False, stored_poulin\<lparr>trace := trace stored_poulin
                                    @ [Select ''players'' 31, Pragma ''table_info(players)'']\<rparr>)
   \<and> working (snd (update_player sample_converters stored_poulin poulin_sparse))
       = working stored_poulin
   \<and> fst (update_player sample_converters stored_poulin poulin_renamed) = Inr True
   \<and> (\<exists>s \<in> set (issued stored_poulin
                   (snd (update_player sample_converters stored_poulin poulin_renamed))).
         is_insert s \<or> is_update s)
   \<and> Update ''players'' [''first_name''] 31
       \<in> set (issued stored_poulin
                (snd (update_player sample_converters stored_poulin poulin_renamed)))
   \<and> committed (snd (update_player sample_converters stored_poulin poulin_renamed))
       = working (snd (update_player sample_converters stored_poulin poulin_renamed))
   \<and> fst (update_player sample_converters (connect players_db) poulin) = Inr True"
proof -
  let ?f = "case extract_player_fields sample_converters poulin_sparse of
              Inr (Some f) \<Rightarrow> f | _ \<Rightarrow> []"
  let ?row = "case select_player (working stored_poulin) (SInt 31) of
                Inr (Some r) \<Rightarrow> r | _ \<Rightarrow> []"
  let ?sparse = "update_player sample_converters stored_poulin poulin_sparse"
  let ?renamed = "update_player sample_converters stored_poulin poulin_renamed"
  note c10 = update_player_true_iff_written[where cv = sample_converters and c = stored_poulin]
  have h: "extract_player_fields sample_converters poulin_sparse = Inr (Some ?f)
    \<and> map_of ?f ''id'' = Some (PInt 31)
    \<and> bind_param (PInt 31) = Inr (SInt 31)
    \<and> select_player (working stored_poulin) (SInt 31) = Inr (Some ?row)
    \<and> (\<forall>column \<in> set (players_columns (working stored_poulin)).
          no_change ?f (dict_of_items (zip (players_columns (working stored_poulin)) ?row)) column)"
    by code_simp
  have a: "?sparse = (Inr False, stored_poulin\<lparr>trace := trace stored_poulin
                        @ [Select ''players'' 31, Pragma ''table_info(players)'']\<rparr>)"
    by (rule conjunct1[OF mp[OF conjunct1[OF
          c10[where player_data = poulin_sparse and player_fields = ?f and player_id = 31
              and i = "SInt 31" and existing_player = ?row]] h]])
  have nt: "fst ?sparse \<noteq> Inr True" unfolding a by simp
  have b: "working (snd ?sparse) = working stored_poulin"
    by (rule conjunct1[OF mp[OF conjunct1[OF conjunct2[OF conjunct2[OF
          c10[where player_data = poulin_sparse]]]] nt]])
  have t: "fst ?renamed = Inr True" by code_simp
  have w: "\<exists>s \<in> set (issued stored_poulin (snd ?renamed)). is_insert s \<or> is_update s"
    using conjunct1[OF conjunct2[OF c10[where player_data = poulin_renamed]]] t by blast
  have u: "Update ''players'' [''first_name''] 31 \<in> set (issued stored_poulin (snd ?renamed))"
    by code_simp
  have ne: "[''first_name''] \<noteq> []"
    by (rule mp[OF conjunct1[OF conjunct2[OF conjunct2[OF conjunct2[OF
          c10[where player_data = poulin_renamed and table = "''players''"
              and cols = "[''first_name'']" and j = 31]]]]] u])
  have cm: "committed (snd ?renamed) = working (snd ?renamed)"
    by (rule mp[OF conjunct2[OF conjunct2[OF conjunct2[OF conjunct2[OF
          c10[where player_data = poulin_renamed]]]]] t])
  have ins: "fst (update_player sample_converters (connect players_db) poulin) = Inr True"
    by code_simp
  from a b t w u cm ins show ?thesis by (intro conjI)
qed

end
